theory Spec2Isabelle
  imports Complex_Main "HOL-Library.AList" "HOL-Library.Word"
begin

text \<open>
  A shallow embedding of the in-process coordination layer of the WHM tool server: the
  lock manager (\<open>lock-manager.js\<close>), the transaction log (\<open>transaction-log.js\<close>),
  the asynchronous operation tracker (\<open>nsec3-async-handler.js\<close>) and the error
  classifier (\<open>error-mapper.js\<close>). Each table of the source is a state that the
  functions take and return; the clock readings and the random bytes a call consumes
  are arguments; a call returns either a result or the exception it raises. The
  definitions come first, the properties after them.
\<close>

section \<open>JavaScript values\<close>

text \<open>
  The coordination layer is JavaScript, so every argument of an entry point is a
  dynamically typed value. Numbers are IEEE doubles in the source. The model keeps the
  finite ones exact: \<open>Fin r\<close> is the number \<open>r\<close>, a rational, and \<open>Fin 0\<close> is the
  positive zero. The four special values are kept apart: the negative zero
  \<open>NegZero\<close>, which compares equal to zero but is a different value, and \<open>NaN\<close>,
  \<open>Infinity\<close> and \<open>-Infinity\<close>, which the validation guards of the source treat
  differently from finite numbers. Rounding, overflow and underflow of doubles are not
  modelled: comparisons are exact in the source as they are here, and every property
  below that depends on the value of a subtraction or a division is stated for arguments
  on which the doubles of the source give the same number as the exact arithmetic.
\<close>

datatype jsnum = Fin rat | NegZero | NaN | PosInf | NegInf

text \<open>
  The relational operators \<open><\<close> and \<open><=\<close> and the equality \<open>===\<close> on numbers: any
  comparison with NaN is false, and the two zeros are equal.
\<close>

fun num_lt :: "jsnum \<Rightarrow> jsnum \<Rightarrow> bool" where
  "num_lt NaN _ = False"
| "num_lt _ NaN = False"
| "num_lt (Fin a) (Fin b) = (a < b)"
| "num_lt (Fin a) NegZero = (a < 0)"
| "num_lt NegZero (Fin b) = (0 < b)"
| "num_lt (Fin _) PosInf = True"
| "num_lt NegZero PosInf = True"
| "num_lt NegInf (Fin _) = True"
| "num_lt NegInf NegZero = True"
| "num_lt NegInf PosInf = True"
| "num_lt _ _ = False"

fun num_eq :: "jsnum \<Rightarrow> jsnum \<Rightarrow> bool" where
  "num_eq NaN _ = False"
| "num_eq _ NaN = False"
| "num_eq (Fin a) NegZero = (a = 0)"
| "num_eq NegZero (Fin b) = (b = 0)"
| "num_eq a b = (a = b)"

definition num_le :: "jsnum \<Rightarrow> jsnum \<Rightarrow> bool" where
  "num_le a b = (a \<noteq> NaN \<and> b \<noteq> NaN \<and> (num_lt a b \<or> num_eq a b))"

definition num_gt :: "jsnum \<Rightarrow> jsnum \<Rightarrow> bool" where
  "num_gt a b = num_lt b a"

definition num_ge :: "jsnum \<Rightarrow> jsnum \<Rightarrow> bool" where
  "num_ge a b = num_le b a"

text \<open>
  \<open>Math.min\<close> and \<open>Math.max\<close> of two numbers: NaN if either is NaN, the smaller
  (larger) one otherwise; of the two zeros the negative one is the smaller.
\<close>

definition math_min :: "jsnum \<Rightarrow> jsnum \<Rightarrow> jsnum" where
  "math_min a b =
     (if a = NaN \<or> b = NaN then NaN
      else if num_lt b a then b
      else if num_lt a b then a
      else if b = NegZero then b else a)"

definition math_max :: "jsnum \<Rightarrow> jsnum \<Rightarrow> jsnum" where
  "math_max a b =
     (if a = NaN \<or> b = NaN then NaN
      else if num_lt a b then b
      else if num_lt b a then a
      else if b = NegZero then a else b)"

text \<open>
  The arithmetic the source applies to a stored timeout: subtracting a finite elapsed
  time (a difference of two clock readings, never the negative zero), dividing by a
  positive finite constant, and \<open>Math.ceil\<close>. NaN and the infinities are absorbing
  under all three, as in IEEE arithmetic; \<open>Math.ceil\<close> of a number strictly between
  \<open>-1\<close> and 0 is the negative zero. The finite results are the exact ones: the
  double of the source can differ from them, for instance a quotient too small for a
  double underflows to zero.
\<close>

fun num_sub_fin :: "jsnum \<Rightarrow> rat \<Rightarrow> jsnum" where
  "num_sub_fin (Fin t) e = Fin (t - e)"
| "num_sub_fin NegZero e = (if e = 0 then NegZero else Fin (- e))"
| "num_sub_fin NaN e = NaN"
| "num_sub_fin PosInf e = PosInf"
| "num_sub_fin NegInf e = NegInf"

fun num_div_pos :: "jsnum \<Rightarrow> rat \<Rightarrow> jsnum" where
  "num_div_pos (Fin t) d = Fin (t / d)"
| "num_div_pos NegZero d = NegZero"
| "num_div_pos NaN d = NaN"
| "num_div_pos PosInf d = PosInf"
| "num_div_pos NegInf d = NegInf"

fun math_ceil :: "jsnum \<Rightarrow> jsnum" where
  "math_ceil (Fin t) = (if - 1 < t \<and> t < 0 then NegZero else Fin (of_int \<lceil>t\<rceil>))"
| "math_ceil NegZero = NegZero"
| "math_ceil NaN = NaN"
| "math_ceil PosInf = PosInf"
| "math_ceil NegInf = NegInf"

text \<open>
  Values passed by value to the lock manager, the operation tracker and the error
  classifier. Arrays and plain objects are immutable trees here (an object is the list of
  its own properties in enumeration order); a function is opaque, \<open>JFun n\<close> being the
  function with the identity \<open>n\<close>. An instance of \<open>Error\<close> is \<open>JError m ps\<close>: \<open>m\<close>
  is its \<open>message\<close>, which is not enumerable, and \<open>ps\<close> are its enumerable own
  properties, such as \<open>code\<close>. Symbols, BigInts, accessor properties and objects
  without the prototype of plain objects are not modelled. A method
  \<open>valueOf\<close>, \<open>toString\<close> or \<open>toJSON\<close> that the caller put on an object acts
  through the conversions of the language, which are described further below.
\<close>

datatype jsval =
    JUndefined
  | JNull
  | JBool bool
  | JNum jsnum
  | JStr string
  | JArr "jsval list"
  | JObj "(string \<times> jsval) list"
  | JFun nat
  | JError jsval "(string \<times> jsval) list"

text \<open>Truthiness (\<open>!x\<close> is its negation) and the \<open>typeof\<close> operator.\<close>

fun truthy :: "jsval \<Rightarrow> bool" where
  "truthy JUndefined = False"
| "truthy JNull = False"
| "truthy (JBool b) = b"
| "truthy (JNum n) = (n \<noteq> Fin 0 \<and> n \<noteq> NegZero \<and> n \<noteq> NaN)"
| "truthy (JStr s) = (s \<noteq> [])"
| "truthy (JArr _) = True"
| "truthy (JObj _) = True"
| "truthy (JFun _) = True"
| "truthy (JError _ _) = True"

fun typeof :: "jsval \<Rightarrow> string" where
  "typeof JUndefined = ''undefined''"
| "typeof JNull = ''object''"
| "typeof (JBool _) = ''boolean''"
| "typeof (JNum _) = ''number''"
| "typeof (JStr _) = ''string''"
| "typeof (JArr _) = ''object''"
| "typeof (JObj _) = ''object''"
| "typeof (JFun _) = ''function''"
| "typeof (JError _ _) = ''object''"

text \<open>Exceptions a call can raise to its caller.\<close>

datatype exn =
    TypeError
  | SyntaxError
  | InvalidOperationData  \<comment> \<open>\<open>new Error('Dados da operacao invalidos')\<close>\<close>
  | BackupFailed          \<comment> \<open>\<open>new Error('Nao foi possivel fazer backup dos dados')\<close>\<close>
  | Thrown jsval          \<comment> \<open>a value thrown by a method that the caller put on an object\<close>

text \<open>
  \<open>String.prototype.trim\<close>: strips white space and line terminators from both ends.
  Strings are lists of 8-bit characters, so the white space characters are those of
  Latin-1. Calling \<open>x.trim()\<close> on a value that is not a string raises a TypeError.
\<close>

definition is_ws :: "char \<Rightarrow> bool" where
  "is_ws c = (c \<in> set [CHR 0x09, CHR 0x0A, CHR 0x0B, CHR 0x0C, CHR 0x0D, CHR 0x20, CHR 0xA0])"

definition trim :: "string \<Rightarrow> string" where
  "trim s = rev (dropWhile is_ws (rev (dropWhile is_ws s)))"

fun js_trim :: "jsval \<Rightarrow> exn + string" where
  "js_trim (JStr s) = Inr (trim s)"
| "js_trim _ = Inl TypeError"

text \<open>
  Property read \<open>x.k\<close> for a name \<open>k\<close> that no prototype of a plain object, an array,
  a function or a primitive defines (the source reads \<open>completedSteps\<close>, \<open>result\<close>,
  \<open>message\<close>, \<open>msg\<close>, \<open>code\<close>, \<open>errno\<close>, \<open>retry\<close>, \<open>shouldRetry\<close>,
  \<open>maxRetries\<close>, \<open>backoffMs\<close> and \<open>description\<close>): a TypeError on \<open>undefined\<close>
  and \<open>null\<close>, the own property of a plain object or of an error, \<open>undefined\<close>
  everywhere else.
\<close>

fun get_prop :: "jsval \<Rightarrow> string \<Rightarrow> exn + jsval" where
  "get_prop JUndefined k = Inl TypeError"
| "get_prop JNull k = Inl TypeError"
| "get_prop (JObj ps) k = Inr (case map_of ps k of Some v \<Rightarrow> v | None \<Rightarrow> JUndefined)"
| "get_prop (JError m ps) k =
     Inr (if k = ''message'' then m
          else (case map_of ps k of Some v \<Rightarrow> v | None \<Rightarrow> JUndefined))"
| "get_prop _ k = Inr JUndefined"

text \<open>
  \<open>String.prototype.toLowerCase\<close> on the characters of Latin-1: the letters \<open>A\<close> to
  \<open>Z\<close> and the accented capitals \<open>0xC0\<close> to \<open>0xDE\<close>, except the multiplication sign
  \<open>0xD7\<close>, move up by 32. Calling \<open>x.toLowerCase()\<close> on a value that is not a string
  raises a TypeError (an object that carries a method of that name is not modelled).
  \<open>js_includes s p\<close> is \<open>s.includes(p)\<close>: the string \<open>p\<close> occurs in \<open>s\<close>.
\<close>

definition lower_char :: "char \<Rightarrow> char" where
  "lower_char c =
     (let n = of_char c :: nat in
      if (65 \<le> n \<and> n \<le> 90) \<or> (192 \<le> n \<and> n \<le> 214) \<or> (216 \<le> n \<and> n \<le> 222)
      then char_of (n + 32) else c)"

definition to_lower :: "string \<Rightarrow> string" where
  "to_lower s = map lower_char s"

fun js_toLowerCase :: "jsval \<Rightarrow> exn + string" where
  "js_toLowerCase (JStr s) = Inr (to_lower s)"
| "js_toLowerCase _ = Inl TypeError"

fun js_includes :: "string \<Rightarrow> string \<Rightarrow> bool" where
  "js_includes [] p = (p = [])"
| "js_includes (c # s) p = (take (length p) (c # s) = p \<or> js_includes s p)"

text \<open>Sequencing of two steps that can raise: the second runs on the result of the first.\<close>

definition and_then :: "exn + 'a \<Rightarrow> ('a \<Rightarrow> exn + 'b) \<Rightarrow> exn + 'b" where
  "and_then m f = (case m of Inl e \<Rightarrow> Inl e | Inr x \<Rightarrow> f x)"

text \<open>Lower-case hexadecimal rendering of random bytes (\<open>Buffer.toString('hex')\<close>).\<close>

definition hex_digit :: "nat \<Rightarrow> char" where
  "hex_digit n = ''0123456789abcdef'' ! (n mod 16)"

definition hex_byte :: "8 word \<Rightarrow> string" where
  "hex_byte b = [hex_digit (unat b div 16), hex_digit (unat b mod 16)]"

definition to_hex :: "8 word list \<Rightarrow> string" where
  "to_hex bs = concat (map hex_byte bs)"

text \<open>
  Sample outputs of \<open>crypto.randomBytes\<close>: sixteen bytes for a lock token, twelve for a
  transaction ID.
\<close>

definition RND_A :: "8 word list" where
  "RND_A = [0x00, 0x11, 0x22, 0x33, 0x44, 0x55, 0x66, 0x77,
            0x88, 0x99, 0xAA, 0xBB, 0xCC, 0xDD, 0xEE, 0xFF]"

definition RND_B :: "8 word list" where
  "RND_B = [0xFF, 0xEE, 0xDD, 0xCC, 0xBB, 0xAA, 0x99, 0x88,
            0x77, 0x66, 0x55, 0x44, 0x33, 0x22, 0x11, 0x00]"

definition RND_T :: "8 word list" where
  "RND_T = [0x00, 0x11, 0x22, 0x33, 0x44, 0x55, 0x66, 0x77, 0x88, 0x99, 0xAA, 0xBB]"


section \<open>Async operation tracker: dynamic timeout\<close>

definition BASE_TIMEOUT_MS :: int where "BASE_TIMEOUT_MS = 60000"
definition DOMAIN_TIMEOUT_MS :: int where "DOMAIN_TIMEOUT_MS = 30000"
definition MAX_TIMEOUT_MS :: int where "MAX_TIMEOUT_MS = 600000"

text \<open>The filter predicate \<open>d => d && typeof d === 'string' && d.length > 0\<close>.\<close>

definition valid_domain :: "jsval \<Rightarrow> bool" where
  "valid_domain d =
     (truthy d \<and> typeof d = ''string'' \<and> (case d of JStr s \<Rightarrow> length s > 0 | _ \<Rightarrow> False))"

definition calculateNsec3Timeout :: "jsval \<Rightarrow> int" where
  "calculateNsec3Timeout domains =
     (case domains of
        JArr ds \<Rightarrow>
          (let validDomains = filter valid_domain ds;
               domainCount = length validDomains;
               calculatedTimeout = BASE_TIMEOUT_MS + DOMAIN_TIMEOUT_MS * int domainCount;
               finalTimeout = min calculatedTimeout MAX_TIMEOUT_MS
           in finalTimeout)
      | _ \<Rightarrow> BASE_TIMEOUT_MS)"

text \<open>What the specification counts: the entries that are non-empty strings.\<close>

fun nonempty_string :: "jsval \<Rightarrow> bool" where
  "nonempty_string (JStr s) = (s \<noteq> [])"
| "nonempty_string _ = False"

fun is_array :: "jsval \<Rightarrow> bool" where
  "is_array (JArr _) = True"
| "is_array _ = False"


section \<open>Error classifier: retry policy\<close>

datatype error_type =
    EEXIST | ENOENT | EPERM | EBUSY | ETIMEDOUT | ECONNREFUSED | RATE_LIMITED
  | QUOTA_EXCEEDED | INVALID_INPUT | VALIDATION_ERROR | UNAUTHORIZED | FORBIDDEN
  | INTERNAL_ERROR | SERVICE_UNAVAILABLE | UNKNOWN

text \<open>
  The static table \<open>RETRY_CONFIG\<close>. The kinds that are never retried have no
  \<open>backoffMs\<close> entry at all (\<open>None\<close>). The human-readable description of each kind
  is \<open>description\<close> below. This section is the classifier on its own mapped errors;
  the classifier on arbitrary values follows in a later section.
\<close>

record retry_config =
  cfg_shouldRetry :: bool
  cfg_maxRetries :: nat
  cfg_backoffMs :: "nat option"

fun RETRY_CONFIG :: "error_type \<Rightarrow> retry_config" where
  "RETRY_CONFIG EEXIST = \<lparr>cfg_shouldRetry = False, cfg_maxRetries = 0, cfg_backoffMs = None\<rparr>"
| "RETRY_CONFIG ENOENT = \<lparr>cfg_shouldRetry = False, cfg_maxRetries = 0, cfg_backoffMs = None\<rparr>"
| "RETRY_CONFIG EPERM = \<lparr>cfg_shouldRetry = False, cfg_maxRetries = 0, cfg_backoffMs = None\<rparr>"
| "RETRY_CONFIG EBUSY = \<lparr>cfg_shouldRetry = True, cfg_maxRetries = 3, cfg_backoffMs = Some 1000\<rparr>"
| "RETRY_CONFIG ETIMEDOUT = \<lparr>cfg_shouldRetry = True, cfg_maxRetries = 2, cfg_backoffMs = Some 2000\<rparr>"
| "RETRY_CONFIG ECONNREFUSED = \<lparr>cfg_shouldRetry = True, cfg_maxRetries = 3, cfg_backoffMs = Some 1000\<rparr>"
| "RETRY_CONFIG RATE_LIMITED = \<lparr>cfg_shouldRetry = True, cfg_maxRetries = 5, cfg_backoffMs = Some 5000\<rparr>"
| "RETRY_CONFIG QUOTA_EXCEEDED = \<lparr>cfg_shouldRetry = False, cfg_maxRetries = 0, cfg_backoffMs = None\<rparr>"
| "RETRY_CONFIG INVALID_INPUT = \<lparr>cfg_shouldRetry = False, cfg_maxRetries = 0, cfg_backoffMs = None\<rparr>"
| "RETRY_CONFIG VALIDATION_ERROR = \<lparr>cfg_shouldRetry = False, cfg_maxRetries = 0, cfg_backoffMs = None\<rparr>"
| "RETRY_CONFIG UNAUTHORIZED = \<lparr>cfg_shouldRetry = False, cfg_maxRetries = 0, cfg_backoffMs = None\<rparr>"
| "RETRY_CONFIG FORBIDDEN = \<lparr>cfg_shouldRetry = False, cfg_maxRetries = 0, cfg_backoffMs = None\<rparr>"
| "RETRY_CONFIG INTERNAL_ERROR = \<lparr>cfg_shouldRetry = True, cfg_maxRetries = 2, cfg_backoffMs = Some 2000\<rparr>"
| "RETRY_CONFIG SERVICE_UNAVAILABLE = \<lparr>cfg_shouldRetry = True, cfg_maxRetries = 3, cfg_backoffMs = Some 3000\<rparr>"
| "RETRY_CONFIG UNKNOWN = \<lparr>cfg_shouldRetry = True, cfg_maxRetries = 1, cfg_backoffMs = Some 1000\<rparr>"

datatype severity = Low | Medium | High

fun calculateSeverity :: "error_type \<Rightarrow> severity" where
  "calculateSeverity EEXIST = Medium"
| "calculateSeverity QUOTA_EXCEEDED = Medium"
| "calculateSeverity EPERM = High"
| "calculateSeverity FORBIDDEN = High"
| "calculateSeverity UNAUTHORIZED = High"
| "calculateSeverity INTERNAL_ERROR = High"
| "calculateSeverity SERVICE_UNAVAILABLE = High"
| "calculateSeverity ENOENT = Low"
| "calculateSeverity INVALID_INPUT = Low"
| "calculateSeverity VALIDATION_ERROR = Low"
| "calculateSeverity EBUSY = Medium"
| "calculateSeverity ETIMEDOUT = Medium"
| "calculateSeverity ECONNREFUSED = Medium"
| "calculateSeverity RATE_LIMITED = Medium"
| "calculateSeverity UNKNOWN = Medium"

text \<open>
  The mapped error. Its \<open>retry.backoffMs\<close> is \<open>retryConfig.backoffMs || 0\<close>: zero
  when the kind has no backoff.
\<close>

record retry_policy =
  shouldRetry :: bool
  maxRetries :: nat
  backoffMs :: nat

record mapped_error =
  me_type :: error_type
  me_originalMessage :: string
  me_retry :: retry_policy
  me_severity :: severity
  me_timestamp :: int

definition createMappedError :: "int \<Rightarrow> error_type \<Rightarrow> string \<Rightarrow> mapped_error" where
  "createMappedError now errorType originalMessage =
     (let retryConfig = RETRY_CONFIG errorType in
      \<lparr>me_type = errorType,
       me_originalMessage = originalMessage,
       me_retry = \<lparr>shouldRetry = cfg_shouldRetry retryConfig,
                   maxRetries = cfg_maxRetries retryConfig,
                   backoffMs = (case cfg_backoffMs retryConfig of
                                  Some b \<Rightarrow> if b = 0 then 0 else b | None \<Rightarrow> 0)\<rparr>,
       me_severity = calculateSeverity errorType,
       me_timestamp = now\<rparr>)"

text \<open>\<open>isRecoverable\<close> and \<open>getRetryBackoff\<close>; \<open>None\<close> is a null or absent mapped error.\<close>

definition isRecoverable :: "mapped_error option \<Rightarrow> bool" where
  "isRecoverable mappedError =
     (case mappedError of
        None \<Rightarrow> False
      | Some m \<Rightarrow> shouldRetry (me_retry m) = True \<and> maxRetries (me_retry m) > 0)"

definition getRetryBackoff :: "mapped_error option \<Rightarrow> nat \<Rightarrow> nat" where
  "getRetryBackoff mappedError attemptNumber =
     (case mappedError of
        None \<Rightarrow> 0
      | Some m \<Rightarrow>
          (let baseBackoff = (if backoffMs (me_retry m) = 0 then 1000 else backoffMs (me_retry m))
           in baseBackoff * 2 ^ (min attemptNumber 3)))"


section \<open>Lock manager\<close>

text \<open>
  The lock table is a JavaScript \<open>Map\<close> from the trimmed resource key to the lock
  entry \<open>{ lockId, timestamp, timeout }\<close>: an association list in insertion order,
  where \<open>Map.set\<close> replaces the value of a key that is present and appends a new key.
  The stored timeout is a number: \<open>Math.min(timeout, 600000)\<close>.
\<close>

record lock_entry =
  lk_lockId :: string
  lk_timestamp :: int
  lk_timeout :: jsnum

type_synonym locks = "(string \<times> lock_entry) list"

definition DEFAULT_LOCK_TIMEOUT :: rat where "DEFAULT_LOCK_TIMEOUT = 30000"

text \<open>
  The error strings of the lock manager:
  \<^item> \<open>InvalidResource\<close>: "Identificador de recurso invalido";
  \<^item> \<open>InvalidTimeout\<close>: "Timeout deve ser um numero positivo em milissegundos";
  \<^item> \<open>ResourceBusy s\<close>: "Recurso ja esta em uso. Tente novamente em \<open>s\<close>s", where
    \<open>s\<close> is \<open>Math.ceil((timeout - elapsedTime) / 1000)\<close>;
  \<^item> \<open>LockNotFound\<close>: "Lock nao existe para este recurso".
\<close>

datatype lock_error = InvalidResource | InvalidTimeout | ResourceBusy jsnum | LockNotFound

record acquire_result =
  acquired :: bool
  acq_lockId :: "string option"
  acq_error :: "lock_error option"

text \<open>\<open>crypto.randomBytes(16).toString('hex')\<close>; the random bytes are an input of the model.\<close>

definition generateLockId :: "8 word list \<Rightarrow> string" where
  "generateLockId rnd = to_hex rnd"

text \<open>
  \<open>acquireLock(resource, timeout = DEFAULT_LOCK_TIMEOUT)\<close>. The source reads the clock
  twice: \<open>now_check\<close> is the reading of the staleness test, \<open>now_grant\<close> the one
  stamped on the new entry. An omitted (\<open>undefined\<close>) timeout takes the default.
\<close>

definition acquireLock ::
  "8 word list \<Rightarrow> int \<Rightarrow> int \<Rightarrow> jsval \<Rightarrow> jsval \<Rightarrow> locks \<Rightarrow> (exn + acquire_result) \<times> locks" where
  "acquireLock rnd now_check now_grant resource timeout_arg locks =
     (let timeout = (if timeout_arg = JUndefined then JNum (Fin DEFAULT_LOCK_TIMEOUT) else timeout_arg) in
      if \<not> truthy resource \<or> typeof resource \<noteq> ''string'' then
        (Inr \<lparr>acquired = False, acq_lockId = None, acq_error = Some InvalidResource\<rparr>, locks)
      else
        (case timeout of
           JNum t \<Rightarrow>
             if num_le t (Fin 0) then
               (Inr \<lparr>acquired = False, acq_lockId = None, acq_error = Some InvalidTimeout\<rparr>, locks)
             else
               (let safeTimeout = math_min t (Fin 600000) in
                case js_trim resource of
                  Inl e \<Rightarrow> (Inl e, locks)
                | Inr resourceId \<Rightarrow>
                    (let newLock = (\<lambda>locks1.
                           (let lockId = generateLockId rnd in
                            (Inr \<lparr>acquired = True, acq_lockId = Some lockId, acq_error = None\<rparr>,
                             AList.update resourceId
                               \<lparr>lk_lockId = lockId, lk_timestamp = now_grant, lk_timeout = safeTimeout\<rparr>
                               locks1)))
                     in
                     case map_of locks resourceId of
                       Some existingLock \<Rightarrow>
                         (let elapsedTime = now_check - lk_timestamp existingLock in
                          if num_ge (Fin (of_int elapsedTime)) (lk_timeout existingLock) then
                            newLock (AList.delete resourceId locks)
                          else
                            (Inr \<lparr>acquired = False, acq_lockId = None,
                                  acq_error = Some (ResourceBusy
                                    (math_ceil (num_div_pos
                                       (num_sub_fin (lk_timeout existingLock) (of_int elapsedTime)) 1000)))\<rparr>,
                             locks))
                     | None \<Rightarrow> newLock locks))
         | _ \<Rightarrow>
             (Inr \<lparr>acquired = False, acq_lockId = None, acq_error = Some InvalidTimeout\<rparr>, locks)))"

record release_result =
  released :: bool
  rel_error :: "lock_error option"

definition releaseLock :: "jsval \<Rightarrow> locks \<Rightarrow> (exn + release_result) \<times> locks" where
  "releaseLock resource locks =
     (if \<not> truthy resource \<or> typeof resource \<noteq> ''string'' then
        (Inr \<lparr>released = False, rel_error = Some InvalidResource\<rparr>, locks)
      else
        (case js_trim resource of
           Inl e \<Rightarrow> (Inl e, locks)
         | Inr resourceId \<Rightarrow>
             (case map_of locks resourceId of
                None \<Rightarrow> (Inr \<lparr>released = False, rel_error = Some LockNotFound\<rparr>, locks)
              | Some lockData \<Rightarrow>
                  (Inr \<lparr>released = True, rel_error = None\<rparr>, AList.delete resourceId locks))))"

record lock_info =
  li_lockId :: string
  li_elapsedTime :: int
  li_remainingTime :: jsnum
  li_totalTimeout :: jsnum

record locked_result =
  locked :: bool
  lockInfo :: "lock_info option"

definition isLocked :: "int \<Rightarrow> jsval \<Rightarrow> locks \<Rightarrow> (exn + locked_result) \<times> locks" where
  "isLocked now resource locks =
     (if \<not> truthy resource \<or> typeof resource \<noteq> ''string'' then
        (Inr \<lparr>locked = False, lockInfo = None\<rparr>, locks)
      else
        (case js_trim resource of
           Inl e \<Rightarrow> (Inl e, locks)
         | Inr resourceId \<Rightarrow>
             (case map_of locks resourceId of
                None \<Rightarrow> (Inr \<lparr>locked = False, lockInfo = None\<rparr>, locks)
              | Some lockData \<Rightarrow>
                  (let elapsedTime = now - lk_timestamp lockData;
                       remainingTime = num_sub_fin (lk_timeout lockData) (of_int elapsedTime)
                   in
                   if num_le remainingTime (Fin 0) then
                     (Inr \<lparr>locked = False, lockInfo = None\<rparr>, AList.delete resourceId locks)
                   else
                     (Inr \<lparr>locked = True,
                           lockInfo = Some \<lparr>li_lockId = lk_lockId lockData,
                                            li_elapsedTime = elapsedTime,
                                            li_remainingTime = remainingTime,
                                            li_totalTimeout = lk_timeout lockData\<rparr>\<rparr>,
                      locks)))))"

text \<open>
  The timeout arguments that pass the guard
  \<open>typeof timeout !== 'number' || timeout <= 0\<close>: an omitted one (the default
  applies) and a number that is not \<open><= 0\<close>.
\<close>

fun timeout_accepted :: "jsval \<Rightarrow> bool" where
  "timeout_accepted JUndefined = True"
| "timeout_accepted (JNum t) = (\<not> num_le t (Fin 0))"
| "timeout_accepted _ = False"

text \<open>
  \<open>getLockStats()\<close> reads the clock once and reports every entry of the table, with the
  remaining time \<open>Math.max(0, timeout - elapsedTime)\<close>; \<open>clearAllLocks()\<close> empties the
  table and returns the number of entries it held. Neither has an operation that can
  raise.
\<close>

record lock_stat =
  ls_resource :: string
  ls_elapsedTime :: int
  ls_remainingTime :: jsnum
  ls_timeout :: jsnum

record lock_stats =
  ls_totalLocks :: nat
  ls_resources :: "lock_stat list"

definition getLockStats :: "int \<Rightarrow> locks \<Rightarrow> lock_stats" where
  "getLockStats now locks =
     \<lparr>ls_totalLocks = length locks,
      ls_resources =
        map (\<lambda>(resourceId, lockData).
               (let elapsedTime = now - lk_timestamp lockData;
                    remainingTime = math_max (Fin 0)
                      (num_sub_fin (lk_timeout lockData) (of_int elapsedTime))
                in \<lparr>ls_resource = resourceId, ls_elapsedTime = elapsedTime,
                    ls_remainingTime = remainingTime, ls_timeout = lk_timeout lockData\<rparr>))
            locks\<rparr>"

definition clearAllLocks :: "locks \<Rightarrow> nat \<times> locks" where
  "clearAllLocks locks = (length locks, [])"


section \<open>Async operation tracker: operation records\<close>

datatype op_state = QUEUED | IN_PROGRESS | COMPLETED | FAILED | CANCELLED

text \<open>
  The record that \<open>startAsyncOperation\<close> stores in the \<open>operations\<close> map. The
  \<open>result\<close> and \<open>error\<close> fields are arbitrary values (\<open>null\<close> at first),
  \<open>progress\<close> and \<open>completedSteps\<close> are numbers taken from the caller.
\<close>

record operation =
  op_type :: string
  op_domains :: "jsval list"
  op_status :: op_state
  op_progress :: jsnum
  op_result :: jsval
  op_error :: jsval
  op_timeout :: int
  op_startedAt :: int
  op_completedAt :: "int option"
  op_totalSteps :: nat
  op_completedSteps :: jsnum

type_synonym operations = "(string \<times> operation) list"

text \<open>
  The messages of the tracker. Their accented letters are Latin-1 characters:
  "ID de operacao invalido", "Operacao nao encontrada", "Progresso deve ser um numero
  entre 0 e 100", "Operacao expirou (timeout)", "Operacao falhou sem detalhes de erro".
\<close>

definition MSG_INVALID_OPERATION_ID :: string where
  "MSG_INVALID_OPERATION_ID =
     ''ID de opera'' @ [CHR 0xE7, CHR 0xE3] @ ''o inv'' @ [CHR 0xE1] @ ''lido''"

definition MSG_OPERATION_NOT_FOUND :: string where
  "MSG_OPERATION_NOT_FOUND =
     ''Opera'' @ [CHR 0xE7, CHR 0xE3] @ ''o n'' @ [CHR 0xE3] @ ''o encontrada''"

definition MSG_INVALID_PROGRESS :: string where
  "MSG_INVALID_PROGRESS = ''Progresso deve ser um n'' @ [CHR 0xFA] @ ''mero entre 0 e 100''"

definition MSG_OPERATION_TIMEOUT :: string where
  "MSG_OPERATION_TIMEOUT = ''Opera'' @ [CHR 0xE7, CHR 0xE3] @ ''o expirou (timeout)''"

definition MSG_OPERATION_FAILED :: string where
  "MSG_OPERATION_FAILED = ''Opera'' @ [CHR 0xE7, CHR 0xE3] @ ''o falhou sem detalhes de erro''"

record status_result =
  st_status :: "op_state option"
  st_progress :: jsnum
  st_completedSteps :: "jsnum option"
  st_totalSteps :: "nat option"
  st_elapsed :: "int option"
  st_timeout :: "int option"
  st_result :: jsval
  st_error :: jsval

text \<open>
  \<open>getOperationStatus(operationId)\<close>. The read detects a timeout: an operation that is
  \<open>in_progress\<close> for longer than its timeout is flipped to \<open>failed\<close>. The three
  clock readings of the source are \<open>now_check\<close>, \<open>now_fail\<close> and \<open>now_report\<close>.
\<close>

definition getOperationStatus ::
  "int \<Rightarrow> int \<Rightarrow> int \<Rightarrow> jsval \<Rightarrow> operations \<Rightarrow> (exn + status_result) \<times> operations" where
  "getOperationStatus now_check now_fail now_report operationId operations =
     (if \<not> truthy operationId \<or> typeof operationId \<noteq> ''string'' then
        (Inr \<lparr>st_status = None, st_progress = Fin 0, st_completedSteps = None,
              st_totalSteps = None, st_elapsed = None, st_timeout = None,
              st_result = JNull, st_error = JStr MSG_INVALID_OPERATION_ID\<rparr>, operations)
      else
        (case js_trim operationId of
           Inl e \<Rightarrow> (Inl e, operations)
         | Inr opId \<Rightarrow>
             (case map_of operations opId of
                None \<Rightarrow>
                  (Inr \<lparr>st_status = None, st_progress = Fin 0, st_completedSteps = None,
                        st_totalSteps = None, st_elapsed = None, st_timeout = None,
                        st_result = JNull, st_error = JStr MSG_OPERATION_NOT_FOUND\<rparr>, operations)
              | Some operation0 \<Rightarrow>
                  (let elapsed = now_check - op_startedAt operation0;
                       operation1 =
                         (if op_status operation0 = IN_PROGRESS \<and> elapsed > op_timeout operation0
                          then operation0\<lparr>op_status := FAILED,
                                          op_error := JStr MSG_OPERATION_TIMEOUT,
                                          op_completedAt := Some now_fail\<rparr>
                          else operation0)
                   in
                   (Inr \<lparr>st_status = Some (op_status operation1),
                         st_progress = op_progress operation1,
                         st_completedSteps = Some (op_completedSteps operation1),
                         st_totalSteps = Some (op_totalSteps operation1),
                         st_elapsed = Some (now_report - op_startedAt operation1),
                         st_timeout = Some (op_timeout operation1),
                         st_result = op_result operation1,
                         st_error = op_error operation1\<rparr>,
                    AList.update opId operation1 operations)))))"

record update_result =
  updated :: bool
  upd_error :: "string option"

text \<open>
  \<open>updateOperationProgress(operationId, progress, statusData = {})\<close>. The record is
  mutated in place, field by field, so an exception raised by \<open>statusData.completedSteps\<close>
  (when \<open>statusData\<close> is \<open>null\<close>) leaves the new progress behind. The progress
  observers registered for the operation are called last, each inside its own
  \<open>try\<close>/\<open>catch\<close>; they are taken not to call back into the tracker, so they do
  not appear in this state transformer: \<open>updateOperationProgress\<close> is the call up to
  the notification, and gives the table after the call whatever the observers do. The
  notification, and with it the complete call, is \<open>updateOperationProgress_notifying\<close>
  below.
\<close>

definition set_completed_steps :: "jsval \<Rightarrow> operation \<Rightarrow> operation" where
  \<comment> \<open>\<open>if (typeof statusData.completedSteps === 'number') operation.completedSteps = ...\<close>\<close>
  "set_completed_steps completedSteps operation =
     (case completedSteps of
        JNum n \<Rightarrow> operation\<lparr>op_completedSteps := n\<rparr>
      | _ \<Rightarrow> operation)"

definition move_to_in_progress :: "jsnum \<Rightarrow> operation \<Rightarrow> operation" where
  \<comment> \<open>\<open>if (operation.status === QUEUED && progress > 0) operation.status = IN_PROGRESS\<close>\<close>
  "move_to_in_progress p operation =
     (if op_status operation = QUEUED \<and> num_gt p (Fin 0)
      then operation\<lparr>op_status := IN_PROGRESS\<rparr>
      else operation)"

definition updateOperationProgress ::
  "int \<Rightarrow> jsval \<Rightarrow> jsval \<Rightarrow> jsval \<Rightarrow> operations \<Rightarrow> (exn + update_result) \<times> operations" where
  "updateOperationProgress now operationId progress statusData_arg operations =
     (let statusData = (if statusData_arg = JUndefined then JObj [] else statusData_arg) in
      if \<not> truthy operationId \<or> typeof operationId \<noteq> ''string'' then
        (Inr \<lparr>updated = False, upd_error = Some MSG_INVALID_OPERATION_ID\<rparr>, operations)
      else
        (case progress of
           JNum p \<Rightarrow>
             if num_lt p (Fin 0) \<or> num_gt p (Fin 100) then
               (Inr \<lparr>updated = False, upd_error = Some MSG_INVALID_PROGRESS\<rparr>, operations)
             else
               (case js_trim operationId of
                  Inl e \<Rightarrow> (Inl e, operations)
                | Inr opId \<Rightarrow>
                    (case map_of operations opId of
                       None \<Rightarrow>
                         (Inr \<lparr>updated = False, upd_error = Some MSG_OPERATION_NOT_FOUND\<rparr>,
                          operations)
                     | Some operation0 \<Rightarrow>
                         (let operation1 = operation0\<lparr>op_progress := p\<rparr> in
                          case get_prop statusData ''completedSteps'' of
                            Inl e \<Rightarrow> (Inl e, AList.update opId operation1 operations)
                          | Inr completedSteps \<Rightarrow>
                              (let operation2 = set_completed_steps completedSteps operation1;
                                   operation3 = move_to_in_progress p operation2
                               in
                               if p = Fin 100 \<and> op_status operation3 = IN_PROGRESS then
                                 (let operation4 = operation3\<lparr>op_status := COMPLETED,
                                                              op_completedAt := Some now\<rparr> in
                                  case get_prop statusData ''result'' of
                                    Inl e \<Rightarrow> (Inl e, AList.update opId operation4 operations)
                                  | Inr result \<Rightarrow>
                                      (Inr \<lparr>updated = True, upd_error = None\<rparr>,
                                       AList.update opId
                                         (operation4\<lparr>op_result :=
                                            (if truthy result then result else JObj [])\<rparr>)
                                         operations))
                               else
                                 (Inr \<lparr>updated = True, upd_error = None\<rparr>,
                                  AList.update opId operation3 operations)))))
         | _ \<Rightarrow>
             (Inr \<lparr>updated = False, upd_error = Some MSG_INVALID_PROGRESS\<rparr>, operations)))"

definition failOperation ::
  "int \<Rightarrow> jsval \<Rightarrow> jsval \<Rightarrow> operations \<Rightarrow> (exn + update_result) \<times> operations" where
  "failOperation now operationId errorMessage operations =
     (if \<not> truthy operationId \<or> typeof operationId \<noteq> ''string'' then
        (Inr \<lparr>updated = False, upd_error = Some MSG_INVALID_OPERATION_ID\<rparr>, operations)
      else
        (case js_trim operationId of
           Inl e \<Rightarrow> (Inl e, operations)
         | Inr opId \<Rightarrow>
             (case map_of operations opId of
                None \<Rightarrow>
                  (Inr \<lparr>updated = False, upd_error = Some MSG_OPERATION_NOT_FOUND\<rparr>, operations)
              | Some operation0 \<Rightarrow>
                  (Inr \<lparr>updated = True, upd_error = None\<rparr>,
                   AList.update opId
                     (operation0\<lparr>op_status := FAILED,
                                 op_error := (if truthy errorMessage then errorMessage
                                              else JStr MSG_OPERATION_FAILED),
                                 op_completedAt := Some now\<rparr>)
                     operations))))"

text \<open>The states the specification calls terminal, and the progress values the guard rejects.\<close>

fun terminal :: "op_state \<Rightarrow> bool" where
  "terminal COMPLETED = True"
| "terminal FAILED = True"
| "terminal CANCELLED = True"
| "terminal _ = False"

fun progress_rejected :: "jsval \<Rightarrow> bool" where
  "progress_rejected (JNum (Fin x)) = (x < 0 \<or> 100 < x)"
| "progress_rejected (JNum NegZero) = False"
| "progress_rejected (JNum NaN) = False"
| "progress_rejected _ = True"

text \<open>A freshly started operation, as \<open>startAsyncOperation\<close> stores it for one domain.\<close>

definition sample_operation :: operation where
  "sample_operation =
     \<lparr>op_type = ''recalc'', op_domains = [JStr ''x.com''], op_status = QUEUED,
      op_progress = Fin 0, op_result = JNull, op_error = JNull, op_timeout = 90000,
      op_startedAt = 0, op_completedAt = None, op_totalSteps = 1, op_completedSteps = Fin 0\<rparr>"


section \<open>Objects on a heap, and the JSON round trip\<close>

text \<open>
  The transaction log copies its payload with \<open>JSON.parse(JSON.stringify(x))\<close>, and
  the claims about it speak of aliasing and of reference cycles. Payloads are therefore
  values over an explicit heap: a heap is the list of the allocated objects, an address
  is an index into it, and allocation appends. An object is the list of its own
  enumerable properties in enumeration order (the keys are distinct in JavaScript); an
  array is the list of its elements. Accessor properties, prototypes, \<open>toJSON\<close>
  methods, Dates, Symbols and BigInts are not modelled.
\<close>

type_synonym addr = nat

datatype hval = HUndefined | HNull | HBool bool | HNum jsnum | HStr string | HFun nat | HRef addr

datatype hobj = HObject "(string \<times> hval) list" | HArray "hval list"

type_synonym heap = "hobj list"

fun htruthy :: "hval \<Rightarrow> bool" where
  "htruthy HUndefined = False"
| "htruthy HNull = False"
| "htruthy (HBool b) = b"
| "htruthy (HNum n) = (n \<noteq> Fin 0 \<and> n \<noteq> NegZero \<and> n \<noteq> NaN)"
| "htruthy (HStr s) = (s \<noteq> [])"
| "htruthy (HFun _) = True"
| "htruthy (HRef _) = True"

fun htypeof :: "hval \<Rightarrow> string" where
  "htypeof HUndefined = ''undefined''"
| "htypeof HNull = ''object''"
| "htypeof (HBool _) = ''boolean''"
| "htypeof (HNum _) = ''number''"
| "htypeof (HStr _) = ''string''"
| "htypeof (HFun _) = ''function''"
| "htypeof (HRef _) = ''object''"

text \<open>
  Property read \<open>x.k\<close> on a heap value, for a name no prototype defines (the source
  reads \<open>type\<close>). An address outside the heap denotes no JavaScript value.
\<close>

fun hget_prop :: "heap \<Rightarrow> hval \<Rightarrow> string \<Rightarrow> exn + hval" where
  "hget_prop h HUndefined k = Inl TypeError"
| "hget_prop h HNull k = Inl TypeError"
| "hget_prop h (HRef a) k =
     (if a < length h then
        (case h ! a of
           HObject ps \<Rightarrow> Inr (case map_of ps k of Some v \<Rightarrow> v | None \<Rightarrow> HUndefined)
         | HArray vs \<Rightarrow> Inr HUndefined)
      else Inr HUndefined)"
| "hget_prop h _ k = Inr HUndefined"

text \<open>
  The traversal of \<open>JSON.stringify\<close>: it walks the object graph depth first and keeps
  the stack of the objects it is inside of; meeting one of them again is a reference
  cycle, for which it raises a TypeError. \<open>snapshot h stk v\<close> is that walk, returning
  the value unfolded into a tree, or \<open>None\<close> for a cycle (or for an address outside
  the heap). The unfolded tree is also what deep equality compares.
\<close>

function snapshot :: "heap \<Rightarrow> addr list \<Rightarrow> hval \<Rightarrow> jsval option" where
  "snapshot h stk HUndefined = Some JUndefined"
| "snapshot h stk HNull = Some JNull"
| "snapshot h stk (HBool b) = Some (JBool b)"
| "snapshot h stk (HNum n) = Some (JNum n)"
| "snapshot h stk (HStr s) = Some (JStr s)"
| "snapshot h stk (HFun f) = Some (JFun f)"
| "snapshot h stk (HRef a) =
     (if a \<in> set stk \<or> length h \<le> a then None
      else
        (case h ! a of
           HObject ps \<Rightarrow>
             map_option JObj
               (those (map (\<lambda>p. map_option (Pair (fst p)) (snapshot h (a # stk) (snd p))) ps))
         | HArray vs \<Rightarrow>
             map_option JArr (those (map (snapshot h (a # stk)) vs))))"
  by pat_completeness auto
termination
proof -
  have unvisited_decreases:
    "length (filter (\<lambda>i. i \<noteq> a \<and> i \<notin> set stk) [0..<n])
       < length (filter (\<lambda>i. i \<notin> set stk) [0..<n])"
    if "a \<notin> set stk" and "a < n" for a :: nat and stk n
  proof -
    have "filter (\<lambda>i. i \<noteq> a \<and> i \<notin> set stk) [0..<n] =
          filter (\<lambda>i. i \<noteq> a) (filter (\<lambda>i. i \<notin> set stk) [0..<n])"
      by (auto intro: filter_cong)
    moreover have "length (filter (\<lambda>i. i \<noteq> a) (filter (\<lambda>i. i \<notin> set stk) [0..<n]))
          < length (filter (\<lambda>i. i \<notin> set stk) [0..<n])"
      using that by (intro length_filter_less [of a]) auto
    ultimately show ?thesis by simp
  qed
  show ?thesis
    by (relation "measure (\<lambda>(h, stk, v). length (filter (\<lambda>i. i \<notin> set stk) [0..<length h]))")
       (auto simp: unvisited_decreases)
qed

text \<open>
  JSON texts, as their syntax trees: the text that \<open>JSON.stringify\<close> prints and
  \<open>JSON.parse\<close> reads back is not modelled character by character.
\<close>

datatype json =
    JsNull | JsBool bool | JsNum rat | JsStr string
  | JsArr "json list" | JsObj "(string \<times> json) list"

text \<open>
  What \<open>JSON.stringify\<close> prints for an unfolded value: nothing (\<open>None\<close>) for
  \<open>undefined\<close> and for a function; \<open>null\<close> for NaN and the infinities; \<open>0\<close> for
  the negative zero; inside an array a value that prints nothing becomes \<open>null\<close>,
  inside an object its property is left out; of an error its enumerable properties.
\<close>

fun to_json :: "jsval \<Rightarrow> json option" where
  "to_json JUndefined = None"
| "to_json (JFun f) = None"
| "to_json JNull = Some JsNull"
| "to_json (JBool b) = Some (JsBool b)"
| "to_json (JNum (Fin r)) = Some (JsNum r)"
| "to_json (JNum NegZero) = Some (JsNum 0)"
| "to_json (JNum n) = Some JsNull"
| "to_json (JStr s) = Some (JsStr s)"
| "to_json (JArr vs) =
     Some (JsArr (map (\<lambda>v. case to_json v of None \<Rightarrow> JsNull | Some j \<Rightarrow> j) vs))"
| "to_json (JObj ps) =
     Some (JsObj (concat (map (\<lambda>p. case to_json (snd p) of None \<Rightarrow> [] | Some j \<Rightarrow> [(fst p, j)]) ps)))"
| "to_json (JError m ps) =
     Some (JsObj (concat (map (\<lambda>p. case to_json (snd p) of None \<Rightarrow> [] | Some j \<Rightarrow> [(fst p, j)]) ps)))"

definition JSON_stringify :: "heap \<Rightarrow> hval \<Rightarrow> exn + json option" where
  "JSON_stringify h v =
     (case snapshot h [] v of
        None \<Rightarrow> Inl TypeError
      | Some t \<Rightarrow> Inr (to_json t))"

text \<open>The value a JSON text denotes, as a tree.\<close>

fun json_value :: "json \<Rightarrow> jsval" where
  "json_value JsNull = JNull"
| "json_value (JsBool b) = JBool b"
| "json_value (JsNum r) = JNum (Fin r)"
| "json_value (JsStr s) = JStr s"
| "json_value (JsArr js) = JArr (map json_value js)"
| "json_value (JsObj ps) = JObj (map (\<lambda>p. (fst p, json_value (snd p))) ps)"

text \<open>
  \<open>JSON.parse\<close> allocates a new object for every array and object of the text; the
  parts are allocated before the whole.
\<close>

fun JSON_parse :: "json \<Rightarrow> heap \<Rightarrow> hval \<times> heap"
  and parse_elements :: "json list \<Rightarrow> heap \<Rightarrow> hval list \<times> heap"
  and parse_members :: "(string \<times> json) list \<Rightarrow> heap \<Rightarrow> (string \<times> hval) list \<times> heap" where
  "JSON_parse JsNull h = (HNull, h)"
| "JSON_parse (JsBool b) h = (HBool b, h)"
| "JSON_parse (JsNum r) h = (HNum (Fin r), h)"
| "JSON_parse (JsStr s) h = (HStr s, h)"
| "JSON_parse (JsArr js) h =
     (let (vs, h1) = parse_elements js h in (HRef (length h1), h1 @ [HArray vs]))"
| "JSON_parse (JsObj ps) h =
     (let (qs, h1) = parse_members ps h in (HRef (length h1), h1 @ [HObject qs]))"
| "parse_elements [] h = ([], h)"
| "parse_elements (j # js) h =
     (let (v, h1) = JSON_parse j h; (vs, h2) = parse_elements js h1 in (v # vs, h2))"
| "parse_members [] h = ([], h)"
| "parse_members (p # ps) h =
     (let (v, h1) = JSON_parse (snd p) h; (qs, h2) = parse_members ps h1
      in ((fst p, v) # qs, h2))"

text \<open>
  \<open>JSON.parse(JSON.stringify(v))\<close>. When \<open>JSON.stringify\<close> returns \<open>undefined\<close>,
  \<open>JSON.parse\<close> raises a SyntaxError.
\<close>

definition json_clone :: "heap \<Rightarrow> hval \<Rightarrow> exn + (hval \<times> heap)" where
  "json_clone h v =
     (case JSON_stringify h v of
        Inl e \<Rightarrow> Inl e
      | Inr None \<Rightarrow> Inl SyntaxError
      | Inr (Some text) \<Rightarrow> Inr (JSON_parse text h))"


section \<open>Operations of the language that the model leaves open\<close>

text \<open>
  Some entry points apply conversions and arithmetic of the language to arbitrary
  values. What these operations return is a parameter of the model:
  \<^item> \<open>bi_string_to_number\<close>: the number that a string converts to;
  \<^item> \<open>bi_object_to_number\<close>: the conversion to a number of an array, an object, an
    error or a function. It runs the \<open>valueOf\<close> or \<open>toString\<close> method of the value,
    which can be a method of the caller's that throws, so it can raise;
  \<^item> \<open>bi_number_to_string\<close>: the string that a number converts to, as a property key;
  \<^item> \<open>bi_object_to_string\<close>: the conversion to a property key of an array, an object,
    an error or a function, which can raise in the same way;
  \<^item> \<open>bi_times\<close> and \<open>bi_pow\<close>: the product of two doubles, and \<open>Math.pow\<close>;
  \<^item> \<open>bi_stringify\<close>: the result of \<open>JSON.stringify\<close> on an array or object passed by
    value: a string or \<open>undefined\<close>, or the exception of a \<open>toJSON\<close> method of the
    caller's;
  \<^item> \<open>bi_inherited\<close>: the member that a plain object inherits under a name,
    \<open>undefined\<close> for a name under which it inherits nothing;
  \<^item> \<open>bi_call f event\<close>: what the function with the identity \<open>f\<close> does when it is
    called as a progress observer with \<open>event\<close>: it returns (\<open>None\<close>) or it throws a
    value (\<open>Some v\<close>). An observer is taken not to call back into the tracker.

  The conversion methods and the observers are taken to end: each call of one either
  returns or throws.

  The logger of the source is taken never to raise, and the static tables of the error
  classifier are taken as constants: no caller writes to them.
\<close>

record builtins =
  bi_string_to_number :: "string \<Rightarrow> jsnum"
  bi_object_to_number :: "jsval \<Rightarrow> exn + jsnum"
  bi_number_to_string :: "jsnum \<Rightarrow> string"
  bi_object_to_string :: "jsval \<Rightarrow> exn + string"
  bi_times :: "jsnum \<Rightarrow> jsnum \<Rightarrow> jsnum"
  bi_pow :: "jsnum \<Rightarrow> jsnum \<Rightarrow> jsnum"
  bi_stringify :: "jsval \<Rightarrow> exn + jsval"
  bi_inherited :: "string \<Rightarrow> jsval"
  bi_call :: "nat \<Rightarrow> jsval \<Rightarrow> jsval option"

text \<open>
  The conversion of a value to a number (in \<open>x * 60\<close>, \<open>x > 0\<close> and \<open>Math.min(x, 3)\<close>)
  and to a property key (in \<open>table[x]\<close>).
\<close>

fun to_number :: "builtins \<Rightarrow> jsval \<Rightarrow> exn + jsnum" where
  "to_number B (JNum n) = Inr n"
| "to_number B JUndefined = Inr NaN"
| "to_number B JNull = Inr (Fin 0)"
| "to_number B (JBool b) = Inr (Fin (if b then 1 else 0))"
| "to_number B (JStr s) = Inr (bi_string_to_number B s)"
| "to_number B v = bi_object_to_number B v"

fun to_property_key :: "builtins \<Rightarrow> jsval \<Rightarrow> exn + string" where
  "to_property_key B (JStr s) = Inr s"
| "to_property_key B JUndefined = Inr ''undefined''"
| "to_property_key B JNull = Inr ''null''"
| "to_property_key B (JBool b) = Inr (if b then ''true'' else ''false'')"
| "to_property_key B (JNum n) = Inr (bi_number_to_string B n)"
| "to_property_key B v = bi_object_to_string B v"

text \<open>No conversion raises: no object in play carries a conversion method that throws.\<close>

definition no_conversion_raises :: "builtins \<Rightarrow> bool" where
  "no_conversion_raises B =
     (\<forall>v. (\<exists>n. bi_object_to_number B v = Inr n)
          \<and> (\<exists>s. bi_object_to_string B v = Inr s)
          \<and> (\<exists>t. bi_stringify B v = Inr t))"


section \<open>Transaction log\<close>

datatype txn_state = PENDING | COMMITTED | ROLLED_BACK

fun state_name :: "txn_state \<Rightarrow> string" where
  "state_name PENDING = ''pending''"
| "state_name COMMITTED = ''committed''"
| "state_name ROLLED_BACK = ''rolled_back''"

record txn =
  tx_operationData :: hval
  tx_backup :: hval
  tx_status :: txn_state
  tx_timestamp :: int
  tx_completedAt :: "int option"

type_synonym transactions = "(string \<times> txn) list"

text \<open>\<open>`txn_${crypto.randomBytes(12).toString('hex')}`\<close>\<close>

definition generateTransactionId :: "8 word list \<Rightarrow> string" where
  "generateTransactionId rnd = ''txn_'' @ to_hex rnd"

text \<open>
  The messages of the transaction log, with their Latin-1 letters: "ID de transacao
  invalido", "Transacao nao encontrada", "Transacao nao esta em estado pendente
  (status: \<open>s\<close>)" and "Rollback nao e possivel para transacao em estado: \<open>s\<close>".
\<close>

definition MSG_INVALID_TRANSACTION_ID :: string where
  "MSG_INVALID_TRANSACTION_ID =
     ''ID de transa'' @ [CHR 0xE7, CHR 0xE3] @ ''o inv'' @ [CHR 0xE1] @ ''lido''"

definition MSG_TRANSACTION_NOT_FOUND :: string where
  "MSG_TRANSACTION_NOT_FOUND =
     ''Transa'' @ [CHR 0xE7, CHR 0xE3] @ ''o n'' @ [CHR 0xE3] @ ''o encontrada''"

definition commit_conflict :: "txn_state \<Rightarrow> string" where
  "commit_conflict st =
     ''Transa'' @ [CHR 0xE7, CHR 0xE3] @ ''o n'' @ [CHR 0xE3] @ ''o est'' @ [CHR 0xE1]
       @ '' em estado pendente (status: '' @ state_name st @ '')''"

definition rollback_conflict :: "txn_state \<Rightarrow> string" where
  "rollback_conflict st =
     ''Rollback n'' @ [CHR 0xE3] @ ''o '' @ [CHR 0xE9] @ '' poss'' @ [CHR 0xED]
       @ ''vel para transa'' @ [CHR 0xE7, CHR 0xE3] @ ''o em estado: '' @ state_name st"

record begin_result =
  bg_transactionId :: string
  bg_status :: txn_state
  bg_backup :: hval

text \<open>
  \<open>beginTransaction(operationData)\<close> raises on a payload that is not an object and on
  one it cannot copy. The first copy is made inside \<open>try\<close>/\<open>catch\<close>; the second one,
  stored as \<open>operationData\<close>, is not. The value returned as \<open>backup\<close> is the stored
  backup itself, not a copy of it.
\<close>

definition beginTransaction ::
  "8 word list \<Rightarrow> int \<Rightarrow> hval \<Rightarrow> heap \<Rightarrow> transactions
     \<Rightarrow> (exn + begin_result) \<times> heap \<times> transactions" where
  "beginTransaction rnd now operationData h transactions =
     (if \<not> htruthy operationData \<or> htypeof operationData \<noteq> ''object'' then
        (Inl InvalidOperationData, h, transactions)
      else
        (let transactionId = generateTransactionId rnd in
         case json_clone h operationData of
           Inl e \<Rightarrow> (Inl BackupFailed, h, transactions)
         | Inr (backup, h1) \<Rightarrow>
             (case json_clone h1 operationData of
                Inl e \<Rightarrow> (Inl e, h1, transactions)
              | Inr (dataCopy, h2) \<Rightarrow>
                  (Inr \<lparr>bg_transactionId = transactionId, bg_status = PENDING,
                        bg_backup = backup\<rparr>,
                   h2,
                   AList.update transactionId
                     \<lparr>tx_operationData = dataCopy, tx_backup = backup, tx_status = PENDING,
                      tx_timestamp = now, tx_completedAt = None\<rparr>
                     transactions))))"

record commit_result =
  cm_status :: "txn_state option"
  cm_error :: "string option"

definition commitTransaction ::
  "int \<Rightarrow> jsval \<Rightarrow> transactions \<Rightarrow> (exn + commit_result) \<times> transactions" where
  "commitTransaction now transactionId transactions =
     (if \<not> truthy transactionId \<or> typeof transactionId \<noteq> ''string'' then
        (Inr \<lparr>cm_status = None, cm_error = Some MSG_INVALID_TRANSACTION_ID\<rparr>, transactions)
      else
        (case js_trim transactionId of
           Inl e \<Rightarrow> (Inl e, transactions)
         | Inr txnId \<Rightarrow>
             (case map_of transactions txnId of
                None \<Rightarrow>
                  (Inr \<lparr>cm_status = None, cm_error = Some MSG_TRANSACTION_NOT_FOUND\<rparr>,
                   transactions)
              | Some txn \<Rightarrow>
                  if tx_status txn \<noteq> PENDING then
                    (Inr \<lparr>cm_status = None,
                          cm_error = Some (commit_conflict (tx_status txn))\<rparr>, transactions)
                  else
                    (Inr \<lparr>cm_status = Some COMMITTED, cm_error = None\<rparr>,
                     AList.update txnId
                       (txn\<lparr>tx_status := COMMITTED, tx_completedAt := Some now\<rparr>)
                       transactions))))"

record rollback_result =
  rb_status :: "txn_state option"
  rb_backup :: hval
  rb_error :: "string option"

text \<open>
  \<open>rollbackTransaction(transactionId)\<close> copies the stored backup before it updates the
  record; that copy is not inside a \<open>try\<close>, so its exception reaches the caller.
\<close>

definition rollbackTransaction ::
  "int \<Rightarrow> jsval \<Rightarrow> heap \<Rightarrow> transactions
     \<Rightarrow> (exn + rollback_result) \<times> heap \<times> transactions" where
  "rollbackTransaction now transactionId h transactions =
     (if \<not> truthy transactionId \<or> typeof transactionId \<noteq> ''string'' then
        (Inr \<lparr>rb_status = None, rb_backup = HNull,
              rb_error = Some MSG_INVALID_TRANSACTION_ID\<rparr>, h, transactions)
      else
        (case js_trim transactionId of
           Inl e \<Rightarrow> (Inl e, h, transactions)
         | Inr txnId \<Rightarrow>
             (case map_of transactions txnId of
                None \<Rightarrow>
                  (Inr \<lparr>rb_status = None, rb_backup = HNull,
                        rb_error = Some MSG_TRANSACTION_NOT_FOUND\<rparr>, h, transactions)
              | Some txn \<Rightarrow>
                  if tx_status txn \<noteq> PENDING then
                    (Inr \<lparr>rb_status = None, rb_backup = HNull,
                          rb_error = Some (rollback_conflict (tx_status txn))\<rparr>,
                     h, transactions)
                  else
                    (case json_clone h (tx_backup txn) of
                       Inl e \<Rightarrow> (Inl e, h, transactions)
                     | Inr (backup, h1) \<Rightarrow>
                         (Inr \<lparr>rb_status = Some ROLLED_BACK, rb_backup = backup,
                               rb_error = None\<rparr>,
                          h1,
                          AList.update txnId
                            (txn\<lparr>tx_status := ROLLED_BACK, tx_completedAt := Some now\<rparr>)
                            transactions)))))"

record active_txn =
  at_transactionId :: string
  at_operationType :: hval
  at_startedAt :: int
  at_duration :: int

text \<open>
  \<open>getActiveTransactions()\<close> walks the map in insertion order and reads the clock once
  for every pending entry: \<open>clock i\<close> is the reading for the \<open>i\<close>-th of them.
\<close>

fun active_from :: "(nat \<Rightarrow> int) \<Rightarrow> nat \<Rightarrow> heap \<Rightarrow> transactions \<Rightarrow> exn + active_txn list" where
  "active_from clock i h [] = Inr []"
| "active_from clock i h (e # rest) =
     (if tx_status (snd e) = PENDING then
        (case hget_prop h (tx_operationData (snd e)) ''type'' of
           Inl x \<Rightarrow> Inl x
         | Inr ty \<Rightarrow>
             (case active_from clock (Suc i) h rest of
                Inl x \<Rightarrow> Inl x
              | Inr active \<Rightarrow>
                  Inr (\<lparr>at_transactionId = fst e,
                        at_operationType = (if htruthy ty then ty else HStr ''unknown''),
                        at_startedAt = tx_timestamp (snd e),
                        at_duration = clock i - tx_timestamp (snd e)\<rparr> # active)))
      else active_from clock i h rest)"

definition getActiveTransactions ::
  "(nat \<Rightarrow> int) \<Rightarrow> heap \<Rightarrow> transactions \<Rightarrow> exn + active_txn list" where
  "getActiveTransactions clock h transactions = active_from clock 0 h transactions"

record txn_stats =
  ts_total :: nat
  ts_pending :: nat
  ts_committed :: nat
  ts_rolledBack :: nat

definition getTransactionStats :: "transactions \<Rightarrow> txn_stats" where
  "getTransactionStats transactions =
     \<lparr>ts_total = length transactions,
      ts_pending = length (filter (\<lambda>e. tx_status (snd e) = PENDING) transactions),
      ts_committed = length (filter (\<lambda>e. tx_status (snd e) = COMMITTED) transactions),
      ts_rolledBack = length (filter (\<lambda>e. tx_status (snd e) = ROLLED_BACK) transactions)\<rparr>"

text \<open>
  \<open>getTransactionStatus(transactionId)\<close> reads \<open>txn.operationData.type\<close>, which raises
  on a stored payload that is \<open>null\<close> or \<open>undefined\<close>; \<open>duration\<close> is computed when
  \<open>completedAt\<close> is truthy.
\<close>

record txn_data =
  td_transactionId :: string
  td_status :: txn_state
  td_operationType :: hval
  td_startedAt :: int
  td_completedAt :: "int option"
  td_duration :: "int option"
  td_hasBackup :: bool

record txn_status_result =
  gs_status :: "txn_state option"
  gs_data :: "txn_data option"
  gs_error :: "string option"

definition getTransactionStatus ::
  "jsval \<Rightarrow> heap \<Rightarrow> transactions \<Rightarrow> exn + txn_status_result" where
  "getTransactionStatus transactionId h transactions =
     (if \<not> truthy transactionId \<or> typeof transactionId \<noteq> ''string'' then
        Inr \<lparr>gs_status = None, gs_data = None, gs_error = Some MSG_INVALID_TRANSACTION_ID\<rparr>
      else
        (case js_trim transactionId of
           Inl e \<Rightarrow> Inl e
         | Inr txnId \<Rightarrow>
             (case map_of transactions txnId of
                None \<Rightarrow>
                  Inr \<lparr>gs_status = None, gs_data = None,
                       gs_error = Some MSG_TRANSACTION_NOT_FOUND\<rparr>
              | Some txn \<Rightarrow>
                  (case hget_prop h (tx_operationData txn) ''type'' of
                     Inl e \<Rightarrow> Inl e
                   | Inr ty \<Rightarrow>
                       Inr \<lparr>gs_status = Some (tx_status txn),
                            gs_data = Some
                              \<lparr>td_transactionId = txnId,
                               td_status = tx_status txn,
                               td_operationType = (if htruthy ty then ty else HStr ''unknown''),
                               td_startedAt = tx_timestamp txn,
                               td_completedAt = tx_completedAt txn,
                               td_duration =
                                 (case tx_completedAt txn of
                                    Some c \<Rightarrow> if c \<noteq> 0 then Some (c - tx_timestamp txn) else None
                                  | None \<Rightarrow> None),
                               td_hasBackup = htruthy (tx_backup txn)\<rparr>,
                            gs_error = None\<rparr>))))"

text \<open>
  \<open>cleanupOldTransactions(maxAgeHours = 24)\<close> first computes
  \<open>maxAgeHours * 60 * 60 * 1000\<close>, which converts its argument to a number. It then
  removes the entries that are not pending and whose age \<open>now - completedAt\<close> exceeds
  that bound; an absent \<open>completedAt\<close> (\<open>null\<close>) counts as 0 in the subtraction.
  \<open>clearAllTransactions()\<close> empties the table.
\<close>

definition cleanupOldTransactions ::
  "builtins \<Rightarrow> int \<Rightarrow> jsval \<Rightarrow> transactions \<Rightarrow> (exn + nat) \<times> transactions" where
  "cleanupOldTransactions B now maxAgeHours_arg transactions =
     (let maxAgeHours = (if maxAgeHours_arg = JUndefined then JNum (Fin 24) else maxAgeHours_arg) in
      case to_number B maxAgeHours of
        Inl e \<Rightarrow> (Inl e, transactions)
      | Inr hours \<Rightarrow>
          (let maxAgeMs = bi_times B (bi_times B (bi_times B hours (Fin 60)) (Fin 60)) (Fin 1000);
               toRemove =
                 map fst
                   (filter (\<lambda>(txnId, txn).
                       tx_status txn \<noteq> PENDING
                       \<and> num_gt (Fin (of_int (now - (case tx_completedAt txn of
                                                        Some c \<Rightarrow> c | None \<Rightarrow> 0)))) maxAgeMs)
                      transactions)
           in (Inr (length toRemove), foldr AList.delete toRemove transactions)))"

definition clearAllTransactions :: "transactions \<Rightarrow> nat \<times> transactions" where
  "clearAllTransactions transactions = (length transactions, [])"

text \<open>
  A run of commit and rollback calls against the log, each with its own clock reading
  and argument; a call that raises leaves the log as it was.
\<close>

datatype txn_call = Commit int jsval | Rollback int jsval

fun run_calls :: "txn_call list \<Rightarrow> heap \<Rightarrow> transactions \<Rightarrow> heap \<times> transactions" where
  "run_calls [] h transactions = (h, transactions)"
| "run_calls (Commit now tid # cs) h transactions =
     run_calls cs h (snd (commitTransaction now tid transactions))"
| "run_calls (Rollback now tid # cs) h transactions =
     (let (r, h1, transactions1) = rollbackTransaction now tid h transactions
      in run_calls cs h1 transactions1)"

text \<open>
  Reference cycles: \<open>edge h a b\<close> says that the object at \<open>a\<close> holds a reference to
  the object at \<open>b\<close>; a value is cyclic when it reaches an object that reaches itself.
\<close>

definition children :: "heap \<Rightarrow> addr \<Rightarrow> hval list" where
  "children h a =
     (if a < length h then (case h ! a of HObject ps \<Rightarrow> map snd ps | HArray vs \<Rightarrow> vs)
      else [])"

definition edge :: "heap \<Rightarrow> addr \<Rightarrow> addr \<Rightarrow> bool" where
  "edge h a b = (HRef b \<in> set (children h a))"

definition cyclic :: "heap \<Rightarrow> hval \<Rightarrow> bool" where
  "cyclic h v = (\<exists>a c. v = HRef a \<and> (edge h)\<^sup>*\<^sup>* a c \<and> (edge h)\<^sup>+\<^sup>+ c c)"

text \<open>
  Plain data: the unfolded values that a JSON text represents exactly, built from
  \<open>null\<close>, booleans, finite numbers other than the negative zero, strings, arrays
  and objects.
\<close>

fun plain_data :: "jsval \<Rightarrow> bool" where
  "plain_data JNull = True"
| "plain_data (JBool b) = True"
| "plain_data (JNum (Fin r)) = True"
| "plain_data (JStr s) = True"
| "plain_data (JArr vs) = list_all plain_data vs"
| "plain_data (JObj ps) = list_all (\<lambda>p. plain_data (snd p)) ps"
| "plain_data _ = False"


text \<open>
  \<open>agrees h'' h' n\<close>: the heap \<open>h''\<close> is at least as long as \<open>h'\<close> and holds the
  same objects as \<open>h'\<close> at the addresses from \<open>n\<close> on. The objects below \<open>n\<close> may
  have been mutated at will, and new objects may have been allocated behind \<open>h'\<close>.
\<close>

definition agrees :: "heap \<Rightarrow> heap \<Rightarrow> nat \<Rightarrow> bool" where
  "agrees h'' h' n = (length h' \<le> length h'' \<and> (\<forall>i. n \<le> i \<and> i < length h' \<longrightarrow> h'' ! i = h' ! i))"


section \<open>Async operation tracker: the other entry points\<close>

text \<open>\<open>`nsec3_${crypto.randomBytes(12).toString('hex')}`\<close>\<close>

definition generateOperationId :: "8 word list \<Rightarrow> string" where
  "generateOperationId rnd = ''nsec3_'' @ to_hex rnd"

text \<open>The strings that stand for the operation states in the source.\<close>

fun op_state_name :: "op_state \<Rightarrow> string" where
  "op_state_name QUEUED = ''queued''"
| "op_state_name IN_PROGRESS = ''in_progress''"
| "op_state_name COMPLETED = ''completed''"
| "op_state_name FAILED = ''failed''"
| "op_state_name CANCELLED = ''cancelled''"

text \<open>
  The messages of \<open>startAsyncOperation\<close>: "Tipo de operacao invalido", "Lista de
  dominios invalida ou vazia" and "Operacao com esse ID ja existe", with their Latin-1
  letters.
\<close>

definition MSG_INVALID_TYPE :: string where
  "MSG_INVALID_TYPE = ''Tipo de opera'' @ [CHR 0xE7, CHR 0xE3] @ ''o inv'' @ [CHR 0xE1] @ ''lido''"

definition MSG_INVALID_DOMAINS :: string where
  "MSG_INVALID_DOMAINS =
     ''Lista de dom'' @ [CHR 0xED] @ ''nios inv'' @ [CHR 0xE1] @ ''lida ou vazia''"

definition MSG_OPERATION_EXISTS :: string where
  "MSG_OPERATION_EXISTS =
     ''Opera'' @ [CHR 0xE7, CHR 0xE3] @ ''o com esse ID j'' @ [CHR 0xE1] @ '' existe''"

text \<open>
  \<open>startAsyncOperation(operationId = null, type, domains)\<close>. The source does not
  check the shape of \<open>operationId\<close>: any truthy value becomes the key of the new
  entry, as it is (a string is not trimmed). The entries under keys that are not strings
  are kept in a second table, \<open>others\<close>: no other entry point can name them, since
  all of them look up a trimmed string, but the statistics and the cleanup see them. A
  \<open>Map\<close> tells objects apart by identity; here two keys are the same when they are
  equal as trees. The record's own copy of its ID is never read and is left out.
\<close>

type_synonym keyed_operations = "(jsval \<times> operation) list"

record start_result =
  sa_operationId :: jsval
  sa_status :: "op_state option"
  sa_timeout :: "int option"
  sa_error :: "string option"

definition startAsyncOperation ::
  "8 word list \<Rightarrow> int \<Rightarrow> jsval \<Rightarrow> jsval \<Rightarrow> jsval \<Rightarrow> operations \<Rightarrow> keyed_operations
     \<Rightarrow> (exn + start_result) \<times> operations \<times> keyed_operations" where
  "startAsyncOperation rnd now operationId_arg type domains operations others =
     (let operationId = (if operationId_arg = JUndefined then JNull else operationId_arg) in
      if \<not> truthy type \<or> typeof type \<noteq> ''string'' then
        (Inr \<lparr>sa_operationId = JNull, sa_status = None, sa_timeout = None,
              sa_error = Some MSG_INVALID_TYPE\<rparr>, operations, others)
      else
        (case domains of
           JArr ds \<Rightarrow>
             if length ds = 0 then
               (Inr \<lparr>sa_operationId = JNull, sa_status = None, sa_timeout = None,
                     sa_error = Some MSG_INVALID_DOMAINS\<rparr>, operations, others)
             else
               (let finalOperationId =
                      (if truthy operationId then operationId
                       else JStr (generateOperationId rnd))
                in
                if (case finalOperationId of
                      JStr k \<Rightarrow> map_of operations k \<noteq> None
                    | v \<Rightarrow> map_of others v \<noteq> None)
                then
                  (Inr \<lparr>sa_operationId = finalOperationId, sa_status = None, sa_timeout = None,
                        sa_error = Some MSG_OPERATION_EXISTS\<rparr>, operations, others)
                else
                  (let timeout = calculateNsec3Timeout domains in
                   case js_toLowerCase type of
                     Inl e \<Rightarrow> (Inl e, operations, others)
                   | Inr lowerType \<Rightarrow>
                       (let operation =
                              \<lparr>op_type = lowerType, op_domains = ds, op_status = QUEUED,
                               op_progress = Fin 0, op_result = JNull, op_error = JNull,
                               op_timeout = timeout, op_startedAt = now, op_completedAt = None,
                               op_totalSteps = length ds, op_completedSteps = Fin 0\<rparr>;
                            result =
                              \<lparr>sa_operationId = finalOperationId, sa_status = Some QUEUED,
                               sa_timeout = Some timeout, sa_error = None\<rparr>
                        in
                        case finalOperationId of
                          JStr k \<Rightarrow> (Inr result, AList.update k operation operations, others)
                        | v \<Rightarrow> (Inr result, operations, AList.update v operation others))))
         | _ \<Rightarrow>
             (Inr \<lparr>sa_operationId = JNull, sa_status = None, sa_timeout = None,
                   sa_error = Some MSG_INVALID_DOMAINS\<rparr>, operations, others)))"

text \<open>
  The observers: \<open>progressCallbacks\<close> maps a trimmed operation ID to the list of the
  functions registered for it, each given by its identity.
  \<open>onOperationProgress(operationId, callback)\<close> appends one.
\<close>

type_synonym callbacks = "(string \<times> nat list) list"

definition onOperationProgress ::
  "jsval \<Rightarrow> jsval \<Rightarrow> callbacks \<Rightarrow> (exn + bool) \<times> callbacks" where
  "onOperationProgress operationId callback progressCallbacks =
     (if \<not> truthy operationId \<or> typeof operationId \<noteq> ''string'' then
        (Inr False, progressCallbacks)
      else
        (case callback of
           JFun f \<Rightarrow>
             (case js_trim operationId of
                Inl e \<Rightarrow> (Inl e, progressCallbacks)
              | Inr opId \<Rightarrow>
                  (Inr True,
                   AList.update opId
                     ((case map_of progressCallbacks opId of Some fs \<Rightarrow> fs | None \<Rightarrow> []) @ [f])
                     progressCallbacks))
         | _ \<Rightarrow> (Inr False, progressCallbacks)))"

text \<open>
  The notification of the observers at the end of \<open>updateOperationProgress\<close>:
  \<open>callbacks.forEach\<close> calls each observer with a new object
  \<open>{ operationId, progress, status }\<close> inside \<open>try\<close>/\<open>catch\<close>. The handler logs
  \<open>error.message\<close>; reading that property of a thrown \<open>null\<close> or \<open>undefined\<close>
  raises a TypeError inside the handler, which ends the loop and the call.
\<close>

definition progress_event :: "string \<Rightarrow> jsnum \<Rightarrow> op_state \<Rightarrow> jsval" where
  "progress_event opId progress status =
     JObj [(''operationId'', JStr opId), (''progress'', JNum progress),
           (''status'', JStr (op_state_name status))]"

fun notify :: "builtins \<Rightarrow> nat list \<Rightarrow> jsval \<Rightarrow> exn + unit" where
  "notify B [] event = Inr ()"
| "notify B (callback # callbacks) event =
     (case bi_call B callback event of
        None \<Rightarrow> notify B callbacks event
      | Some error \<Rightarrow>
          (case get_prop error ''message'' of
             Inl e \<Rightarrow> Inl e
           | Inr message \<Rightarrow> notify B callbacks event))"

text \<open>
  The complete call \<open>updateOperationProgress(operationId, progress, statusData)\<close>:
  the update of the record, as in \<open>updateOperationProgress\<close> above, followed on
  success by the notification of the observers registered under the trimmed ID. An
  exception of the notification leaves the record updated.
\<close>

definition updateOperationProgress_notifying ::
  "builtins \<Rightarrow> callbacks \<Rightarrow> int \<Rightarrow> jsval \<Rightarrow> jsval \<Rightarrow> jsval \<Rightarrow> operations
     \<Rightarrow> (exn + update_result) \<times> operations" where
  "updateOperationProgress_notifying B progressCallbacks now operationId progress statusData operations =
     (case updateOperationProgress now operationId progress statusData operations of
        (Inl e, operations1) \<Rightarrow> (Inl e, operations1)
      | (Inr r, operations1) \<Rightarrow>
          if \<not> updated r then (Inr r, operations1)
          else
            (case (js_trim operationId, progress) of
               (Inr opId, JNum p) \<Rightarrow>
                 (case (map_of progressCallbacks opId, map_of operations1 opId) of
                    (Some callbacks, Some operation) \<Rightarrow>
                      (case notify B callbacks (progress_event opId p (op_status operation)) of
                         Inl e \<Rightarrow> (Inl e, operations1)
                       | Inr u \<Rightarrow> (Inr r, operations1))
                  | _ \<Rightarrow> (Inr r, operations1))
             | _ \<Rightarrow> (Inr r, operations1)))"

text \<open>
  \<open>getOperationStats()\<close> counts the entries by state;
  \<open>cleanupOldOperations(maxAgeMinutes = 60)\<close> computes \<open>maxAgeMinutes * 60 * 1000\<close>,
  which converts its argument to a number, and removes the entries that are neither
  queued nor in progress and whose \<open>completedAt\<close> is truthy and older than that,
  together with their observers;
  \<open>clearAllOperations()\<close> empties both maps.
\<close>

record op_stats =
  os_total :: nat
  os_queued :: nat
  os_inProgress :: nat
  os_completed :: nat
  os_failed :: nat
  os_cancelled :: nat

definition getOperationStats :: "operations \<Rightarrow> keyed_operations \<Rightarrow> op_stats" where
  "getOperationStats operations others =
     (let ops = map snd operations @ map snd others in
      \<lparr>os_total = length ops,
       os_queued = length (filter (\<lambda>op. op_status op = QUEUED) ops),
       os_inProgress = length (filter (\<lambda>op. op_status op = IN_PROGRESS) ops),
       os_completed = length (filter (\<lambda>op. op_status op = COMPLETED) ops),
       os_failed = length (filter (\<lambda>op. op_status op = FAILED) ops),
       os_cancelled = length (filter (\<lambda>op. op_status op = CANCELLED) ops)\<rparr>)"

definition old_operation :: "int \<Rightarrow> jsnum \<Rightarrow> operation \<Rightarrow> bool" where
  "old_operation now maxAgeMs op =
     (\<not> (op_status op = IN_PROGRESS \<or> op_status op = QUEUED)
      \<and> (case op_completedAt op of
            Some c \<Rightarrow> c \<noteq> 0 \<and> num_gt (Fin (of_int (now - c))) maxAgeMs
          | None \<Rightarrow> False))"

definition cleanupOldOperations ::
  "builtins \<Rightarrow> int \<Rightarrow> jsval \<Rightarrow> operations \<Rightarrow> keyed_operations \<Rightarrow> callbacks
     \<Rightarrow> (exn + nat) \<times> operations \<times> keyed_operations \<times> callbacks" where
  "cleanupOldOperations B now maxAgeMinutes_arg operations others progressCallbacks =
     (let maxAgeMinutes =
            (if maxAgeMinutes_arg = JUndefined then JNum (Fin 60) else maxAgeMinutes_arg) in
      case to_number B maxAgeMinutes of
        Inl e \<Rightarrow> (Inl e, operations, others, progressCallbacks)
      | Inr minutes \<Rightarrow>
          (let maxAgeMs = bi_times B (bi_times B minutes (Fin 60)) (Fin 1000);
               toRemove =
                 map fst (filter (\<lambda>(opId, op). old_operation now maxAgeMs op) operations);
               toRemoveOthers =
                 map fst (filter (\<lambda>(opId, op). old_operation now maxAgeMs op) others)
           in (Inr (length toRemove + length toRemoveOthers),
               foldr AList.delete toRemove operations,
               foldr AList.delete toRemoveOthers others,
               foldr AList.delete toRemove progressCallbacks)))"

definition clearAllOperations ::
  "operations \<Rightarrow> keyed_operations \<Rightarrow> callbacks
     \<Rightarrow> nat \<times> operations \<times> keyed_operations \<times> callbacks" where
  "clearAllOperations operations others progressCallbacks =
     (length operations + length others, [], [], [])"

section \<open>Error classifier: arbitrary error values\<close>

text \<open>
  The table \<open>ERROR_TYPES\<close> maps the name of every kind to itself; its keys, in
  their order, are the names of the kinds.
\<close>

fun type_name :: "error_type \<Rightarrow> string" where
  "type_name EEXIST = ''EEXIST''"
| "type_name ENOENT = ''ENOENT''"
| "type_name EPERM = ''EPERM''"
| "type_name EBUSY = ''EBUSY''"
| "type_name ETIMEDOUT = ''ETIMEDOUT''"
| "type_name ECONNREFUSED = ''ECONNREFUSED''"
| "type_name RATE_LIMITED = ''RATE_LIMITED''"
| "type_name QUOTA_EXCEEDED = ''QUOTA_EXCEEDED''"
| "type_name INVALID_INPUT = ''INVALID_INPUT''"
| "type_name VALIDATION_ERROR = ''VALIDATION_ERROR''"
| "type_name UNAUTHORIZED = ''UNAUTHORIZED''"
| "type_name FORBIDDEN = ''FORBIDDEN''"
| "type_name INTERNAL_ERROR = ''INTERNAL_ERROR''"
| "type_name SERVICE_UNAVAILABLE = ''SERVICE_UNAVAILABLE''"
| "type_name UNKNOWN = ''UNKNOWN''"

definition ERROR_TYPES :: "error_type list" where
  "ERROR_TYPES =
     [EEXIST, ENOENT, EPERM, EBUSY, ETIMEDOUT, ECONNREFUSED, RATE_LIMITED, QUOTA_EXCEEDED,
      INVALID_INPUT, VALIDATION_ERROR, UNAUTHORIZED, FORBIDDEN, INTERNAL_ERROR,
      SERVICE_UNAVAILABLE, UNKNOWN]"

definition error_type_named :: "string \<Rightarrow> error_type option" where
  "error_type_named k = find (\<lambda>t. type_name t = k) ERROR_TYPES"

text \<open>The \<open>description\<close> of each kind in \<open>RETRY_CONFIG\<close>, with its Latin-1 letters.\<close>

fun description :: "error_type \<Rightarrow> string" where
  "description EEXIST = ''Arquivo ou recurso j'' @ [CHR 0xE1] @ '' existe''"
| "description ENOENT = ''Arquivo ou recurso n'' @ [CHR 0xE3] @ ''o encontrado''"
| "description EPERM =
     ''Opera'' @ [CHR 0xE7, CHR 0xE3] @ ''o n'' @ [CHR 0xE3] @ ''o permitida (permiss''
       @ [CHR 0xE3] @ ''o negada)''"
| "description EBUSY = ''Recurso ocupado, tente novamente''"
| "description ETIMEDOUT = ''Opera'' @ [CHR 0xE7, CHR 0xE3] @ ''o expirou, tente novamente''"
| "description ECONNREFUSED =
     ''Conex'' @ [CHR 0xE3] @ ''o recusada, servi'' @ [CHR 0xE7] @ ''o pode estar indispon''
       @ [CHR 0xED] @ ''vel''"
| "description RATE_LIMITED = ''Limite de taxa excedido, aguarde antes de tentar novamente''"
| "description QUOTA_EXCEEDED = ''Cota de recursos excedida''"
| "description INVALID_INPUT =
     ''Entrada inv'' @ [CHR 0xE1] @ ''lida, verifique par'' @ [CHR 0xE2] @ ''metros''"
| "description VALIDATION_ERROR = ''Erro de valida'' @ [CHR 0xE7, CHR 0xE3] @ ''o''"
| "description UNAUTHORIZED = ''Autentica'' @ [CHR 0xE7, CHR 0xE3] @ ''o falhou''"
| "description FORBIDDEN = ''Acesso proibido''"
| "description INTERNAL_ERROR = ''Erro interno do servidor, tente novamente''"
| "description SERVICE_UNAVAILABLE =
     ''Servi'' @ [CHR 0xE7] @ ''o temporariamente indispon'' @ [CHR 0xED] @ ''vel''"
| "description UNKNOWN = ''Erro desconhecido''"

text \<open>
  The entry of \<open>RETRY_CONFIG\<close> for a kind, as the object it is in the source, and the
  reads \<open>ERROR_TYPES[key]\<close> and \<open>RETRY_CONFIG[key]\<close> for an arbitrary value \<open>key\<close>:
  the key is converted to a property key; the result is the entry of the table when
  that is the name of a kind, and otherwise whatever a plain object inherits under it.
\<close>

definition retry_config_value :: "error_type \<Rightarrow> jsval" where
  "retry_config_value t =
     JObj ([(''shouldRetry'', JBool (cfg_shouldRetry (RETRY_CONFIG t))),
            (''maxRetries'', JNum (Fin (of_nat (cfg_maxRetries (RETRY_CONFIG t)))))]
           @ (case cfg_backoffMs (RETRY_CONFIG t) of
                Some b \<Rightarrow> [(''backoffMs'', JNum (Fin (of_nat b)))]
              | None \<Rightarrow> [])
           @ [(''description'', JStr (description t))])"

definition ERROR_TYPES_at :: "builtins \<Rightarrow> jsval \<Rightarrow> exn + jsval" where
  "ERROR_TYPES_at B key =
     and_then (to_property_key B key) (\<lambda>k.
       Inr (case error_type_named k of
              Some t \<Rightarrow> JStr (type_name t)
            | None \<Rightarrow> bi_inherited B k))"

definition RETRY_CONFIG_at :: "builtins \<Rightarrow> jsval \<Rightarrow> exn + jsval" where
  "RETRY_CONFIG_at B key =
     and_then (to_property_key B key) (\<lambda>k.
       Inr (case error_type_named k of
              Some t \<Rightarrow> retry_config_value t
            | None \<Rightarrow> bi_inherited B k))"

text \<open>
  \<open>calculateSeverity(errorType)\<close> is a \<open>switch\<close> over the names of the kinds: any
  value that is not one of the listed names falls to the default, \<open>'medium'\<close>.
\<close>

fun severity_name :: "severity \<Rightarrow> string" where
  "severity_name Low = ''low''"
| "severity_name Medium = ''medium''"
| "severity_name High = ''high''"

definition calculateSeverity_any :: "jsval \<Rightarrow> string" where
  "calculateSeverity_any errorType =
     (case errorType of
        JStr s \<Rightarrow>
          (case error_type_named s of
             Some t \<Rightarrow> severity_name (calculateSeverity t)
           | None \<Rightarrow> ''medium'')
      | _ \<Rightarrow> ''medium'')"

text \<open>
  \<open>createMappedError(errorType, originalMessage)\<close> for arbitrary arguments. A type
  for which \<open>ERROR_TYPES[errorType]\<close> is falsy is replaced by \<open>UNKNOWN\<close>; the
  configuration is \<open>RETRY_CONFIG[errorType] || RETRY_CONFIG.UNKNOWN\<close>, always an object.
  The result is the object the source builds.
\<close>

definition createMappedError_any :: "builtins \<Rightarrow> int \<Rightarrow> jsval \<Rightarrow> jsval \<Rightarrow> exn + jsval" where
  "createMappedError_any B now errorType_arg originalMessage =
     and_then (ERROR_TYPES_at B errorType_arg) (\<lambda>known.
       (let errorType = (if \<not> truthy known then JStr (type_name UNKNOWN) else errorType_arg) in
        and_then (RETRY_CONFIG_at B errorType) (\<lambda>configured.
        and_then (if truthy configured then Inr configured
                  else RETRY_CONFIG_at B (JStr (type_name UNKNOWN))) (\<lambda>retryConfig.
        and_then (get_prop retryConfig ''description'') (\<lambda>description.
        and_then (get_prop retryConfig ''shouldRetry'') (\<lambda>shouldRetry.
        and_then (get_prop retryConfig ''maxRetries'') (\<lambda>maxRetries.
        and_then (get_prop retryConfig ''backoffMs'') (\<lambda>backoffMs.
          Inr (JObj
            [(''type'', errorType),
             (''message'', description),
             (''originalMessage'', if truthy originalMessage then originalMessage else JStr ''''),
             (''retry'', JObj
                [(''shouldRetry'', shouldRetry),
                 (''maxRetries'', maxRetries),
                 (''backoffMs'', if truthy backoffMs then backoffMs else JNum (Fin 0))]),
             (''severity'', JStr (calculateSeverity_any errorType)),
             (''timestamp'', JNum (Fin (of_int now)))])))))))))"

text \<open>The ordered table of message patterns; the first pattern that occurs wins.\<close>

definition ERROR_PATTERN_MAP :: "(string \<times> error_type) list" where
  "ERROR_PATTERN_MAP =
     [(''file exists'', EEXIST),
      (''no such file'', ENOENT),
      (''not found'', ENOENT),
      (''permission denied'', EPERM),
      (''resource busy'', EBUSY),
      (''timeout'', ETIMEDOUT),
      (''timed out'', ETIMEDOUT),
      (''connection refused'', ECONNREFUSED),
      (''rate limit'', RATE_LIMITED),
      (''too many requests'', RATE_LIMITED),
      (''quota'', QUOTA_EXCEEDED),
      (''invalid'', INVALID_INPUT),
      (''unauthorized'', UNAUTHORIZED),
      (''forbidden'', FORBIDDEN),
      (''internal server error'', INTERNAL_ERROR),
      (''service unavailable'', SERVICE_UNAVAILABLE),
      (''bad request'', INVALID_INPUT)]"

text \<open>
  \<open>mapWhmError(whmError)\<close>. A falsy argument is classified as \<open>UNKNOWN\<close>. Otherwise
  the code and the message are taken from the argument (\<open>error_code_and_message\<close>): a
  string is the message; of an instance of \<open>Error\<close> the \<open>code\<close> and the \<open>message\<close>
  (or the empty string); of any other object \<open>code || errno\<close> and
  \<open>message || msg || JSON.stringify(whmError)\<close>; of anything else no code and the empty
  message. A truthy code for which \<open>ERROR_TYPES[errorCode]\<close> is truthy decides.
  Otherwise the message is lower-cased, which raises a TypeError when it is not a
  string, and matched against the patterns (\<open>classify_message\<close>).
\<close>

definition MSG_EMPTY_ERROR :: string where
  "MSG_EMPTY_ERROR = ''Erro vazio ou nulo''"

definition error_code_and_message :: "builtins \<Rightarrow> jsval \<Rightarrow> exn + (jsval \<times> jsval)" where
  "error_code_and_message B whmError =
     (case whmError of
        JStr s \<Rightarrow> Inr (JNull, whmError)
      | JError m ps \<Rightarrow>
          and_then (get_prop whmError ''code'') (\<lambda>code.
          and_then (get_prop whmError ''message'') (\<lambda>message.
            Inr (code, if truthy message then message else JStr '''')))
      | _ \<Rightarrow>
          if typeof whmError = ''object'' then
            and_then (get_prop whmError ''code'') (\<lambda>code.
            and_then (if truthy code then Inr code else get_prop whmError ''errno'') (\<lambda>errorCode.
            and_then (get_prop whmError ''message'') (\<lambda>message.
            and_then (if truthy message then Inr message else get_prop whmError ''msg'') (\<lambda>msg.
            and_then (if truthy msg then Inr msg else bi_stringify B whmError) (\<lambda>errorMessage.
              Inr (errorCode, errorMessage))))))
          else Inr (JNull, JStr ''''))"

definition classify_message :: "builtins \<Rightarrow> int \<Rightarrow> jsval \<Rightarrow> exn + jsval" where
  "classify_message B now errorMessage =
     and_then (js_toLowerCase errorMessage) (\<lambda>normalizedMessage.
       (case find (\<lambda>(pattern, errorType). js_includes normalizedMessage pattern)
               ERROR_PATTERN_MAP of
          Some (pattern, errorType) \<Rightarrow>
            createMappedError_any B now (JStr (type_name errorType)) errorMessage
        | None \<Rightarrow>
            createMappedError_any B now (JStr (type_name UNKNOWN)) errorMessage))"

definition mapWhmError :: "builtins \<Rightarrow> int \<Rightarrow> jsval \<Rightarrow> exn + jsval" where
  "mapWhmError B now whmError =
     (if \<not> truthy whmError then
        createMappedError_any B now (JStr (type_name UNKNOWN)) (JStr MSG_EMPTY_ERROR)
      else
        and_then (error_code_and_message B whmError) (\<lambda>(errorCode, errorMessage).
          if truthy errorCode then
            and_then (ERROR_TYPES_at B errorCode) (\<lambda>known.
              if truthy known then createMappedError_any B now errorCode errorMessage
              else classify_message B now errorMessage)
          else classify_message B now errorMessage))"

text \<open>
  \<open>isRecoverable(mappedError)\<close> and \<open>getRetryBackoff(mappedError, attemptNumber = 0)\<close>
  for arbitrary arguments; \<open>isRecoverable\<close> and \<open>getRetryBackoff\<close> above are these
  functions on the mapped errors that the classifier itself builds and on whole attempt
  numbers (shown below as \<open>isRecoverable_any_typed\<close> and
  \<open>getRetryBackoff_any_typed\<close>). In
  \<open>baseBackoff * Math.pow(2, Math.min(attemptNumber, 3))\<close> the attempt number is
  converted before the base.
\<close>

definition isRecoverable_any :: "builtins \<Rightarrow> jsval \<Rightarrow> exn + bool" where
  "isRecoverable_any B mappedError =
     (if \<not> truthy mappedError then Inr False
      else
        and_then (get_prop mappedError ''retry'') (\<lambda>retry.
          if \<not> truthy retry then Inr False
          else
            and_then (get_prop retry ''shouldRetry'') (\<lambda>shouldRetry.
              if shouldRetry \<noteq> JBool True then Inr False
              else
                and_then (get_prop retry ''maxRetries'') (\<lambda>maxRetries.
                and_then (to_number B maxRetries) (\<lambda>n.
                  Inr (num_gt n (Fin 0)))))))"

definition getRetryBackoff_any :: "builtins \<Rightarrow> jsval \<Rightarrow> jsval \<Rightarrow> exn + jsnum" where
  "getRetryBackoff_any B mappedError attemptNumber_arg =
     (let attemptNumber = (if attemptNumber_arg = JUndefined then JNum (Fin 0)
                           else attemptNumber_arg) in
      if \<not> truthy mappedError then Inr (Fin 0)
      else
        and_then (get_prop mappedError ''retry'') (\<lambda>retry.
          if \<not> truthy retry then Inr (Fin 0)
          else
            and_then (get_prop retry ''backoffMs'') (\<lambda>backoffMs.
              (let baseBackoff = (if truthy backoffMs then backoffMs else JNum (Fin 1000)) in
               and_then (to_number B attemptNumber) (\<lambda>attempt.
               and_then (to_number B baseBackoff) (\<lambda>base.
                 Inr (bi_times B base (bi_pow B (Fin 2) (math_min attempt (Fin 3))))))))))"

text \<open>\<open>getErrorTypes()\<close> and \<open>getRetryConfig(errorType)\<close>.\<close>

definition getErrorTypes :: "string list" where
  "getErrorTypes = map type_name ERROR_TYPES"

definition getRetryConfig :: "builtins \<Rightarrow> jsval \<Rightarrow> exn + jsval" where
  "getRetryConfig B errorType =
     and_then (RETRY_CONFIG_at B errorType) (\<lambda>configured.
       Inr (if truthy configured then configured else JNull))"

text \<open>A mapped error of the typed model as the object the source returns.\<close>

definition mapped_error_value :: "mapped_error \<Rightarrow> jsval" where
  "mapped_error_value m =
     JObj [(''type'', JStr (type_name (me_type m))),
           (''message'', JStr (description (me_type m))),
           (''originalMessage'', JStr (me_originalMessage m)),
           (''retry'', JObj
              [(''shouldRetry'', JBool (shouldRetry (me_retry m))),
               (''maxRetries'', JNum (Fin (of_nat (maxRetries (me_retry m))))),
               (''backoffMs'', JNum (Fin (of_nat (backoffMs (me_retry m)))))]),
           (''severity'', JStr (severity_name (me_severity m))),
           (''timestamp'', JNum (Fin (of_int (me_timestamp m))))]"

section \<open>The entry points as calls\<close>

text \<open>
  The state that the four components share between calls: the three tables, the
  observers, and the heap on which the payloads of the transaction log live.
\<close>

record world =
  w_locks :: locks
  w_heap :: heap
  w_transactions :: transactions
  w_operations :: operations
  w_others :: keyed_operations
  w_callbacks :: callbacks

text \<open>
  The entry points: every function that the four modules export, with the arguments of
  a call and the clock readings and random bytes that the call consumes.
\<close>

datatype call =
    AcquireLock "8 word list" int int jsval jsval
  | ReleaseLock jsval
  | IsLocked int jsval
  | GetLockStats int
  | ClearAllLocks
  | GenerateLockId "8 word list"
  | BeginTransaction "8 word list" int hval
  | CommitTransaction int jsval
  | RollbackTransaction int jsval
  | GetTransactionStatus jsval
  | GetActiveTransactions "nat \<Rightarrow> int"
  | CleanupOldTransactions int jsval
  | GetTransactionStats
  | ClearAllTransactions
  | GenerateTransactionId "8 word list"
  | CalculateNsec3Timeout jsval
  | GenerateOperationId "8 word list"
  | StartAsyncOperation "8 word list" int jsval jsval jsval
  | GetOperationStatus int int int jsval
  | UpdateOperationProgress int jsval jsval jsval
  | FailOperation int jsval jsval
  | OnOperationProgress jsval jsval
  | GetOperationStats
  | CleanupOldOperations int jsval
  | ClearAllOperations
  | MapWhmError int jsval
  | CreateMappedError int jsval jsval
  | IsRecoverable jsval
  | GetRetryBackoff jsval jsval
  | CalculateSeverity jsval
  | GetErrorTypes
  | GetRetryConfig jsval

text \<open>What a call returns to its caller.\<close>

datatype outcome =
    RetAcquire acquire_result
  | RetRelease release_result
  | RetLocked locked_result
  | RetLockStats lock_stats
  | RetCount nat
  | RetId string
  | RetBegin begin_result
  | RetCommit commit_result
  | RetRollback rollback_result
  | RetTxnStatus txn_status_result
  | RetActive "active_txn list"
  | RetTxnStats txn_stats
  | RetTimeout int
  | RetStart start_result
  | RetOpStatus status_result
  | RetUpdate update_result
  | RetRegistered bool
  | RetOpStats op_stats
  | RetValue jsval
  | RetBool bool
  | RetNumber jsnum
  | RetString string
  | RetNames "string list"

text \<open>
  \<open>perform B c w\<close> runs the call \<open>c\<close> in the state \<open>w\<close>: the result is the value
  returned (\<open>Inr\<close>) or the exception raised (\<open>Inl\<close>), and the state after the call. An
  entry point whose body has no operation that can raise always returns.
\<close>

fun perform :: "builtins \<Rightarrow> call \<Rightarrow> world \<Rightarrow> (exn + outcome) \<times> world" where
  "perform B (AcquireLock rnd now_check now_grant resource timeout) w =
     (case acquireLock rnd now_check now_grant resource timeout (w_locks w) of
        (r, locks1) \<Rightarrow> (map_sum id RetAcquire r, w\<lparr>w_locks := locks1\<rparr>))"
| "perform B (ReleaseLock resource) w =
     (case releaseLock resource (w_locks w) of
        (r, locks1) \<Rightarrow> (map_sum id RetRelease r, w\<lparr>w_locks := locks1\<rparr>))"
| "perform B (IsLocked now resource) w =
     (case isLocked now resource (w_locks w) of
        (r, locks1) \<Rightarrow> (map_sum id RetLocked r, w\<lparr>w_locks := locks1\<rparr>))"
| "perform B (GetLockStats now) w = (Inr (RetLockStats (getLockStats now (w_locks w))), w)"
| "perform B ClearAllLocks w =
     (case clearAllLocks (w_locks w) of
        (count, locks1) \<Rightarrow> (Inr (RetCount count), w\<lparr>w_locks := locks1\<rparr>))"
| "perform B (GenerateLockId rnd) w = (Inr (RetId (generateLockId rnd)), w)"
| "perform B (BeginTransaction rnd now operationData) w =
     (case beginTransaction rnd now operationData (w_heap w) (w_transactions w) of
        (r, h1, transactions1) \<Rightarrow>
          (map_sum id RetBegin r, w\<lparr>w_heap := h1, w_transactions := transactions1\<rparr>))"
| "perform B (CommitTransaction now transactionId) w =
     (case commitTransaction now transactionId (w_transactions w) of
        (r, transactions1) \<Rightarrow> (map_sum id RetCommit r, w\<lparr>w_transactions := transactions1\<rparr>))"
| "perform B (RollbackTransaction now transactionId) w =
     (case rollbackTransaction now transactionId (w_heap w) (w_transactions w) of
        (r, h1, transactions1) \<Rightarrow>
          (map_sum id RetRollback r, w\<lparr>w_heap := h1, w_transactions := transactions1\<rparr>))"
| "perform B (GetTransactionStatus transactionId) w =
     (map_sum id RetTxnStatus (getTransactionStatus transactionId (w_heap w) (w_transactions w)), w)"
| "perform B (GetActiveTransactions clock) w =
     (map_sum id RetActive (getActiveTransactions clock (w_heap w) (w_transactions w)), w)"
| "perform B (CleanupOldTransactions now maxAgeHours) w =
     (case cleanupOldTransactions B now maxAgeHours (w_transactions w) of
        (r, transactions1) \<Rightarrow>
          (map_sum id RetCount r, w\<lparr>w_transactions := transactions1\<rparr>))"
| "perform B GetTransactionStats w =
     (Inr (RetTxnStats (getTransactionStats (w_transactions w))), w)"
| "perform B ClearAllTransactions w =
     (case clearAllTransactions (w_transactions w) of
        (count, transactions1) \<Rightarrow> (Inr (RetCount count), w\<lparr>w_transactions := transactions1\<rparr>))"
| "perform B (GenerateTransactionId rnd) w = (Inr (RetId (generateTransactionId rnd)), w)"
| "perform B (CalculateNsec3Timeout domains) w =
     (Inr (RetTimeout (calculateNsec3Timeout domains)), w)"
| "perform B (GenerateOperationId rnd) w = (Inr (RetId (generateOperationId rnd)), w)"
| "perform B (StartAsyncOperation rnd now operationId type domains) w =
     (case startAsyncOperation rnd now operationId type domains (w_operations w) (w_others w) of
        (r, operations1, others1) \<Rightarrow>
          (map_sum id RetStart r, w\<lparr>w_operations := operations1, w_others := others1\<rparr>))"
| "perform B (GetOperationStatus now_check now_fail now_report operationId) w =
     (case getOperationStatus now_check now_fail now_report operationId (w_operations w) of
        (r, operations1) \<Rightarrow> (map_sum id RetOpStatus r, w\<lparr>w_operations := operations1\<rparr>))"
| "perform B (UpdateOperationProgress now operationId progress statusData) w =
     (case updateOperationProgress_notifying B (w_callbacks w) now operationId progress statusData
             (w_operations w) of
        (r, operations1) \<Rightarrow> (map_sum id RetUpdate r, w\<lparr>w_operations := operations1\<rparr>))"
| "perform B (FailOperation now operationId errorMessage) w =
     (case failOperation now operationId errorMessage (w_operations w) of
        (r, operations1) \<Rightarrow> (map_sum id RetUpdate r, w\<lparr>w_operations := operations1\<rparr>))"
| "perform B (OnOperationProgress operationId callback) w =
     (case onOperationProgress operationId callback (w_callbacks w) of
        (r, callbacks1) \<Rightarrow> (map_sum id RetRegistered r, w\<lparr>w_callbacks := callbacks1\<rparr>))"
| "perform B GetOperationStats w =
     (Inr (RetOpStats (getOperationStats (w_operations w) (w_others w))), w)"
| "perform B (CleanupOldOperations now maxAgeMinutes) w =
     (case cleanupOldOperations B now maxAgeMinutes (w_operations w) (w_others w) (w_callbacks w) of
        (r, operations1, others1, callbacks1) \<Rightarrow>
          (map_sum id RetCount r,
           w\<lparr>w_operations := operations1, w_others := others1, w_callbacks := callbacks1\<rparr>))"
| "perform B ClearAllOperations w =
     (case clearAllOperations (w_operations w) (w_others w) (w_callbacks w) of
        (count, operations1, others1, callbacks1) \<Rightarrow>
          (Inr (RetCount count),
           w\<lparr>w_operations := operations1, w_others := others1, w_callbacks := callbacks1\<rparr>))"
| "perform B (MapWhmError now whmError) w = (map_sum id RetValue (mapWhmError B now whmError), w)"
| "perform B (CreateMappedError now errorType originalMessage) w =
     (map_sum id RetValue (createMappedError_any B now errorType originalMessage), w)"
| "perform B (IsRecoverable mappedError) w =
     (map_sum id RetBool (isRecoverable_any B mappedError), w)"
| "perform B (GetRetryBackoff mappedError attemptNumber) w =
     (map_sum id RetNumber (getRetryBackoff_any B mappedError attemptNumber), w)"
| "perform B (CalculateSeverity errorType) w = (Inr (RetString (calculateSeverity_any errorType)), w)"
| "perform B GetErrorTypes w = (Inr (RetNames getErrorTypes), w)"
| "perform B (GetRetryConfig errorType) w =
     (map_sum id RetValue (getRetryConfig B errorType), w)"

text \<open>
  The property below is about the admissible calls. A call is not admissible when an
  exception escapes from it although the source means to report every error as a
  result:
  \<^item> \<open>updateOperationProgress\<close> with \<open>statusData\<close> equal to \<open>null\<close>, or for an
    operation with a registered observer that throws \<open>null\<close> or \<open>undefined\<close>;
  \<^item> \<open>rollbackTransaction\<close> of a pending transaction whose stored backup can no longer
    be copied;
  \<^item> \<open>mapWhmError\<close> of a value whose message is not a string and whose code does not
    name a kind;

  or when a conversion method of the caller's can throw in an entry point that
  converts an argument: \<open>cleanupOldTransactions\<close>, \<open>cleanupOldOperations\<close>,
  \<open>mapWhmError\<close>, \<open>createMappedError\<close>, \<open>isRecoverable\<close>, \<open>getRetryBackoff\<close> and
  \<open>getRetryConfig\<close>.
\<close>

definition copyable :: "heap \<Rightarrow> hval \<Rightarrow> bool" where
  "copyable h v = (case json_clone h v of Inl e \<Rightarrow> False | Inr c \<Rightarrow> True)"

definition quiet_observer :: "builtins \<Rightarrow> nat \<Rightarrow> bool" where
  "quiet_observer B f =
     (\<forall>event. bi_call B f event \<noteq> Some JNull \<and> bi_call B f event \<noteq> Some JUndefined)"

definition observers_of :: "callbacks \<Rightarrow> jsval \<Rightarrow> nat list" where
  "observers_of progressCallbacks operationId =
     (case operationId of
        JStr s \<Rightarrow> (case map_of progressCallbacks (trim s) of Some fs \<Rightarrow> fs | None \<Rightarrow> [])
      | _ \<Rightarrow> [])"

definition message_is_text :: "builtins \<Rightarrow> jsval \<Rightarrow> bool" where
  "message_is_text B whmError =
     (\<not> truthy whmError
      \<or> (case error_code_and_message B whmError of
            Inl e \<Rightarrow> False
          | Inr (errorCode, errorMessage) \<Rightarrow>
              typeof errorMessage = ''string''
              \<or> (truthy errorCode
                  \<and> (case ERROR_TYPES_at B errorCode of
                        Inl e \<Rightarrow> False
                      | Inr known \<Rightarrow> truthy known))))"

definition backup_copyable :: "heap \<Rightarrow> transactions \<Rightarrow> jsval \<Rightarrow> bool" where
  "backup_copyable h transactions transactionId =
     (case transactionId of
        JStr s \<Rightarrow>
          (case map_of transactions (trim s) of
             Some txn \<Rightarrow> tx_status txn = PENDING \<longrightarrow> copyable h (tx_backup txn)
           | None \<Rightarrow> True)
      | _ \<Rightarrow> True)"

fun admissible :: "builtins \<Rightarrow> call \<Rightarrow> world \<Rightarrow> bool" where
  "admissible B (UpdateOperationProgress now operationId progress statusData) w =
     (statusData \<noteq> JNull
      \<and> list_all (quiet_observer B) (observers_of (w_callbacks w) operationId))"
| "admissible B (RollbackTransaction now transactionId) w =
     backup_copyable (w_heap w) (w_transactions w) transactionId"
| "admissible B (MapWhmError now whmError) w =
     (no_conversion_raises B \<and> message_is_text B whmError)"
| "admissible B (CleanupOldTransactions now maxAgeHours) w = no_conversion_raises B"
| "admissible B (CleanupOldOperations now maxAgeMinutes) w = no_conversion_raises B"
| "admissible B (CreateMappedError now errorType originalMessage) w = no_conversion_raises B"
| "admissible B (IsRecoverable mappedError) w = no_conversion_raises B"
| "admissible B (GetRetryBackoff mappedError attemptNumber) w = no_conversion_raises B"
| "admissible B (GetRetryConfig errorType) w = no_conversion_raises B"
| "admissible B c w = True"

text \<open>
  \<open>beginTransaction\<close> refuses a payload by raising: \<open>refused c w\<close> is the exception
  with which the call \<open>c\<close> is refused in the state \<open>w\<close>, if it is.
\<close>

fun refused :: "call \<Rightarrow> world \<Rightarrow> exn option" where
  "refused (BeginTransaction rnd now operationData) w =
     (if \<not> htruthy operationData \<or> htypeof operationData \<noteq> ''object''
      then Some InvalidOperationData
      else if \<not> copyable (w_heap w) operationData then Some BackupFailed
      else None)"
| "refused c w = None"

text \<open>
  The payload copy that the transaction log stores in a record is an object: it is the
  result of \<open>JSON.parse\<close> on the text of an object. \<open>stored_payloads\<close> states the part
  of this that the read-only entry points rely on.
\<close>

definition stored_payloads :: "transactions \<Rightarrow> bool" where
  "stored_payloads transactions =
     list_all (\<lambda>(txnId, txn). tx_operationData txn \<noteq> HUndefined \<and> tx_operationData txn \<noteq> HNull)
       transactions"


text \<open>
  A state for the examples: one pending transaction for the payload \<open>{ ttl: 300 }\<close>, an
  object that refers to itself, one queued operation, and one observer registered for it.
\<close>

definition example_world :: world where
  "example_world =
     \<lparr>w_locks = [],
      w_heap = [HObject [(''ttl'', HNum (Fin 300))], HObject [(''ttl'', HNum (Fin 300))],
                HObject [(''ttl'', HNum (Fin 300))], HObject [(''self'', HRef 3)]],
      w_transactions =
        [(''txn_00112233445566778899aabb'',
          \<lparr>tx_operationData = HRef 2, tx_backup = HRef 1, tx_status = PENDING,
           tx_timestamp = 0, tx_completedAt = None\<rparr>)],
      w_operations = [(''op1'', sample_operation)],
      w_others = [],
      w_callbacks = [(''op1'', [1])]\<rparr>"

text \<open>A run of calls, each in the state that the call before it left.\<close>

fun perform_all :: "builtins \<Rightarrow> call list \<Rightarrow> world \<Rightarrow> world" where
  "perform_all B [] w = w"
| "perform_all B (c # cs) w = perform_all B cs (snd (perform B c w))"


section \<open>Properties of the timeout computation\<close>

lemma valid_domain_iff: "valid_domain d = nonempty_string d"
  by (cases d) (simp_all add: valid_domain_def)

lemma filter_valid_domain: "filter valid_domain ds = filter nonempty_string ds"
  by (simp add: valid_domain_iff cong: filter_cong)

lemma calc_array:
  "calculateNsec3Timeout (JArr ds) =
     min (60000 + 30000 * int (length (filter nonempty_string ds))) 600000"
  by (simp add: calculateNsec3Timeout_def BASE_TIMEOUT_MS_def DOMAIN_TIMEOUT_MS_def
      MAX_TIMEOUT_MS_def filter_valid_domain)

lemma calc_non_array: "\<not> is_array v \<Longrightarrow> calculateNsec3Timeout v = 60000"
  by (cases v) (simp_all add: calculateNsec3Timeout_def BASE_TIMEOUT_MS_def)

text \<open>
  Claim C7. \<open>calculateNsec3Timeout\<close> counts only the entries that are non-empty strings
  and returns \<open>min (60000 + 30000 * count) 600000\<close> milliseconds; an argument that is
  not an array yields 60000. An empty list yields 60000, one valid domain 90000, two
  valid domains 120000, and nineteen valid domains 600000 (clamped).
\<close>

theorem calculateNsec3Timeout_formula:
  "calculateNsec3Timeout (JArr ds) =
     min (60000 + 30000 * int (length (filter nonempty_string ds))) 600000
   \<and> (\<not> is_array v \<longrightarrow> calculateNsec3Timeout v = 60000)
   \<and> calculateNsec3Timeout (JArr []) = 60000
   \<and> (nonempty_string a \<longrightarrow> calculateNsec3Timeout (JArr [a]) = 90000)
   \<and> (nonempty_string a \<and> nonempty_string b \<longrightarrow> calculateNsec3Timeout (JArr [a, b]) = 120000)
   \<and> (length ds = 19 \<and> (\<forall>d \<in> set ds. nonempty_string d) \<longrightarrow>
        calculateNsec3Timeout (JArr ds) = 600000)"
proof -
  have nineteen: "calculateNsec3Timeout (JArr ds) = 600000"
    if "length ds = 19" and "\<forall>d \<in> set ds. nonempty_string d"
  proof -
    from that(2) have "filter nonempty_string ds = ds" by (simp add: filter_id_conv)
    with that(1) show ?thesis by (simp add: calc_array)
  qed
  show ?thesis
    using nineteen by (simp add: calc_array calc_non_array)
qed

theorem calculateNsec3Timeout_formula_witness:
  "calculateNsec3Timeout (JArr [JStr ''a.com'', JNum (Fin 7), JStr '''', JStr ''b.com'']) = 120000
   \<and> calculateNsec3Timeout (JStr ''a.com'') = 60000
   \<and> calculateNsec3Timeout (JArr [JStr ''a.com'']) = 90000
   \<and> calculateNsec3Timeout (JArr [JStr ''a'', JStr ''b'']) = 120000
   \<and> calculateNsec3Timeout (JArr (replicate 19 (JStr ''d.com''))) = 600000"
proof -
  have a: "nonempty_string (JStr ''a.com'')" and b: "nonempty_string (JStr ''a'')"
    and c: "nonempty_string (JStr ''b'')" by simp_all
  have d: "length (replicate 19 (JStr ''d.com'')) = 19
           \<and> (\<forall>d \<in> set (replicate 19 (JStr ''d.com'')). nonempty_string d)" by simp
  have e: "\<not> is_array (JStr ''a.com'')" by simp
  note t1 = calculateNsec3Timeout_formula
      [of "[JStr ''a.com'', JNum (Fin 7), JStr '''', JStr ''b.com'']" "JStr ''a.com''"
          "JStr ''a.com''" "JStr ''b''"]
  note t2 = calculateNsec3Timeout_formula
      [of "replicate 19 (JStr ''d.com'')" "JStr ''a.com''" "JStr ''a''" "JStr ''b''"]
  from t1 have p1: "calculateNsec3Timeout (JArr [JStr ''a.com'', JNum (Fin 7), JStr '''', JStr ''b.com'']) = 120000"
    by simp
  from t1 e have p2: "calculateNsec3Timeout (JStr ''a.com'') = 60000" by blast
  from t1 a have p3: "calculateNsec3Timeout (JArr [JStr ''a.com'']) = 90000" by blast
  from t2 b c have p4: "calculateNsec3Timeout (JArr [JStr ''a'', JStr ''b'']) = 120000" by blast
  from t2 d have p5: "calculateNsec3Timeout (JArr (replicate 19 (JStr ''d.com''))) = 600000" by blast
  from p1 p2 p3 p4 p5 show ?thesis by blast
qed


section \<open>Properties of the retry backoff\<close>

lemma getRetryBackoff_pos:
  "0 < backoffMs (me_retry m) \<Longrightarrow>
     getRetryBackoff (Some m) n = backoffMs (me_retry m) * 2 ^ min n 3"
  by (simp add: getRetryBackoff_def)

lemma getRetryBackoff_zero:
  "backoffMs (me_retry m) = 0 \<Longrightarrow> getRetryBackoff (Some m) n = 1000 * 2 ^ min n 3"
  by (simp add: getRetryBackoff_def)

text \<open>
  Claim C10 does not hold as stated: a mapped error of a kind that is never retried has
  base backoff 0, and \<open>getRetryBackoff\<close> falls back to 1000 (\<open>backoffMs || 1000\<close>)
  instead of returning \<open>0 * 2 ^ min n 3 = 0\<close>.
\<close>

theorem getRetryBackoff_zero_base_counterexample:
  "backoffMs (me_retry (createMappedError 0 EEXIST [])) = 0
   \<and> getRetryBackoff (Some (createMappedError 0 EEXIST [])) 0 = 1000
   \<and> getRetryBackoff (Some (createMappedError 0 EEXIST [])) 0
       \<noteq> backoffMs (me_retry (createMappedError 0 EEXIST [])) * 2 ^ min 0 3"
  by (simp add: createMappedError_def getRetryBackoff_def)

text \<open>
  Claim C10, amended. For every mapped error with base backoff \<open>b > 0\<close> and every
  attempt number \<open>n\<close>, \<open>getRetryBackoff\<close> returns \<open>b * 2 ^ min n 3\<close>: \<open>b\<close>,
  \<open>2b\<close>, \<open>4b\<close>, \<open>8b\<close> for the attempts 0 to 3, strictly increasing, and \<open>8b\<close>
  for every attempt from 3 on. For a mapped error with base backoff 0 the base 1000 is
  used in place of \<open>b\<close>.
\<close>

theorem getRetryBackoff_formula:
  "backoffMs (me_retry m) = b \<Longrightarrow>
     (0 < b \<longrightarrow>
        getRetryBackoff (Some m) n = b * 2 ^ min n 3
        \<and> getRetryBackoff (Some m) 0 = b
        \<and> getRetryBackoff (Some m) 1 = 2 * b
        \<and> getRetryBackoff (Some m) 2 = 4 * b
        \<and> getRetryBackoff (Some m) 3 = 8 * b
        \<and> getRetryBackoff (Some m) 0 < getRetryBackoff (Some m) 1
        \<and> getRetryBackoff (Some m) 1 < getRetryBackoff (Some m) 2
        \<and> getRetryBackoff (Some m) 2 < getRetryBackoff (Some m) 3
        \<and> (3 \<le> n \<longrightarrow> getRetryBackoff (Some m) n = 8 * b))
     \<and> (b = 0 \<longrightarrow> getRetryBackoff (Some m) n = 1000 * 2 ^ min n 3)"
proof (intro conjI impI)
  assume b: "backoffMs (me_retry m) = b" and pos: "0 < b"
  from b pos have f: "\<And>k. getRetryBackoff (Some m) k = b * 2 ^ min k 3"
    using getRetryBackoff_pos [of m] by simp
  show "getRetryBackoff (Some m) n = b * 2 ^ min n 3" by (rule f)
  show "getRetryBackoff (Some m) 0 = b" by (simp add: f)
  show "getRetryBackoff (Some m) 1 = 2 * b" by (simp add: f)
  show "getRetryBackoff (Some m) 2 = 4 * b" by (simp add: f)
  show "getRetryBackoff (Some m) 3 = 8 * b" by (simp add: f)
  show "getRetryBackoff (Some m) 0 < getRetryBackoff (Some m) 1" using pos by (simp add: f)
  show "getRetryBackoff (Some m) 1 < getRetryBackoff (Some m) 2" using pos by (simp add: f)
  show "getRetryBackoff (Some m) 2 < getRetryBackoff (Some m) 3" using pos by (simp add: f)
  show "getRetryBackoff (Some m) n = 8 * b" if "3 \<le> n"
    using that by (simp add: f min_def)
next
  assume "backoffMs (me_retry m) = b" and "b = 0"
  then show "getRetryBackoff (Some m) n = 1000 * 2 ^ min n 3"
    using getRetryBackoff_zero [of m n] by simp
qed

theorem getRetryBackoff_formula_witness:
  "getRetryBackoff (Some (createMappedError 0 RATE_LIMITED [])) 2 = 20000
   \<and> getRetryBackoff (Some (createMappedError 0 RATE_LIMITED [])) 7 = 40000
   \<and> getRetryBackoff (Some (createMappedError 0 ENOENT [])) 2 = 4000"
proof -
  have b1: "backoffMs (me_retry (createMappedError 0 RATE_LIMITED [])) = 5000"
    by (simp add: createMappedError_def)
  have b2: "backoffMs (me_retry (createMappedError 0 ENOENT [])) = 0"
    by (simp add: createMappedError_def)
  from getRetryBackoff_formula [OF b1, of 2]
  have p1: "getRetryBackoff (Some (createMappedError 0 RATE_LIMITED [])) 2 = 20000" by simp
  from getRetryBackoff_formula [OF b1, of 7]
  have p2: "getRetryBackoff (Some (createMappedError 0 RATE_LIMITED [])) 7 = 40000" by simp
  from getRetryBackoff_formula [OF b2, of 2]
  have p3: "getRetryBackoff (Some (createMappedError 0 ENOENT [])) 2 = 4000" by simp
  from p1 p2 p3 show ?thesis by blast
qed


section \<open>Properties of the lock manager\<close>

lemma acquireLock_granted:
  assumes "acquireLock rnd n1 n2 R T locks0 = (Inr r1, locks1)" and "acquired r1"
  shows "\<exists>Rs t. R = JStr Rs \<and> Rs \<noteq> [] \<and> (if T = JUndefined then t = Fin DEFAULT_LOCK_TIMEOUT else T = JNum t) \<and> \<not> num_le t (Fin 0)
           \<and> map_of locks1 (trim Rs) =
               Some \<lparr>lk_lockId = generateLockId rnd, lk_timestamp = n2,
                     lk_timeout = math_min t (Fin 600000)\<rparr>
           \<and> acq_lockId r1 = Some (generateLockId rnd)"
  using assms
  by (cases R; cases T)
     (auto simp: acquireLock_def Let_def update_conv' split: if_splits option.splits jsval.splits)

lemma num_lt_not_ge: "num_lt a b \<Longrightarrow> \<not> num_ge a b"
  by (cases a; cases b) (auto simp: num_ge_def num_le_def)

lemma acquireLock_live:
  assumes "map_of locks (trim Rs) = Some e" and "Rs \<noteq> []"
    and "num_lt (Fin (of_int (now - lk_timestamp e))) (lk_timeout e)"
  shows "acquireLock rnd now now' (JStr Rs) T' locks =
           (Inr \<lparr>acquired = False, acq_lockId = None,
                 acq_error = Some (if timeout_accepted T'
                    then ResourceBusy (math_ceil (num_div_pos
                           (num_sub_fin (lk_timeout e) (of_int (now - lk_timestamp e))) 1000))
                    else InvalidTimeout)\<rparr>, locks)"
proof -
  from assms(3) have ne: "\<not> num_ge (Fin (of_int (now - lk_timestamp e))) (lk_timeout e)"
    by (rule num_lt_not_ge)
  have dflt: "\<not> num_le (Fin DEFAULT_LOCK_TIMEOUT) (Fin 0)"
    by (simp add: num_le_def DEFAULT_LOCK_TIMEOUT_def)
  show ?thesis
    using assms(1,2) ne dflt
    by (cases T') (simp_all add: acquireLock_def Let_def)
qed

lemma busy_seconds_exact:
  assumes "x < t"
  shows "math_ceil (num_div_pos (num_sub_fin (Fin t) x) 1000) = Fin (of_int \<lceil>(t - x) / 1000\<rceil>)"
    and "0 < \<lceil>(t - x) / 1000\<rceil>"
proof -
  from assms have pos: "0 < (t - x) / 1000" by simp
  then show "0 < \<lceil>(t - x) / 1000\<rceil>" by (simp only: zero_less_ceiling)
  from pos show "math_ceil (num_div_pos (num_sub_fin (Fin t) x) 1000) = Fin (of_int \<lceil>(t - x) / 1000\<rceil>)"
    by simp
qed

lemma stored_timeout_finite:
  "num_le (Fin 1) T \<Longrightarrow>
     \<exists>stored. math_min T (Fin 600000) = Fin stored \<and> 1 \<le> stored \<and> stored \<le> 600000"
  by (cases T) (auto simp: num_le_def math_min_def)

lemma min_le_elapsed:
  "num_lt (Fin 0) T \<Longrightarrow> num_le T (Fin x) \<Longrightarrow> num_ge (Fin x) (math_min T (Fin 600000))"
  by (cases T) (auto simp: num_ge_def num_le_def math_min_def)

text \<open>
  Claim C1 does not hold for every second call: the guard on the timeout argument runs
  before the table is consulted, so a second call whose timeout is not a positive
  number is answered with the validation error, not with the busy error. The lock is
  taken at time 0 for 1000 ms; at time 10 a call with timeout 0 is refused as invalid.
\<close>

theorem acquireLock_contended_counterexample:
  "acquireLock RND_A 0 0 (JStr ''r'') (JNum (Fin 1000)) [] =
     (Inr \<lparr>acquired = True, acq_lockId = Some ''00112233445566778899aabbccddeeff'', acq_error = None\<rparr>,
      [(''r'', \<lparr>lk_lockId = ''00112233445566778899aabbccddeeff'', lk_timestamp = 0, lk_timeout = Fin 1000\<rparr>)])
   \<and> acquireLock RND_B 10 10 (JStr ''r'') (JNum (Fin 0))
        [(''r'', \<lparr>lk_lockId = ''00112233445566778899aabbccddeeff'', lk_timestamp = 0, lk_timeout = Fin 1000\<rparr>)] =
     (Inr \<lparr>acquired = False, acq_lockId = None, acq_error = Some InvalidTimeout\<rparr>,
      [(''r'', \<lparr>lk_lockId = ''00112233445566778899aabbccddeeff'', lk_timestamp = 0, lk_timeout = Fin 1000\<rparr>)])"
  by (simp add: acquireLock_def Let_def num_le_def math_min_def trim_def is_ws_def
      generateLockId_def to_hex_def hex_byte_def hex_digit_def RND_A_def RND_B_def)

text \<open>
  Claim C1, amended. Let \<open>acquireLock(R, T)\<close> succeed with a timeout \<open>T\<close> of at least
  one millisecond. The table then holds the entry stamped \<open>n2\<close> with the stored timeout
  \<open>min(T, 600000)\<close>, a finite number between 1 and 600000. Every
  \<open>acquireLock(R, T')\<close> issued at a clock reading \<open>now\<close> that is not before \<open>n2\<close>,
  while less than the stored timeout has elapsed, returns \<open>acquired = false\<close> and no
  lock token and leaves the table unchanged. When \<open>T'\<close> passes the timeout guard
  (omitted, or a number that is not \<open><= 0\<close>) the error is the busy error, and the
  number of seconds it reports is \<open>ceil((min(T, 600000) - (now - n2)) / 1000)\<close>, which
  is at least 1; otherwise the error is the timeout validation error.

  The two restrictions on the first call and on the clock mark the range on which the
  doubles of the source compute this number exactly: for a stored timeout between 1 and
  600000 and a whole number of elapsed milliseconds between 0 and that timeout the
  subtraction is exact, and the rounded quotient lies on the same side of every whole
  number as the exact one. Below one millisecond the quotient of the source can
  underflow to zero, and the busy error then reports 0 seconds.
\<close>

theorem acquireLock_contended:
  assumes "acquireLock rnd n1 n2 R (JNum T) locks0 = (Inr r1, locks1)" and "acquired r1"
    and "num_le (Fin 1) T"
    and "n2 \<le> now"
    and "num_lt (Fin (of_int (now - n2))) (math_min T (Fin 600000))"
  shows "\<exists>Rs res stored.
           R = JStr Rs
           \<and> math_min T (Fin 600000) = Fin stored \<and> 1 \<le> stored \<and> stored \<le> 600000
           \<and> map_of locks1 (trim Rs) =
               Some \<lparr>lk_lockId = generateLockId rnd, lk_timestamp = n2, lk_timeout = Fin stored\<rparr>
           \<and> acquireLock rnd' now now' R T' locks1 = (Inr res, locks1)
           \<and> \<not> acquired res \<and> acq_lockId res = None
           \<and> acq_error res =
               Some (if timeout_accepted T'
                     then ResourceBusy (Fin (of_int \<lceil>(stored - of_int (now - n2)) / 1000\<rceil>))
                     else InvalidTimeout)
           \<and> 0 < \<lceil>(stored - of_int (now - n2)) / 1000\<rceil>"
proof -
  from stored_timeout_finite [OF assms(3)] obtain stored where
    st: "math_min T (Fin 600000) = Fin stored" and range: "1 \<le> stored" "stored \<le> 600000"
    by blast
  from acquireLock_granted [OF assms(1,2)] st obtain Rs where
    R: "R = JStr Rs" and ne: "Rs \<noteq> []" and
    e: "map_of locks1 (trim Rs) =
          Some \<lparr>lk_lockId = generateLockId rnd, lk_timestamp = n2, lk_timeout = Fin stored\<rparr>"
    by auto
  let ?e = "\<lparr>lk_lockId = generateLockId rnd, lk_timestamp = n2, lk_timeout = Fin stored\<rparr>"
  from assms(5) st have lt: "of_int (now - n2) < stored" by simp
  then have live: "num_lt (Fin (of_int (now - lk_timestamp ?e))) (lk_timeout ?e)" by simp
  note busy = busy_seconds_exact [OF lt]
  from acquireLock_live [OF e ne live, of rnd' now' T'] busy(1)
  have "acquireLock rnd' now now' R T' locks1 =
          (Inr \<lparr>acquired = False, acq_lockId = None,
                acq_error = Some (if timeout_accepted T'
                     then ResourceBusy (Fin (of_int \<lceil>(stored - of_int (now - n2)) / 1000\<rceil>))
                     else InvalidTimeout)\<rparr>, locks1)"
    by (simp add: R)
  with R e st range busy(2) show ?thesis by auto
qed

text \<open>
  The amended claim C1 at a lock taken at time 0 for 2500 ms and asked for again at
  time 10: the busy error reports \<open>ceil(2490 / 1000) = 3\<close> seconds.
\<close>

theorem acquireLock_contended_witness:
  "acquireLock RND_B 10 11 (JStr ''r'') (JNum (Fin 5000))
     [(''r'', \<lparr>lk_lockId = ''00112233445566778899aabbccddeeff'', lk_timestamp = 0, lk_timeout = Fin 2500\<rparr>)] =
   (Inr \<lparr>acquired = False, acq_lockId = None, acq_error = Some (ResourceBusy (Fin 3))\<rparr>,
    [(''r'', \<lparr>lk_lockId = ''00112233445566778899aabbccddeeff'', lk_timestamp = 0, lk_timeout = Fin 2500\<rparr>)])"
proof -
  let ?l1 = "[(''r'', \<lparr>lk_lockId = ''00112233445566778899aabbccddeeff'', lk_timestamp = 0, lk_timeout = Fin 2500\<rparr>)]"
  have first: "acquireLock RND_A 0 0 (JStr ''r'') (JNum (Fin 2500)) [] =
     (Inr \<lparr>acquired = True, acq_lockId = Some ''00112233445566778899aabbccddeeff'', acq_error = None\<rparr>, ?l1)"
    by (simp add: acquireLock_def Let_def num_le_def math_min_def trim_def is_ws_def
      generateLockId_def to_hex_def hex_byte_def hex_digit_def RND_A_def RND_B_def)
  have acq: "acquired \<lparr>acquired = True, acq_lockId = Some ''00112233445566778899aabbccddeeff'', acq_error = None\<rparr>" by simp
  have big: "num_le (Fin 1) (Fin 2500)" by (simp add: num_le_def)
  have later: "(0::int) \<le> 10" by simp
  have live: "num_lt (Fin (of_int (10 - 0))) (math_min (Fin 2500) (Fin 600000))"
    by (simp add: math_min_def)
  have ok: "timeout_accepted (JNum (Fin 5000))" by (simp add: num_le_def)
  have c: "\<lceil>(2490::rat) / 1000\<rceil> = 3" by (simp add: ceiling_eq_iff)
  from acquireLock_contended [OF first acq big later live, of "RND_B" 11 "JNum (Fin 5000)"]
  obtain res stored where
    st: "math_min (Fin 2500) (Fin 600000) = Fin stored" and
    call: "acquireLock RND_B 10 11 (JStr ''r'') (JNum (Fin 5000)) ?l1 = (Inr res, ?l1)" and
    res: "\<not> acquired res" "acq_lockId res = None"
      "acq_error res =
         Some (if timeout_accepted (JNum (Fin 5000))
               then ResourceBusy (Fin (of_int \<lceil>(stored - of_int (10 - 0)) / 1000\<rceil>))
               else InvalidTimeout)"
    by blast
  from st have "stored = 2500" by (simp add: math_min_def)
  with res ok c have "res = \<lparr>acquired = False, acq_lockId = None, acq_error = Some (ResourceBusy (Fin 3))\<rparr>"
    by (cases res) simp
  with call show ?thesis by simp
qed


lemma acquireLock_stale:
  assumes "map_of locks (trim Rs) = Some e" and "Rs \<noteq> []"
    and "num_ge (Fin (of_int (now - lk_timestamp e))) (lk_timeout e)"
    and "timeout_accepted T'"
  shows "\<exists>t'. (if T' = JUndefined then t' = Fin DEFAULT_LOCK_TIMEOUT else T' = JNum t')
           \<and> acquireLock rnd now now' (JStr Rs) T' locks =
           (Inr \<lparr>acquired = True, acq_lockId = Some (generateLockId rnd), acq_error = None\<rparr>,
            AList.update (trim Rs)
              \<lparr>lk_lockId = generateLockId rnd, lk_timestamp = now',
                lk_timeout = math_min t' (Fin 600000)\<rparr>
              (AList.delete (trim Rs) locks))"
proof -
  have dflt: "\<not> num_le (Fin DEFAULT_LOCK_TIMEOUT) (Fin 0)"
    by (simp add: num_le_def DEFAULT_LOCK_TIMEOUT_def)
  show ?thesis
    using assms dflt
    by (cases T') (simp_all add: acquireLock_def Let_def)
qed

text \<open>
  Claim C5 does not hold for every second call either: 5000 ms after a lock was taken
  for 1000 ms, a call with timeout 0 is refused by the timeout guard, and the stale
  entry stays in the table.
\<close>

theorem acquireLock_expired_counterexample:
  "acquireLock RND_A 0 0 (JStr ''r'') (JNum (Fin 1000)) [] =
     (Inr \<lparr>acquired = True, acq_lockId = Some ''00112233445566778899aabbccddeeff'', acq_error = None\<rparr>,
      [(''r'', \<lparr>lk_lockId = ''00112233445566778899aabbccddeeff'', lk_timestamp = 0, lk_timeout = Fin 1000\<rparr>)])
   \<and> acquireLock RND_B 5000 5000 (JStr ''r'') (JNum (Fin 0))
        [(''r'', \<lparr>lk_lockId = ''00112233445566778899aabbccddeeff'', lk_timestamp = 0, lk_timeout = Fin 1000\<rparr>)] =
     (Inr \<lparr>acquired = False, acq_lockId = None, acq_error = Some InvalidTimeout\<rparr>,
      [(''r'', \<lparr>lk_lockId = ''00112233445566778899aabbccddeeff'', lk_timestamp = 0, lk_timeout = Fin 1000\<rparr>)])"
  by (simp add: acquireLock_def Let_def num_le_def math_min_def trim_def is_ws_def
      generateLockId_def to_hex_def hex_byte_def hex_digit_def RND_A_def RND_B_def)

text \<open>
  Claim C5, amended. After a successful \<open>acquireLock(R, T)\<close> with a positive timeout
  \<open>T\<close>, once at least \<open>T\<close> has elapsed since the acquisition, every
  \<open>acquireLock(R, T')\<close> whose \<open>T'\<close> passes the timeout guard succeeds with no
  release in between: within that call the stale entry is deleted and a new entry is
  stored, with the token made from the call's own random bytes, the call's clock
  reading and the timeout \<open>min(T', 600000)\<close>.
\<close>

theorem acquireLock_expired:
  assumes "acquireLock rnd n1 n2 R (JNum T) locks0 = (Inr r1, locks1)" and "acquired r1"
    and "num_lt (Fin 0) T"
    and "num_le T (Fin (of_int (now - n2)))"
    and "timeout_accepted T'"
  shows "\<exists>Rs t'.
           R = JStr Rs
           \<and> (if T' = JUndefined then t' = Fin DEFAULT_LOCK_TIMEOUT else T' = JNum t')
           \<and> acquireLock rnd' now now' R T' locks1 =
               (Inr \<lparr>acquired = True, acq_lockId = Some (generateLockId rnd'), acq_error = None\<rparr>,
                AList.update (trim Rs)
                  \<lparr>lk_lockId = generateLockId rnd', lk_timestamp = now',
                    lk_timeout = math_min t' (Fin 600000)\<rparr>
                  (AList.delete (trim Rs) locks1))
           \<and> map_of (snd (acquireLock rnd' now now' R T' locks1)) (trim Rs) =
               Some \<lparr>lk_lockId = generateLockId rnd', lk_timestamp = now',
                     lk_timeout = math_min t' (Fin 600000)\<rparr>"
proof -
  from acquireLock_granted [OF assms(1,2)] obtain Rs where
    R: "R = JStr Rs" and ne: "Rs \<noteq> []" and
    e: "map_of locks1 (trim Rs) =
          Some \<lparr>lk_lockId = generateLockId rnd, lk_timestamp = n2,
                lk_timeout = math_min T (Fin 600000)\<rparr>"
    by auto
  let ?e = "\<lparr>lk_lockId = generateLockId rnd, lk_timestamp = n2,
             lk_timeout = math_min T (Fin 600000)\<rparr>"
  have stale: "num_ge (Fin (of_int (now - lk_timestamp ?e))) (lk_timeout ?e)"
    using min_le_elapsed [OF assms(3,4)] by simp
  from acquireLock_stale [OF e ne stale assms(5), of rnd' now'] obtain t' where
    t': "if T' = JUndefined then t' = Fin DEFAULT_LOCK_TIMEOUT else T' = JNum t'" and
    call: "acquireLock rnd' now now' (JStr Rs) T' locks1 =
           (Inr \<lparr>acquired = True, acq_lockId = Some (generateLockId rnd'), acq_error = None\<rparr>,
            AList.update (trim Rs)
              \<lparr>lk_lockId = generateLockId rnd', lk_timestamp = now',
                lk_timeout = math_min t' (Fin 600000)\<rparr>
              (AList.delete (trim Rs) locks1))"
    by blast
  from call have "map_of (snd (acquireLock rnd' now now' (JStr Rs) T' locks1)) (trim Rs) =
               Some \<lparr>lk_lockId = generateLockId rnd', lk_timestamp = now',
                     lk_timeout = math_min t' (Fin 600000)\<rparr>"
    by (simp add: update_conv')
  with R t' call show ?thesis by blast
qed

theorem acquireLock_expired_witness:
  "acquireLock RND_B 1000 1001 (JStr ''r'') JUndefined
      [(''r'', \<lparr>lk_lockId = ''00112233445566778899aabbccddeeff'', lk_timestamp = 0, lk_timeout = Fin 1000\<rparr>)] =
     (Inr \<lparr>acquired = True, acq_lockId = Some ''ffeeddccbbaa99887766554433221100'', acq_error = None\<rparr>,
      [(''r'', \<lparr>lk_lockId = ''ffeeddccbbaa99887766554433221100'', lk_timestamp = 1001, lk_timeout = Fin 30000\<rparr>)])"
proof -
  let ?l1 = "[(''r'', \<lparr>lk_lockId = ''00112233445566778899aabbccddeeff'', lk_timestamp = 0, lk_timeout = Fin 1000\<rparr>)]"
  have first: "acquireLock RND_A 0 0 (JStr ''r'') (JNum (Fin 1000)) [] =
     (Inr \<lparr>acquired = True, acq_lockId = Some ''00112233445566778899aabbccddeeff'', acq_error = None\<rparr>, ?l1)"
    by (simp add: acquireLock_def Let_def num_le_def math_min_def trim_def is_ws_def
      generateLockId_def to_hex_def hex_byte_def hex_digit_def RND_A_def RND_B_def)
  have acq: "acquired \<lparr>acquired = True, acq_lockId = Some ''00112233445566778899aabbccddeeff'', acq_error = None\<rparr>" by simp
  have pos: "num_lt (Fin 0) (Fin 1000)" by simp
  have gone: "num_le (Fin 1000) (Fin (of_int (1000 - 0)))" by (simp add: num_le_def)
  have ok: "timeout_accepted JUndefined" by simp
  have id: "generateLockId RND_B = ''ffeeddccbbaa99887766554433221100''"
    by (simp add: generateLockId_def to_hex_def hex_byte_def hex_digit_def RND_A_def RND_B_def)
  from acquireLock_expired [OF first acq pos gone ok, of "RND_B" 1001]
  show ?thesis
    by (simp add: id trim_def is_ws_def math_min_def DEFAULT_LOCK_TIMEOUT_def AList.delete_eq)
qed


section \<open>Properties of progress updates\<close>

lemma progress_rejected_result:
  "progress_rejected progress \<Longrightarrow>
     \<exists>r. updateOperationProgress now operationId progress statusData ops = (Inr r, ops)
         \<and> \<not> updated r \<and> upd_error r \<noteq> None"
  apply (cases progress)
         apply (simp_all add: updateOperationProgress_def Let_def)
  subgoal for n by (cases n) (auto simp: num_gt_def)
  done

lemma update_partial:
  assumes "map_of ops (trim s) = Some operation" and "s \<noteq> []"
    and "op_status operation = QUEUED" and "0 < x" and "x < 100" and "statusData \<noteq> JNull"
  shows "\<exists>operation'.
           updateOperationProgress now (JStr s) (JNum (Fin x)) statusData ops =
             (Inr \<lparr>updated = True, upd_error = None\<rparr>, AList.update (trim s) operation' ops)
           \<and> op_status operation' = IN_PROGRESS \<and> op_progress operation' = Fin x"
  using assms
  by (cases statusData)
     (auto simp: updateOperationProgress_def Let_def num_gt_def set_completed_steps_def move_to_in_progress_def split: jsval.splits option.splits)

lemma update_complete:
  assumes "map_of ops (trim s) = Some operation" and "s \<noteq> []"
    and "op_status operation = QUEUED \<or> op_status operation = IN_PROGRESS"
    and "statusData \<noteq> JNull"
  shows "\<exists>operation' result.
           updateOperationProgress now (JStr s) (JNum (Fin 100)) statusData ops =
             (Inr \<lparr>updated = True, upd_error = None\<rparr>, AList.update (trim s) operation' ops)
           \<and> op_status operation' = COMPLETED \<and> op_progress operation' = Fin 100
           \<and> op_completedAt operation' = Some now
           \<and> get_prop (if statusData = JUndefined then JObj [] else statusData) ''result'' = Inr result
           \<and> op_result operation' = (if truthy result then result else JObj [])"
  using assms
  by (cases statusData)
     (auto simp: updateOperationProgress_def Let_def num_gt_def set_completed_steps_def move_to_in_progress_def split: jsval.splits option.splits)


text \<open>
  Claim C6 does not hold for every percent above zero: the two state tests of
  \<open>updateOperationProgress\<close> run one after the other, so an update to exactly 100 on
  a queued operation passes through \<open>in_progress\<close> and leaves the operation
  \<open>completed\<close>, with \<open>completedAt\<close> stamped and the result set.
\<close>

theorem updateOperationProgress_queued_100_counterexample:
  "op_status sample_operation = QUEUED
   \<and> updateOperationProgress 5 (JStr ''op1'') (JNum (Fin 100)) JUndefined
        [(''op1'', sample_operation)] =
       (Inr \<lparr>updated = True, upd_error = None\<rparr>,
        [(''op1'', sample_operation\<lparr>op_status := COMPLETED, op_progress := Fin 100,
                     op_completedAt := Some 5, op_result := JObj []\<rparr>)])"
  by (simp add: updateOperationProgress_def sample_operation_def Let_def num_gt_def
      trim_def is_ws_def set_completed_steps_def move_to_in_progress_def)

text \<open>
  Claim C6, amended. For a call whose trimmed \<open>operationId\<close> names a tracked
  operation and whose \<open>statusData\<close> is not \<open>null\<close>: a percent strictly between 0
  and 100 on a queued operation moves it to \<open>in_progress\<close>; percent exactly 100 on
  a queued or an in-progress operation moves it to \<open>completed\<close>, stamps
  \<open>completedAt\<close> and sets \<open>result\<close> to \<open>statusData.result\<close>, or to an empty
  object when that is falsy. A call whose percent is not a number, or is a number
  below 0 or above 100 (the infinities included), fails and leaves the table as it was.
  Nothing is said about the percent NaN.
\<close>

theorem updateOperationProgress_transitions:
  assumes "map_of ops (trim s) = Some operation" and "s \<noteq> []"
  shows "(op_status operation = QUEUED \<and> 0 < x \<and> x < 100 \<and> statusData \<noteq> JNull \<longrightarrow>
            (\<exists>operation'.
               updateOperationProgress now (JStr s) (JNum (Fin x)) statusData ops =
                 (Inr \<lparr>updated = True, upd_error = None\<rparr>, AList.update (trim s) operation' ops)
               \<and> op_status operation' = IN_PROGRESS \<and> op_progress operation' = Fin x))
       \<and> ((op_status operation = QUEUED \<or> op_status operation = IN_PROGRESS)
            \<and> statusData \<noteq> JNull \<longrightarrow>
            (\<exists>operation' result.
               updateOperationProgress now (JStr s) (JNum (Fin 100)) statusData ops =
                 (Inr \<lparr>updated = True, upd_error = None\<rparr>, AList.update (trim s) operation' ops)
               \<and> op_status operation' = COMPLETED \<and> op_progress operation' = Fin 100
               \<and> op_completedAt operation' = Some now
               \<and> get_prop (if statusData = JUndefined then JObj [] else statusData) ''result''
                   = Inr result
               \<and> op_result operation' = (if truthy result then result else JObj [])))
       \<and> (progress_rejected progress \<longrightarrow>
            (\<exists>r. updateOperationProgress now operationId progress statusData ops = (Inr r, ops)
                 \<and> \<not> updated r \<and> upd_error r \<noteq> None))"
  using update_partial [OF assms] update_complete [OF assms] progress_rejected_result
  by blast

theorem updateOperationProgress_transitions_witness:
  "(\<exists>operation'.
      updateOperationProgress 5 (JStr ''op1'') (JNum (Fin 50)) (JObj [(''completedSteps'', JNum (Fin 1))])
        [(''op1'', sample_operation)] =
        (Inr \<lparr>updated = True, upd_error = None\<rparr>, [(''op1'', operation')])
      \<and> op_status operation' = IN_PROGRESS \<and> op_progress operation' = Fin 50)
   \<and> (\<exists>operation'.
      updateOperationProgress 9 (JStr ''op1'') (JNum (Fin 100))
        (JObj [(''result'', JObj [(''ok'', JBool True)])])
        [(''op1'', sample_operation\<lparr>op_status := IN_PROGRESS\<rparr>)] =
        (Inr \<lparr>updated = True, upd_error = None\<rparr>, [(''op1'', operation')])
      \<and> op_status operation' = COMPLETED \<and> op_completedAt operation' = Some 9
      \<and> op_result operation' = JObj [(''ok'', JBool True)])
   \<and> (\<exists>r. updateOperationProgress 5 (JStr ''op1'') (JStr ''fifty'') JUndefined
              [(''op1'', sample_operation)] = (Inr r, [(''op1'', sample_operation)])
          \<and> \<not> updated r \<and> upd_error r \<noteq> None)
   \<and> (\<exists>r. updateOperationProgress 5 (JStr ''op1'') (JNum (Fin 101)) JUndefined
              [(''op1'', sample_operation)] = (Inr r, [(''op1'', sample_operation)])
          \<and> \<not> updated r \<and> upd_error r \<noteq> None)"
proof -
  have tr: "trim ''op1'' = ''op1''" by (simp add: trim_def is_ws_def)
  have m1: "map_of [(''op1'', sample_operation)] (trim ''op1'') = Some sample_operation"
    by (simp add: tr)
  have m2: "map_of [(''op1'', sample_operation\<lparr>op_status := IN_PROGRESS\<rparr>)] (trim ''op1'') =
              Some (sample_operation\<lparr>op_status := IN_PROGRESS\<rparr>)"
    by (simp add: tr)
  have ne: "''op1'' \<noteq> []" by simp
  have q: "op_status sample_operation = QUEUED" by (simp add: sample_operation_def)
  have p: "op_status (sample_operation\<lparr>op_status := IN_PROGRESS\<rparr>) = IN_PROGRESS" by simp
  have r1: "progress_rejected (JStr ''fifty'')" and r2: "progress_rejected (JNum (Fin 101))"
    by simp_all
  from updateOperationProgress_transitions [OF m1 ne, of 50
      "JObj [(''completedSteps'', JNum (Fin 1))]" 5 "JStr ''fifty''" "JStr ''op1''"] q
  have a: "\<exists>operation'.
      updateOperationProgress 5 (JStr ''op1'') (JNum (Fin 50)) (JObj [(''completedSteps'', JNum (Fin 1))])
        [(''op1'', sample_operation)] =
        (Inr \<lparr>updated = True, upd_error = None\<rparr>, [(''op1'', operation')])
      \<and> op_status operation' = IN_PROGRESS \<and> op_progress operation' = Fin 50"
    by (simp add: tr)
  from updateOperationProgress_transitions [OF m2 ne, of 50
      "JObj [(''result'', JObj [(''ok'', JBool True)])]" 9 "JStr ''fifty''" "JStr ''op1''"] p
  have b: "\<exists>operation'.
      updateOperationProgress 9 (JStr ''op1'') (JNum (Fin 100))
        (JObj [(''result'', JObj [(''ok'', JBool True)])])
        [(''op1'', sample_operation\<lparr>op_status := IN_PROGRESS\<rparr>)] =
        (Inr \<lparr>updated = True, upd_error = None\<rparr>, [(''op1'', operation')])
      \<and> op_status operation' = COMPLETED \<and> op_completedAt operation' = Some 9
      \<and> op_result operation' = JObj [(''ok'', JBool True)]"
    by (auto simp: tr)
  from updateOperationProgress_transitions [OF m1 ne, of 50 JUndefined 5 "JStr ''fifty''" "JStr ''op1''"] r1
  have c: "\<exists>r. updateOperationProgress 5 (JStr ''op1'') (JStr ''fifty'') JUndefined
              [(''op1'', sample_operation)] = (Inr r, [(''op1'', sample_operation)])
          \<and> \<not> updated r \<and> upd_error r \<noteq> None"
    by blast
  from updateOperationProgress_transitions [OF m1 ne, of 50 JUndefined 5 "JNum (Fin 101)" "JStr ''op1''"] r2
  have d: "\<exists>r. updateOperationProgress 5 (JStr ''op1'') (JNum (Fin 101)) JUndefined
              [(''op1'', sample_operation)] = (Inr r, [(''op1'', sample_operation)])
          \<and> \<not> updated r \<and> upd_error r \<noteq> None"
    by blast
  from a b c d show ?thesis by blast
qed


section \<open>Properties of the terminal operation states\<close>

lemma terminal_cases: "terminal st \<Longrightarrow> st \<noteq> QUEUED \<and> st \<noteq> IN_PROGRESS"
  by (cases st) simp_all

lemma status_set_completed_steps [simp]:
  "op_status (set_completed_steps c operation) = op_status operation"
  by (cases c) (simp_all add: set_completed_steps_def)

lemma progress_set_completed_steps [simp]:
  "op_progress (set_completed_steps c operation) = op_progress operation"
  by (cases c) (simp_all add: set_completed_steps_def)

lemma status_move_to_in_progress:
  "op_status (move_to_in_progress p operation) =
     (if op_status operation = QUEUED \<and> num_gt p (Fin 0) then IN_PROGRESS else op_status operation)"
  by (simp add: move_to_in_progress_def)

lemma progress_move_to_in_progress [simp]:
  "op_progress (move_to_in_progress p operation) = op_progress operation"
  by (simp add: move_to_in_progress_def)

text \<open>The table after a call: untouched, or one record replaced under its own key.\<close>

lemma shapeI:
  assumes "map_of ops k0 = Some o0" and "ops' = AList.update k0 o' ops"
    and "op_status o' = op_status o0 \<or> op_status o0 = QUEUED \<or> op_status o0 = IN_PROGRESS"
  shows "ops' = ops
   \<or> (\<exists>opId operation0 operation'.
         map_of ops opId = Some operation0 \<and> ops' = AList.update opId operation' ops
         \<and> (op_status operation' = op_status operation0
            \<or> op_status operation0 = QUEUED \<or> op_status operation0 = IN_PROGRESS))"
  using assms by blast

lemma update_shape:
  "snd (updateOperationProgress now operationId progress statusData ops) = ops
   \<or> (\<exists>opId operation0 operation'.
         map_of ops opId = Some operation0
         \<and> snd (updateOperationProgress now operationId progress statusData ops) =
             AList.update opId operation' ops
         \<and> (op_status operation' = op_status operation0
            \<or> op_status operation0 = QUEUED \<or> op_status operation0 = IN_PROGRESS))"
  (is "?post = ops \<or> ?changed")
proof (cases operationId)
  case (JStr s)
  show ?thesis
  proof (cases progress)
    case (JNum p)
    show ?thesis
    proof (cases "s = [] \<or> num_lt p (Fin 0) \<or> num_gt p (Fin 100)")
      case True
      then show ?thesis using JStr JNum by (auto simp: updateOperationProgress_def Let_def)
    next
      case valid: False
      show ?thesis
      proof (cases "map_of ops (trim s)")
        case None
        then show ?thesis using JStr JNum by (simp add: updateOperationProgress_def Let_def)
      next
        case (Some operation0)
        let ?sd = "if statusData = JUndefined then JObj [] else statusData"
        show ?thesis
        proof (cases "get_prop ?sd ''completedSteps''")
          case (Inl e)
          with JStr JNum Some valid
          have "?post = AList.update (trim s) (operation0\<lparr>op_progress := p\<rparr>) ops"
            by (simp add: updateOperationProgress_def Let_def)
          from shapeI [OF Some this] show ?thesis by simp
        next
          case (Inr c)
          define o3 where
            "o3 = move_to_in_progress p (set_completed_steps c (operation0\<lparr>op_progress := p\<rparr>))"
          have st3: "op_status o3 = op_status operation0 \<or> op_status operation0 = QUEUED"
            by (simp add: o3_def status_move_to_in_progress)
          show ?thesis
          proof (cases "p = Fin 100 \<and> op_status o3 = IN_PROGRESS")
            case False
            with JStr JNum Some valid Inr
            have "?post = AList.update (trim s) o3 ops"
              by (auto simp: updateOperationProgress_def Let_def o3_def)
            from shapeI [OF Some this] st3 show ?thesis by blast
          next
            case True
            with st3 have "op_status operation0 = QUEUED \<or> op_status operation0 = IN_PROGRESS"
              by auto
            moreover from True JStr JNum Some valid Inr
            have "\<exists>o'. ?post = AList.update (trim s) o' ops"
              by (cases "get_prop ?sd ''result''")
                 (auto simp: updateOperationProgress_def Let_def o3_def)
            ultimately show ?thesis using Some by blast
          qed
        qed
      qed
    qed
  qed (simp_all add: updateOperationProgress_def Let_def JStr)
qed (simp_all add: updateOperationProgress_def Let_def)

lemma keeps_terminal_from_shape:
  assumes "map_of ops k = Some operation" and "terminal (op_status operation)"
    and "ops' = ops
      \<or> (\<exists>opId operation0 operation'.
            map_of ops opId = Some operation0 \<and> ops' = AList.update opId operation' ops
            \<and> (op_status operation' = op_status operation0
               \<or> op_status operation0 = QUEUED \<or> op_status operation0 = IN_PROGRESS))"
  shows "\<exists>operation'. map_of ops' k = Some operation' \<and> op_status operation' = op_status operation"
  using assms terminal_cases [OF assms(2)]
  by (auto simp: update_conv')

lemma update_keeps_terminal:
  assumes "map_of ops k = Some operation" and "terminal (op_status operation)"
  shows "\<exists>operation'.
           map_of (snd (updateOperationProgress now operationId progress statusData ops)) k =
             Some operation'
           \<and> op_status operation' = op_status operation"
  by (rule keeps_terminal_from_shape [OF assms update_shape])

lemma status_shape:
  "snd (getOperationStatus n1 n2 n3 operationId ops) = ops
   \<or> (\<exists>opId operation0 operation'.
         map_of ops opId = Some operation0
         \<and> snd (getOperationStatus n1 n2 n3 operationId ops) = AList.update opId operation' ops
         \<and> (op_status operation' = op_status operation0
            \<or> op_status operation0 = QUEUED \<or> op_status operation0 = IN_PROGRESS))"
proof (cases operationId)
  case (JStr s)
  show ?thesis
  proof (cases "map_of ops (trim s)")
    case None
    then show ?thesis using JStr by (simp add: getOperationStatus_def Let_def)
  next
    case (Some operation0)
    show ?thesis
    proof (cases "s \<noteq> [] \<and> op_status operation0 = IN_PROGRESS
                  \<and> n1 - op_startedAt operation0 > op_timeout operation0")
      case True
      with JStr Some have "\<exists>o'. snd (getOperationStatus n1 n2 n3 operationId ops) =
          AList.update (trim s) o' ops"
        by (auto simp: getOperationStatus_def Let_def)
      with True Some show ?thesis by blast
    next
      case False
      with JStr Some have "snd (getOperationStatus n1 n2 n3 operationId ops) = ops
        \<or> snd (getOperationStatus n1 n2 n3 operationId ops) =
            AList.update (trim s) operation0 ops"
        by (auto simp: getOperationStatus_def Let_def)
      with Some show ?thesis by blast
    qed
  qed
qed (simp_all add: getOperationStatus_def Let_def)

lemma status_keeps_terminal:
  assumes "map_of ops k = Some operation" and "terminal (op_status operation)"
  shows "\<exists>operation'.
           map_of (snd (getOperationStatus n1 n2 n3 operationId ops)) k = Some operation'
           \<and> op_status operation' = op_status operation"
  by (rule keeps_terminal_from_shape [OF assms status_shape])

lemma fail_shape:
  "snd (failOperation now operationId errorMessage ops) = ops
   \<or> (\<exists>opId operation0 operation'.
         map_of ops opId = Some operation0
         \<and> snd (failOperation now operationId errorMessage ops) = AList.update opId operation' ops
         \<and> op_status operation' = FAILED)"
proof (cases operationId)
  case (JStr s)
  show ?thesis
  proof (cases "map_of ops (trim s)")
    case None
    then show ?thesis using JStr by (simp add: failOperation_def Let_def)
  next
    case (Some operation0)
    with JStr have "snd (failOperation now operationId errorMessage ops) =
        AList.update (trim s) (operation0\<lparr>op_status := FAILED,
                                 op_error := (if truthy errorMessage then errorMessage
                                              else JStr MSG_OPERATION_FAILED),
                                 op_completedAt := Some now\<rparr>) ops
      \<or> snd (failOperation now operationId errorMessage ops) = ops"
      by (simp add: failOperation_def Let_def)
    with Some show ?thesis by force
  qed
qed (simp_all add: failOperation_def Let_def)

lemma fail_terminal:
  assumes "map_of ops k = Some operation"
  shows "\<exists>operation'.
           map_of (snd (failOperation now operationId errorMessage ops)) k = Some operation'
           \<and> (op_status operation' = op_status operation \<or> op_status operation' = FAILED)"
  using assms fail_shape [of now operationId errorMessage ops]
  by (auto simp: update_conv')

lemma fail_named:
  assumes "map_of ops (trim s) = Some operation" and "s \<noteq> []"
  shows "\<exists>operation'.
           failOperation now (JStr s) errorMessage ops =
             (Inr \<lparr>updated = True, upd_error = None\<rparr>, AList.update (trim s) operation' ops)
           \<and> op_status operation' = FAILED \<and> op_completedAt operation' = Some now"
  using assms
  by (auto simp: failOperation_def Let_def)


text \<open>
  Claim C8 does not hold for \<open>failOperation\<close>, which sets the state to \<open>failed\<close>
  whatever it was: a completed operation becomes failed.
\<close>

theorem failOperation_reopens_completed_counterexample:
  "terminal (op_status (sample_operation\<lparr>op_status := COMPLETED\<rparr>))
   \<and> failOperation 7 (JStr ''op1'') (JStr ''late failure'')
        [(''op1'', sample_operation\<lparr>op_status := COMPLETED\<rparr>)] =
       (Inr \<lparr>updated = True, upd_error = None\<rparr>,
        [(''op1'', sample_operation\<lparr>op_status := FAILED, op_error := JStr ''late failure'',
                     op_completedAt := Some 7\<rparr>)])"
  by (simp add: failOperation_def sample_operation_def trim_def is_ws_def)

text \<open>
  Claim C8, amended. For an operation in the state \<open>completed\<close>, \<open>failed\<close> or
  \<open>cancelled\<close>: no call of \<open>updateOperationProgress\<close> and no call of
  \<open>getOperationStatus\<close>, whatever its arguments, changes the state; a call of
  \<open>failOperation\<close> leaves the state as it was or makes it \<open>failed\<close>, and makes it
  \<open>failed\<close> when it names the operation.
\<close>

theorem terminal_states_kept:
  assumes "map_of ops k = Some operation" and "terminal (op_status operation)"
  shows "(\<exists>operation'.
            map_of (snd (updateOperationProgress now operationId progress statusData ops)) k =
              Some operation'
            \<and> op_status operation' = op_status operation)
       \<and> (\<exists>operation'.
            map_of (snd (getOperationStatus n1 n2 n3 operationId ops)) k = Some operation'
            \<and> op_status operation' = op_status operation)
       \<and> (\<exists>operation'.
            map_of (snd (failOperation now operationId errorMessage ops)) k = Some operation'
            \<and> (op_status operation' = op_status operation \<or> op_status operation' = FAILED))
       \<and> (s \<noteq> [] \<and> trim s = k \<longrightarrow>
            (\<exists>operation'.
               failOperation now (JStr s) errorMessage ops =
                 (Inr \<lparr>updated = True, upd_error = None\<rparr>, AList.update k operation' ops)
               \<and> op_status operation' = FAILED))"
proof (intro conjI impI)
  show "\<exists>operation'.
            map_of (snd (updateOperationProgress now operationId progress statusData ops)) k =
              Some operation'
            \<and> op_status operation' = op_status operation"
    by (rule update_keeps_terminal [OF assms])
  show "\<exists>operation'.
            map_of (snd (getOperationStatus n1 n2 n3 operationId ops)) k = Some operation'
            \<and> op_status operation' = op_status operation"
    by (rule status_keeps_terminal [OF assms])
  show "\<exists>operation'.
            map_of (snd (failOperation now operationId errorMessage ops)) k = Some operation'
            \<and> (op_status operation' = op_status operation \<or> op_status operation' = FAILED)"
    by (rule fail_terminal [OF assms(1)])
  show "\<exists>operation'.
               failOperation now (JStr s) errorMessage ops =
                 (Inr \<lparr>updated = True, upd_error = None\<rparr>, AList.update k operation' ops)
               \<and> op_status operation' = FAILED"
    if "s \<noteq> [] \<and> trim s = k"
    using that fail_named [of ops s operation now errorMessage] assms(1) by auto
qed

theorem terminal_states_kept_witness:
  "map_option op_status
     (map_of (snd (updateOperationProgress 8 (JStr ''op1'') (JNum (Fin 100)) JUndefined
                     [(''op1'', sample_operation\<lparr>op_status := CANCELLED\<rparr>)])) ''op1'')
     = Some CANCELLED
   \<and> map_option op_status
     (map_of (snd (getOperationStatus 99999999 99999999 99999999 (JStr ''op1'')
                     [(''op1'', sample_operation\<lparr>op_status := COMPLETED\<rparr>)])) ''op1'')
     = Some COMPLETED
   \<and> map_option op_status
     (map_of (snd (failOperation 8 (JStr ''op1'') JNull
                     [(''op1'', sample_operation\<lparr>op_status := FAILED\<rparr>)])) ''op1'')
     = Some FAILED"
proof -
  have m: "\<And>st. map_of [(''op1'', sample_operation\<lparr>op_status := st\<rparr>)] ''op1'' =
             Some (sample_operation\<lparr>op_status := st\<rparr>)"
    by simp
  have t1: "terminal (op_status (sample_operation\<lparr>op_status := CANCELLED\<rparr>))"
    and t2: "terminal (op_status (sample_operation\<lparr>op_status := COMPLETED\<rparr>))"
    and t3: "terminal (op_status (sample_operation\<lparr>op_status := FAILED\<rparr>))"
    by simp_all
  from terminal_states_kept [OF m t1, of 8 "JStr ''op1''" "JNum (Fin 100)" JUndefined]
  have a: "map_option op_status
     (map_of (snd (updateOperationProgress 8 (JStr ''op1'') (JNum (Fin 100)) JUndefined
                     [(''op1'', sample_operation\<lparr>op_status := CANCELLED\<rparr>)])) ''op1'')
     = Some CANCELLED"
    by auto
  from terminal_states_kept [OF m t2, of 8 "JStr ''op1''" "JNum (Fin 100)" JUndefined
      99999999 99999999 99999999]
  have b: "map_option op_status
     (map_of (snd (getOperationStatus 99999999 99999999 99999999 (JStr ''op1'')
                     [(''op1'', sample_operation\<lparr>op_status := COMPLETED\<rparr>)])) ''op1'')
     = Some COMPLETED"
    by auto
  from terminal_states_kept [OF m t3, of 8 "JStr ''op1''" "JNum (Fin 100)" JUndefined
      0 0 0 JNull]
  have c: "map_option op_status
     (map_of (snd (failOperation 8 (JStr ''op1'') JNull
                     [(''op1'', sample_operation\<lparr>op_status := FAILED\<rparr>)])) ''op1'')
     = Some FAILED"
    by auto
  from a b c show ?thesis by blast
qed


section \<open>Properties of the JSON round trip\<close>

lemma those_map_SomeD:
  "those (map f xs) = Some ys \<Longrightarrow> x \<in> set xs \<Longrightarrow> \<exists>y. f x = Some y"
  by (induction xs arbitrary: ys) (auto split: option.splits)

lemma those_map_cong_Some:
  "those (map f xs) = Some ys \<Longrightarrow> (\<And>x y. x \<in> set xs \<Longrightarrow> f x = Some y \<Longrightarrow> f' x = Some y)
     \<Longrightarrow> those (map f' xs) = Some ys"
proof (induction xs arbitrary: ys)
  case Nil
  then show ?case by simp
next
  case (Cons x xs)
  from Cons.prems(1) obtain y zs where y: "f x = Some y" and zs: "those (map f xs) = Some zs"
    and ys: "ys = y # zs"
    by (auto split: option.splits)
  from Cons.prems(2) [of x y] y have "f' x = Some y" by simp
  moreover from Cons.IH [OF zs] Cons.prems(2) have "those (map f' xs) = Some zs" by simp
  ultimately show ?case using ys by simp
qed

lemma snapshot_frame:
  "snapshot h stk v = Some t \<Longrightarrow> length h \<le> length h' \<Longrightarrow> (\<forall>i<length h. h' ! i = h ! i)
     \<Longrightarrow> snapshot h' stk v = Some t"
proof (induction h stk v arbitrary: t rule: snapshot.induct)
  case (7 h stk a)
  from "7.prems"(1) have a: "a \<notin> set stk" "a < length h"
    by (auto split: if_splits)
  with "7.prems" have cell: "h' ! a = h ! a" and a': "a < length h'" by auto
  show ?case
  proof (cases "h ! a")
    case (HObject ps)
    with "7.prems"(1) a obtain ts where
      ts: "those (map (\<lambda>p. map_option (Pair (fst p)) (snapshot h (a # stk) (snd p))) ps) = Some ts"
      and t: "t = JObj ts"
      by auto
    have "those (map (\<lambda>p. map_option (Pair (fst p)) (snapshot h' (a # stk) (snd p))) ps) = Some ts"
    proof (rule those_map_cong_Some [OF ts])
      fix p y
      assume p: "p \<in> set ps"
        and y: "map_option (Pair (fst p)) (snapshot h (a # stk) (snd p)) = Some y"
      then obtain u where u: "snapshot h (a # stk) (snd p) = Some u" and yu: "y = (fst p, u)"
        by auto
      from "7.IH"(1) [OF _ HObject p u "7.prems"(2,3)] a
      have "snapshot h' (a # stk) (snd p) = Some u" by simp
      with yu show "map_option (Pair (fst p)) (snapshot h' (a # stk) (snd p)) = Some y" by simp
    qed
    with a a' cell HObject t show ?thesis by simp
  next
    case (HArray vs)
    with "7.prems"(1) a obtain ts where
      ts: "those (map (snapshot h (a # stk)) vs) = Some ts" and t: "t = JArr ts"
      by auto
    have "those (map (snapshot h' (a # stk)) vs) = Some ts"
    proof (rule those_map_cong_Some [OF ts])
      fix x y
      assume x: "x \<in> set vs" and y: "snapshot h (a # stk) x = Some y"
      from "7.IH"(2) [OF _ HArray x y "7.prems"(2,3)] a
      show "snapshot h' (a # stk) x = Some y" by simp
    qed
    with a a' cell HArray t show ?thesis by simp
  qed
qed simp_all

lemma to_json_json_value: "to_json (json_value j) = Some j"
proof (induction j)
  case (JsArr js)
  then have "map (\<lambda>v. case to_json v of None \<Rightarrow> JsNull | Some j \<Rightarrow> j) (map json_value js) = js"
    by (induction js) simp_all
  then show ?case by simp
next
  case (JsObj ps)
  then have "concat (map (\<lambda>p. case to_json (snd p) of None \<Rightarrow> [] | Some j \<Rightarrow> [(fst p, j)])
               (map (\<lambda>p. (fst p, json_value (snd p))) ps)) = ps"
    by (induction ps) (auto simp: snds.simps)
  then show ?case by simp
qed simp_all

lemma plain_data_json:
  "plain_data t \<Longrightarrow> \<exists>j. to_json t = Some j \<and> json_value j = t"
proof (induction t rule: plain_data.induct)
  case (5 vs)
  then have "\<forall>v \<in> set vs. \<exists>j. to_json v = Some j \<and> json_value j = v"
    by (auto simp: list_all_iff)
  then have "map json_value (map (\<lambda>v. case to_json v of None \<Rightarrow> JsNull | Some j \<Rightarrow> j) vs) = vs"
    by (induction vs) auto
  then show ?case by (intro exI [of _ "JsArr (map (\<lambda>v. case to_json v of None \<Rightarrow> JsNull | Some j \<Rightarrow> j) vs)"]) simp
next
  case (6 ps)
  then have "\<forall>p \<in> set ps. \<exists>j. to_json (snd p) = Some j \<and> json_value j = snd p"
    by (auto simp: list_all_iff)
  then have "map (\<lambda>p. (fst p, json_value (snd p)))
               (concat (map (\<lambda>p. case to_json (snd p) of None \<Rightarrow> [] | Some j \<Rightarrow> [(fst p, j)]) ps)) = ps"
    by (induction ps) auto
  then show ?case
    by (intro exI [of _ "JsObj (concat (map (\<lambda>p. case to_json (snd p) of None \<Rightarrow> [] | Some j \<Rightarrow> [(fst p, j)]) ps))"]) simp
qed simp_all

lemma parse_extends:
  "\<exists>cs. snd (JSON_parse j h) = h @ cs"
  "\<exists>cs. snd (parse_elements js h) = h @ cs"
  "\<exists>cs. snd (parse_members ps h) = h @ cs"
proof (induction j h and js h and ps h rule: JSON_parse_parse_elements_parse_members.induct)
  case (5 js h)
  then show ?case by (auto simp: split_beta)
next
  case (6 ps h)
  then show ?case by (auto simp: split_beta)
next
  case (8 j js h)
  from "8.IH"(1) obtain cs where cs: "snd (JSON_parse j h) = h @ cs" by blast
  from "8.IH"(2) [OF refl prod.collapse]
  obtain ds where "snd (parse_elements js (snd (JSON_parse j h))) = snd (JSON_parse j h) @ ds"
    by blast
  with cs show ?case by (simp add: split_beta)
next
  case (10 p ps h)
  from "10.IH"(1) obtain cs where cs: "snd (JSON_parse (snd p) h) = h @ cs" by blast
  from "10.IH"(2) [OF refl prod.collapse]
  obtain ds where
    "snd (parse_members ps (snd (JSON_parse (snd p) h))) = snd (JSON_parse (snd p) h) @ ds"
    by blast
  with cs show ?case by (simp add: split_beta)
qed simp_all

lemma parse_length:
  "length h \<le> length (snd (JSON_parse j h))"
  "length h \<le> length (snd (parse_elements js h))"
  "length h \<le> length (snd (parse_members ps h))"
  using parse_extends(1) [of j h] parse_extends(2) [of js h] parse_extends(3) [of ps h]
  by auto

lemma parse_keeps:
  "i < length h \<Longrightarrow> snd (JSON_parse j h) ! i = h ! i"
  "i < length h \<Longrightarrow> snd (parse_elements js h) ! i = h ! i"
  "i < length h \<Longrightarrow> snd (parse_members ps h) ! i = h ! i"
  using parse_extends(1) [of j h] parse_extends(2) [of js h] parse_extends(3) [of ps h]
  by (auto simp: nth_append)

lemma snapshot_parse:
  "agrees h'' (snd (JSON_parse j h)) (length h)
     \<Longrightarrow> (\<forall>s \<in> set stk. length (snd (JSON_parse j h)) \<le> s)
     \<Longrightarrow> snapshot h'' stk (fst (JSON_parse j h)) = Some (json_value j)"
  "agrees h'' (snd (parse_elements js h)) (length h)
     \<Longrightarrow> (\<forall>s \<in> set stk. length (snd (parse_elements js h)) \<le> s)
     \<Longrightarrow> those (map (snapshot h'' stk) (fst (parse_elements js h))) = Some (map json_value js)"
  "agrees h'' (snd (parse_members ps h)) (length h)
     \<Longrightarrow> (\<forall>s \<in> set stk. length (snd (parse_members ps h)) \<le> s)
     \<Longrightarrow> those (map (\<lambda>p. map_option (Pair (fst p)) (snapshot h'' stk (snd p)))
                 (fst (parse_members ps h)))
           = Some (map (\<lambda>p. (fst p, json_value (snd p))) ps)"
proof (induction j h and js h and ps h arbitrary: h'' stk and h'' stk and h'' stk
       rule: JSON_parse_parse_elements_parse_members.induct)
  case (5 js h)
  let ?r = "parse_elements js h"
  let ?a = "length (snd ?r)"
  from "5.prems" have len: "?a < length h''" and cell: "h'' ! ?a = HArray (fst ?r)"
    and fresh: "?a \<notin> set stk"
    using parse_length(2) [of h js]
    by (auto simp: agrees_def split_beta nth_append)
  have "agrees h'' (snd ?r) (length h)"
    using "5.prems"(1) by (auto simp: agrees_def split_beta nth_append)
  moreover have "\<forall>s \<in> set (?a # stk). ?a \<le> s"
    using "5.prems"(2) by (auto simp: split_beta)
  ultimately have "those (map (snapshot h'' (?a # stk)) (fst ?r)) = Some (map json_value js)"
    by (rule "5.IH")
  with len cell fresh show ?case by (simp add: split_beta)
next
  case (6 ps h)
  let ?r = "parse_members ps h"
  let ?a = "length (snd ?r)"
  from "6.prems" have len: "?a < length h''" and cell: "h'' ! ?a = HObject (fst ?r)"
    and fresh: "?a \<notin> set stk"
    using parse_length(3) [of h ps]
    by (auto simp: agrees_def split_beta nth_append)
  have "agrees h'' (snd ?r) (length h)"
    using "6.prems"(1) by (auto simp: agrees_def split_beta nth_append)
  moreover have "\<forall>s \<in> set (?a # stk). ?a \<le> s"
    using "6.prems"(2) by (auto simp: split_beta)
  ultimately have "those (map (\<lambda>p. map_option (Pair (fst p)) (snapshot h'' (?a # stk) (snd p)))
                 (fst ?r)) = Some (map (\<lambda>p. (fst p, json_value (snd p))) ps)"
    by (rule "6.IH")
  with len cell fresh show ?case by (simp add: split_beta)
next
  case (8 j js h)
  let ?h1 = "snd (JSON_parse j h)"
  let ?h2 = "snd (parse_elements js ?h1)"
  have h2: "snd (parse_elements (j # js) h) = ?h2" by (simp add: split_beta)
  have l1: "length h \<le> length ?h1" and l2: "length ?h1 \<le> length ?h2"
    by (rule parse_length)+
  from "8.prems" have p1: "agrees h'' ?h2 (length h)"
    and p2: "\<forall>s \<in> set stk. length ?h2 \<le> s"
    unfolding h2 by blast+
  have "agrees h'' ?h1 (length h)"
    using p1 l2 parse_keeps(2) [of _ ?h1 js]
    by (auto simp: agrees_def)
  moreover have "\<forall>s \<in> set stk. length ?h1 \<le> s"
    using p2 l2 by auto
  ultimately have a: "snapshot h'' stk (fst (JSON_parse j h)) = Some (json_value j)"
    by (rule "8.IH"(1))
  have "agrees h'' ?h2 (length ?h1)"
    using p1 l1 by (auto simp: agrees_def)
  moreover note p2
  ultimately have b: "those (map (snapshot h'' stk) (fst (parse_elements js ?h1)))
                      = Some (map json_value js)"
    by (rule "8.IH"(2) [OF refl prod.collapse])
  from a b show ?case by (simp add: split_beta)
next
  case (10 p ps h)
  let ?h1 = "snd (JSON_parse (snd p) h)"
  let ?h2 = "snd (parse_members ps ?h1)"
  have h2: "snd (parse_members (p # ps) h) = ?h2" by (simp add: split_beta)
  have l1: "length h \<le> length ?h1" and l2: "length ?h1 \<le> length ?h2"
    by (rule parse_length)+
  from "10.prems" have p1: "agrees h'' ?h2 (length h)"
    and p2: "\<forall>s \<in> set stk. length ?h2 \<le> s"
    unfolding h2 by blast+
  have "agrees h'' ?h1 (length h)"
    using p1 l2 parse_keeps(3) [of _ ?h1 ps]
    by (auto simp: agrees_def)
  moreover have "\<forall>s \<in> set stk. length ?h1 \<le> s"
    using p2 l2 by auto
  ultimately have a: "snapshot h'' stk (fst (JSON_parse (snd p) h)) = Some (json_value (snd p))"
    by (rule "10.IH"(1))
  have "agrees h'' ?h2 (length ?h1)"
    using p1 l1 by (auto simp: agrees_def)
  moreover note p2
  ultimately have b: "those (map (\<lambda>p. map_option (Pair (fst p)) (snapshot h'' stk (snd p)))
                 (fst (parse_members ps ?h1)))
           = Some (map (\<lambda>p. (fst p, json_value (snd p))) ps)"
    by (rule "10.IH"(2) [OF refl prod.collapse])
  from a b show ?case by (simp add: split_beta)
qed simp_all

lemma hex_digit_not_ws: "\<not> is_ws (hex_digit n)"
proof -
  have "n mod 16 < length ''0123456789abcdef''" by simp
  then have "hex_digit n \<in> set ''0123456789abcdef''"
    unfolding hex_digit_def by (rule nth_mem)
  then show ?thesis by (auto simp: is_ws_def)
qed

lemma to_hex_not_ws: "c \<in> set (to_hex bs) \<Longrightarrow> \<not> is_ws c"
  by (auto simp: to_hex_def hex_byte_def hex_digit_not_ws)

lemma trim_id:
  assumes "s \<noteq> []" and "\<not> is_ws (hd s)" and "\<not> is_ws (last s)"
  shows "trim s = s"
proof -
  from assms(1,2) have "dropWhile is_ws s = s" by (cases s) simp_all
  moreover from assms(1,3) have "dropWhile is_ws (rev s) = rev s"
    by (cases "rev s") (simp_all add: last_rev [symmetric] del: last_rev)
  ultimately show ?thesis by (simp add: trim_def)
qed

lemma trim_generateTransactionId [simp]:
  "trim (generateTransactionId rnd) = generateTransactionId rnd"
proof (rule trim_id)
  show "generateTransactionId rnd \<noteq> []" by (simp add: generateTransactionId_def)
  show "\<not> is_ws (hd (generateTransactionId rnd))"
    by (simp add: generateTransactionId_def is_ws_def)
  show "\<not> is_ws (last (generateTransactionId rnd))"
  proof (cases "to_hex rnd = []")
    case True
    then show ?thesis by (simp add: generateTransactionId_def is_ws_def)
  next
    case False
    then have "last (generateTransactionId rnd) = last (to_hex rnd)"
      by (simp add: generateTransactionId_def)
    with False to_hex_not_ws [of "last (to_hex rnd)" rnd] show ?thesis by simp
  qed
qed

lemma generateTransactionId_nonempty [simp]: "generateTransactionId rnd \<noteq> []"
  by (simp add: generateTransactionId_def)

text \<open>Cloning a value whose unfolding is plain data.\<close>

lemma json_clone_plain:
  assumes "snapshot h [] v = Some t" and "to_json t = Some j"
  shows "json_clone h v = Inr (JSON_parse j h)"
  using assms by (simp add: json_clone_def JSON_stringify_def)

lemma agrees_refl: "agrees h h n"
  by (simp add: agrees_def)

lemma agrees_parse:
  "agrees h'' (snd (JSON_parse j h1)) n \<Longrightarrow> agrees h'' h1 n"
  using parse_length(1) [of h1 j] parse_keeps(1) [of _ h1 j]
  by (auto simp: agrees_def)

lemma parse_ref:
  assumes "to_json (JObj ps) = Some j \<or> to_json (JArr vs) = Some j"
  shows "\<exists>b. fst (JSON_parse j h) = HRef b \<and> length h \<le> b \<and> b < length (snd (JSON_parse j h))"
proof -
  from assms have "(\<exists>qs. j = JsObj qs) \<or> (\<exists>js. j = JsArr js)" by auto
  then show ?thesis
    using parse_length(2,3) [of h]
    by (auto simp: split_beta)
qed

lemma snapshot_ref_shape:
  "snapshot h stk (HRef a) = Some t \<Longrightarrow> (\<exists>ps. t = JObj ps) \<or> (\<exists>vs. t = JArr vs)"
  by (auto split: if_splits hobj.splits)

section \<open>Properties of begin and rollback\<close>

lemma beginTransaction_plain:
  assumes snap: "snapshot h [] (HRef a) = Some t" and j: "to_json t = Some j"
  shows "beginTransaction rnd now (HRef a) h tbl =
           (Inr \<lparr>bg_transactionId = generateTransactionId rnd, bg_status = PENDING,
                 bg_backup = fst (JSON_parse j h)\<rparr>,
            snd (JSON_parse j (snd (JSON_parse j h))),
            AList.update (generateTransactionId rnd)
              \<lparr>tx_operationData = fst (JSON_parse j (snd (JSON_parse j h))),
               tx_backup = fst (JSON_parse j h), tx_status = PENDING,
               tx_timestamp = now, tx_completedAt = None\<rparr> tbl)"
proof -
  let ?ha = "snd (JSON_parse j h)"
  have c1: "json_clone h (HRef a) = Inr (JSON_parse j h)"
    by (rule json_clone_plain [OF snap j])
  have "snapshot ?ha [] (HRef a) = Some t"
    using parse_length(1) [of h j] parse_keeps(1) [of _ h j]
    by (intro snapshot_frame [OF snap]) auto
  then have c2: "json_clone ?ha (HRef a) = Inr (JSON_parse j ?ha)"
    by (rule json_clone_plain [OF _ j])
  show ?thesis
    by (simp add: beginTransaction_def c1 c2 split_beta Let_def)
qed

lemma rollbackTransaction_pending:
  assumes rec: "map_of tbl (trim s) = Some txn" and s: "s \<noteq> []"
    and pending: "tx_status txn = PENDING"
    and snap: "snapshot h [] (tx_backup txn) = Some t" and j: "to_json t = Some j"
  shows "rollbackTransaction now (JStr s) h tbl =
           (Inr \<lparr>rb_status = Some ROLLED_BACK, rb_backup = fst (JSON_parse j h),
                 rb_error = None\<rparr>,
            snd (JSON_parse j h),
            AList.update (trim s)
              (txn\<lparr>tx_status := ROLLED_BACK, tx_completedAt := Some now\<rparr>) tbl)"
  using rec s pending json_clone_plain [OF snap j]
  by (simp add: rollbackTransaction_def split_beta)

text \<open>
  Claim C2, amended. Let the payload be an object whose unfolding \<open>t\<close> at begin time is
  plain data: built from \<open>null\<close>, booleans, finite numbers other than the negative
  zero, strings, arrays and objects. Then \<open>beginTransaction\<close> succeeds. The backup it
  returns to the caller is the stored backup itself, one of the objects that the call
  allocated. Provided that none of the objects allocated by \<open>beginTransaction\<close> has
  been mutated before the rollback (the caller's payload and every other older object
  may have been mutated at will, and new objects allocated), \<open>rollbackTransaction\<close> of
  the returned transaction ID succeeds and returns a backup that unfolds to \<open>t\<close>:
  deep-equal to the payload as it was at begin time. The backup that the rollback
  returns is a newly allocated object, and it unfolds to \<open>t\<close> in every heap that agrees
  with the heap after the rollback on the objects the rollback allocated: no later
  mutation of the caller's payload, of the stored backup or of any other older object
  changes it.
\<close>

theorem rollback_returns_independent_copy:
  assumes snap: "snapshot h [] (HRef a) = Some t" and plain: "plain_data t"
  shows "\<exists>r h1 tbl1 b.
           beginTransaction rnd now (HRef a) h tbl = (Inr r, h1, tbl1)
           \<and> bg_transactionId r = generateTransactionId rnd
           \<and> bg_backup r = HRef b \<and> length h \<le> b \<and> b < length h1
           \<and> map_option tx_backup (map_of tbl1 (bg_transactionId r)) = Some (HRef b)
           \<and> (\<forall>h1'. agrees h1' h1 (length h) \<longrightarrow>
                (\<exists>B h2 tbl2.
                   rollbackTransaction now' (JStr (bg_transactionId r)) h1' tbl1 =
                     (Inr \<lparr>rb_status = Some ROLLED_BACK, rb_backup = HRef B, rb_error = None\<rparr>,
                      h2, tbl2)
                   \<and> length h1' \<le> B \<and> B < length h2
                   \<and> snapshot h2 [] (HRef B) = Some t
                   \<and> (\<forall>h3. agrees h3 h2 (length h1') \<longrightarrow> snapshot h3 [] (HRef B) = Some t)))"
proof -
  from plain_data_json [OF plain] obtain j where j: "to_json t = Some j"
    and jt: "json_value j = t" by blast
  let ?ha = "snd (JSON_parse j h)"
  let ?h1 = "snd (JSON_parse j ?ha)"
  let ?id = "generateTransactionId rnd"
  let ?rec = "\<lparr>tx_operationData = fst (JSON_parse j ?ha),
               tx_backup = fst (JSON_parse j h), tx_status = PENDING,
               tx_timestamp = now, tx_completedAt = None\<rparr>"
  let ?tbl1 = "AList.update ?id ?rec tbl"
  let ?r = "\<lparr>bg_transactionId = ?id, bg_status = PENDING, bg_backup = fst (JSON_parse j h)\<rparr>"
  have bgn: "beginTransaction rnd now (HRef a) h tbl = (Inr ?r, ?h1, ?tbl1)"
    by (rule beginTransaction_plain [OF snap j])
  from snapshot_ref_shape [OF snap] j
  have shape: "(\<exists>ps. to_json (JObj ps) = Some j) \<or> (\<exists>vs. to_json (JArr vs) = Some j)" by auto
  then obtain b where b: "fst (JSON_parse j h) = HRef b" and blo: "length h \<le> b"
    and bhi: "b < length ?ha"
    using parse_ref [of _ j _ h] by blast
  from bhi parse_length(1) [of ?ha j] have bhi1: "b < length ?h1" by simp
  have stored_rec: "map_option tx_backup (map_of ?tbl1 ?id) = Some (HRef b)"
    by (simp add: update_conv' b)
  have "\<exists>B h2 tbl2.
          rollbackTransaction now' (JStr ?id) h1' ?tbl1 =
            (Inr \<lparr>rb_status = Some ROLLED_BACK, rb_backup = HRef B, rb_error = None\<rparr>, h2, tbl2)
          \<and> length h1' \<le> B \<and> B < length h2
          \<and> snapshot h2 [] (HRef B) = Some t
          \<and> (\<forall>h3. agrees h3 h2 (length h1') \<longrightarrow> snapshot h3 [] (HRef B) = Some t)"
    if ag: "agrees h1' ?h1 (length h)" for h1'
  proof -
    from ag have "agrees h1' ?ha (length h)" by (rule agrees_parse)
    then have stored: "snapshot h1' [] (fst (JSON_parse j h)) = Some (json_value j)"
      by (intro snapshot_parse(1)) simp_all
    have rec: "map_of ?tbl1 (trim ?id) = Some ?rec" by (simp add: update_conv')
    have roll: "rollbackTransaction now' (JStr ?id) h1' ?tbl1 =
           (Inr \<lparr>rb_status = Some ROLLED_BACK, rb_backup = fst (JSON_parse j h1'),
                 rb_error = None\<rparr>,
            snd (JSON_parse j h1'),
            AList.update (trim ?id)
              (?rec\<lparr>tx_status := ROLLED_BACK, tx_completedAt := Some now'\<rparr>) ?tbl1)"
      by (rule rollbackTransaction_pending [OF rec _ _ _ to_json_json_value])
         (simp_all add: stored)
    from shape obtain B where B: "fst (JSON_parse j h1') = HRef B" and lo: "length h1' \<le> B"
      and hi: "B < length (snd (JSON_parse j h1'))"
      using parse_ref [of _ j _ h1'] by blast
    have indep: "snapshot h3 [] (HRef B) = Some t"
      if "agrees h3 (snd (JSON_parse j h1')) (length h1')" for h3
      using snapshot_parse(1) [OF that, of "[]"] B jt by simp
    from indep [OF agrees_refl] roll B lo hi indep show ?thesis by auto
  qed
  with bgn b blo bhi1 stored_rec show ?thesis
    by (intro exI [of _ ?r] exI [of _ ?h1] exI [of _ ?tbl1] exI [of _ b]) simp
qed

lemma id_RND_T: "generateTransactionId RND_T = ''txn_00112233445566778899aabb''"
  by (simp add: generateTransactionId_def to_hex_def hex_byte_def hex_digit_def RND_T_def)

lemma trim_txn_id: "trim ''txn_00112233445566778899aabb'' = ''txn_00112233445566778899aabb''"
  by (simp add: trim_def is_ws_def)

text \<open>
  Claim C2 does not hold for every payload without cycles: the copy is a JSON round
  trip, which does not preserve NaN (nor the infinities, \<open>undefined\<close> and functions).
  For the payload \<open>{ ttl: NaN }\<close> the backup returned by the rollback is
  \<open>{ ttl: null }\<close>.
\<close>

theorem rollback_not_deep_equal_counterexample:
  "snapshot [HObject [(''ttl'', HNum NaN)]] [] (HRef 0) = Some (JObj [(''ttl'', JNum NaN)])
   \<and> beginTransaction RND_T 0 (HRef 0) [HObject [(''ttl'', HNum NaN)]] [] =
       (Inr \<lparr>bg_transactionId = ''txn_00112233445566778899aabb'', bg_status = PENDING, bg_backup = HRef 1\<rparr>,
        [HObject [(''ttl'', HNum NaN)], HObject [(''ttl'', HNull)], HObject [(''ttl'', HNull)]],
        [(''txn_00112233445566778899aabb'', \<lparr>tx_operationData = HRef 2, tx_backup = HRef 1, tx_status = PENDING,
                        tx_timestamp = 0, tx_completedAt = None\<rparr>)])
   \<and> rollbackTransaction 1 (JStr ''txn_00112233445566778899aabb'')
        [HObject [(''ttl'', HNum NaN)], HObject [(''ttl'', HNull)], HObject [(''ttl'', HNull)]]
        [(''txn_00112233445566778899aabb'', \<lparr>tx_operationData = HRef 2, tx_backup = HRef 1, tx_status = PENDING,
                        tx_timestamp = 0, tx_completedAt = None\<rparr>)] =
       (Inr \<lparr>rb_status = Some ROLLED_BACK, rb_backup = HRef 3, rb_error = None\<rparr>,
        [HObject [(''ttl'', HNum NaN)], HObject [(''ttl'', HNull)], HObject [(''ttl'', HNull)],
         HObject [(''ttl'', HNull)]],
        [(''txn_00112233445566778899aabb'', \<lparr>tx_operationData = HRef 2, tx_backup = HRef 1, tx_status = ROLLED_BACK,
                        tx_timestamp = 0, tx_completedAt = Some 1\<rparr>)])
   \<and> snapshot
        [HObject [(''ttl'', HNum NaN)], HObject [(''ttl'', HNull)], HObject [(''ttl'', HNull)],
         HObject [(''ttl'', HNull)]] [] (HRef 3) = Some (JObj [(''ttl'', JNull)])"
proof -
  let ?o = "HObject [(''ttl'', HNum NaN)]" and ?c = "HObject [(''ttl'', HNull)]"
  have c1: "json_clone [?o] (HRef 0) = Inr (HRef 1, [?o, ?c])"
    by (simp add: json_clone_def JSON_stringify_def)
  have c2: "json_clone [?o, ?c] (HRef 0) = Inr (HRef 2, [?o, ?c, ?c])"
    by (simp add: json_clone_def JSON_stringify_def)
  have c3: "json_clone [?o, ?c, ?c] (HRef 1) = Inr (HRef 3, [?o, ?c, ?c, ?c])"
    by (simp add: json_clone_def JSON_stringify_def)
  have s0: "snapshot [?o] [] (HRef 0) = Some (JObj [(''ttl'', JNum NaN)])" by simp
  have s3: "snapshot [?o, ?c, ?c, ?c] [] (HRef 3) = Some (JObj [(''ttl'', JNull)])" by simp
  have b: "beginTransaction RND_T 0 (HRef 0) [?o] [] =
       (Inr \<lparr>bg_transactionId = ''txn_00112233445566778899aabb'', bg_status = PENDING, bg_backup = HRef 1\<rparr>,
        [?o, ?c, ?c],
        [(''txn_00112233445566778899aabb'', \<lparr>tx_operationData = HRef 2, tx_backup = HRef 1, tx_status = PENDING,
                        tx_timestamp = 0, tx_completedAt = None\<rparr>)])"
    by (simp add: beginTransaction_def c1 c2 id_RND_T Let_def)
  have r: "rollbackTransaction 1 (JStr ''txn_00112233445566778899aabb'') [?o, ?c, ?c]
        [(''txn_00112233445566778899aabb'', \<lparr>tx_operationData = HRef 2, tx_backup = HRef 1, tx_status = PENDING,
                        tx_timestamp = 0, tx_completedAt = None\<rparr>)] =
       (Inr \<lparr>rb_status = Some ROLLED_BACK, rb_backup = HRef 3, rb_error = None\<rparr>,
        [?o, ?c, ?c, ?c],
        [(''txn_00112233445566778899aabb'', \<lparr>tx_operationData = HRef 2, tx_backup = HRef 1, tx_status = ROLLED_BACK,
                        tx_timestamp = 0, tx_completedAt = Some 1\<rparr>)])"
    using c3 by (simp add: rollbackTransaction_def trim_txn_id)
  from s0 b r s3 show ?thesis by blast
qed

text \<open>
  The amended claim C2 at the payload \<open>{ ttl: 300 }\<close>, mutated to \<open>{ ttl: 999 }\<close>
  between the begin and the rollback.
\<close>

theorem rollback_returns_independent_copy_witness:
  "\<exists>B h2 tbl2.
     rollbackTransaction 9 (JStr ''txn_00112233445566778899aabb'')
       [HObject [(''ttl'', HNum (Fin 999))], HObject [(''ttl'', HNum (Fin 300))],
        HObject [(''ttl'', HNum (Fin 300))]]
       [(''txn_00112233445566778899aabb'', \<lparr>tx_operationData = HRef 2, tx_backup = HRef 1, tx_status = PENDING,
                       tx_timestamp = 0, tx_completedAt = None\<rparr>)] =
       (Inr \<lparr>rb_status = Some ROLLED_BACK, rb_backup = HRef B, rb_error = None\<rparr>, h2, tbl2)
     \<and> snapshot h2 [] (HRef B) = Some (JObj [(''ttl'', JNum (Fin 300))])"
proof -
  let ?o = "HObject [(''ttl'', HNum (Fin 300))]" and ?m = "HObject [(''ttl'', HNum (Fin 999))]"
  let ?tbl1 = "[(''txn_00112233445566778899aabb'', \<lparr>tx_operationData = HRef 2, tx_backup = HRef 1, tx_status = PENDING,
                       tx_timestamp = 0, tx_completedAt = None\<rparr>)]"
  have snap: "snapshot [?o] [] (HRef 0) = Some (JObj [(''ttl'', JNum (Fin 300))])" by simp
  have plain: "plain_data (JObj [(''ttl'', JNum (Fin 300))])" by simp
  have c1: "json_clone [?o] (HRef 0) = Inr (HRef 1, [?o, ?o])"
    by (simp add: json_clone_def JSON_stringify_def)
  have c2: "json_clone [?o, ?o] (HRef 0) = Inr (HRef 2, [?o, ?o, ?o])"
    by (simp add: json_clone_def JSON_stringify_def)
  have bgn: "beginTransaction RND_T 0 (HRef 0) [?o] [] =
       (Inr \<lparr>bg_transactionId = ''txn_00112233445566778899aabb'', bg_status = PENDING, bg_backup = HRef 1\<rparr>,
        [?o, ?o, ?o], ?tbl1)"
    by (simp add: beginTransaction_def c1 c2 id_RND_T Let_def)
  have ag: "agrees [?m, ?o, ?o] [?o, ?o, ?o] (length [?o])"
    by (auto simp: agrees_def nth_Cons')
  from rollback_returns_independent_copy [OF snap plain, of "RND_T" 0 "[]" 9]
  obtain r h1 tbl1 where
    b: "beginTransaction RND_T 0 (HRef 0) [?o] [] = (Inr r, h1, tbl1)" and
    rb: "\<forall>h1'. agrees h1' h1 (length [?o]) \<longrightarrow>
          (\<exists>B h2 tbl2.
             rollbackTransaction 9 (JStr (bg_transactionId r)) h1' tbl1 =
               (Inr \<lparr>rb_status = Some ROLLED_BACK, rb_backup = HRef B, rb_error = None\<rparr>,
                h2, tbl2)
             \<and> length h1' \<le> B \<and> B < length h2
             \<and> snapshot h2 [] (HRef B) = Some (JObj [(''ttl'', JNum (Fin 300))])
             \<and> (\<forall>h3. agrees h3 h2 (length h1') \<longrightarrow>
                   snapshot h3 [] (HRef B) = Some (JObj [(''ttl'', JNum (Fin 300))])))"
    by blast
  from b bgn have eq: "r = \<lparr>bg_transactionId = ''txn_00112233445566778899aabb'', bg_status = PENDING, bg_backup = HRef 1\<rparr>"
    "h1 = [?o, ?o, ?o]" "tbl1 = ?tbl1"
    by simp_all
  from rb ag show ?thesis unfolding eq by (simp only: begin_result.simps) blast
qed

text \<open>
  The two restrictions of the amended claim C2 cannot be dropped. The backup that
  \<open>beginTransaction\<close> hands to the caller is the stored one, so a caller that writes to
  it before the rollback changes what the rollback returns: for the payload
  \<open>{ ttl: 300 }\<close>, after \<open>backup.ttl = 1\<close> the rollback returns \<open>{ ttl: 1 }\<close>. And the
  negative zero does not survive the copy: for the payload \<open>{ ttl: -0 }\<close> the rollback
  returns \<open>{ ttl: 0 }\<close>.
\<close>

lemma rollback_after_backup_mutation:
  "beginTransaction RND_T 0 (HRef 0) [HObject [(''ttl'', HNum (Fin 300))]] [] =
     (Inr \<lparr>bg_transactionId = ''txn_00112233445566778899aabb'', bg_status = PENDING, bg_backup = HRef 1\<rparr>,
      [HObject [(''ttl'', HNum (Fin 300))], HObject [(''ttl'', HNum (Fin 300))],
       HObject [(''ttl'', HNum (Fin 300))]],
      [(''txn_00112233445566778899aabb'', \<lparr>tx_operationData = HRef 2, tx_backup = HRef 1, tx_status = PENDING,
                      tx_timestamp = 0, tx_completedAt = None\<rparr>)])
   \<and> (\<exists>h2 tbl2.
        rollbackTransaction 9 (JStr ''txn_00112233445566778899aabb'')
          [HObject [(''ttl'', HNum (Fin 300))], HObject [(''ttl'', HNum (Fin 1))],
           HObject [(''ttl'', HNum (Fin 300))]]
          [(''txn_00112233445566778899aabb'', \<lparr>tx_operationData = HRef 2, tx_backup = HRef 1, tx_status = PENDING,
                          tx_timestamp = 0, tx_completedAt = None\<rparr>)] =
          (Inr \<lparr>rb_status = Some ROLLED_BACK, rb_backup = HRef 3, rb_error = None\<rparr>, h2, tbl2)
        \<and> snapshot h2 [] (HRef 3) = Some (JObj [(''ttl'', JNum (Fin 1))]))"
proof -
  let ?o = "HObject [(''ttl'', HNum (Fin 300))]" and ?m = "HObject [(''ttl'', HNum (Fin 1))]"
  have c1: "json_clone [?o] (HRef 0) = Inr (HRef 1, [?o, ?o])"
    by (simp add: json_clone_def JSON_stringify_def)
  have c2: "json_clone [?o, ?o] (HRef 0) = Inr (HRef 2, [?o, ?o, ?o])"
    by (simp add: json_clone_def JSON_stringify_def)
  have c3: "json_clone [?o, ?m, ?o] (HRef 1) = Inr (HRef 3, [?o, ?m, ?o, ?m])"
    by (simp add: json_clone_def JSON_stringify_def)
  have s3: "snapshot [?o, ?m, ?o, ?m] [] (HRef 3) = Some (JObj [(''ttl'', JNum (Fin 1))])" by simp
  have b: "beginTransaction RND_T 0 (HRef 0) [?o] [] =
       (Inr \<lparr>bg_transactionId = ''txn_00112233445566778899aabb'', bg_status = PENDING, bg_backup = HRef 1\<rparr>,
        [?o, ?o, ?o],
        [(''txn_00112233445566778899aabb'', \<lparr>tx_operationData = HRef 2, tx_backup = HRef 1, tx_status = PENDING,
                        tx_timestamp = 0, tx_completedAt = None\<rparr>)])"
    by (simp add: beginTransaction_def c1 c2 id_RND_T Let_def)
  have r: "rollbackTransaction 9 (JStr ''txn_00112233445566778899aabb'') [?o, ?m, ?o]
        [(''txn_00112233445566778899aabb'', \<lparr>tx_operationData = HRef 2, tx_backup = HRef 1, tx_status = PENDING,
                        tx_timestamp = 0, tx_completedAt = None\<rparr>)] =
       (Inr \<lparr>rb_status = Some ROLLED_BACK, rb_backup = HRef 3, rb_error = None\<rparr>,
        [?o, ?m, ?o, ?m],
        [(''txn_00112233445566778899aabb'', \<lparr>tx_operationData = HRef 2, tx_backup = HRef 1, tx_status = ROLLED_BACK,
                        tx_timestamp = 0, tx_completedAt = Some 9\<rparr>)])"
    using c3 by (simp add: rollbackTransaction_def trim_txn_id)
  from b r s3 show ?thesis by simp
qed

lemma negative_zero_not_preserved:
  "snapshot [HObject [(''ttl'', HNum NegZero)]] [] (HRef 0) = Some (JObj [(''ttl'', JNum NegZero)])
   \<and> beginTransaction RND_T 0 (HRef 0) [HObject [(''ttl'', HNum NegZero)]] [] =
       (Inr \<lparr>bg_transactionId = ''txn_00112233445566778899aabb'', bg_status = PENDING, bg_backup = HRef 1\<rparr>,
        [HObject [(''ttl'', HNum NegZero)], HObject [(''ttl'', HNum (Fin 0))],
         HObject [(''ttl'', HNum (Fin 0))]],
        [(''txn_00112233445566778899aabb'', \<lparr>tx_operationData = HRef 2, tx_backup = HRef 1, tx_status = PENDING,
                        tx_timestamp = 0, tx_completedAt = None\<rparr>)])
   \<and> (\<exists>h2 tbl2.
        rollbackTransaction 1 (JStr ''txn_00112233445566778899aabb'')
          [HObject [(''ttl'', HNum NegZero)], HObject [(''ttl'', HNum (Fin 0))],
           HObject [(''ttl'', HNum (Fin 0))]]
          [(''txn_00112233445566778899aabb'', \<lparr>tx_operationData = HRef 2, tx_backup = HRef 1, tx_status = PENDING,
                          tx_timestamp = 0, tx_completedAt = None\<rparr>)] =
          (Inr \<lparr>rb_status = Some ROLLED_BACK, rb_backup = HRef 3, rb_error = None\<rparr>, h2, tbl2)
        \<and> snapshot h2 [] (HRef 3) = Some (JObj [(''ttl'', JNum (Fin 0))]))"
proof -
  let ?o = "HObject [(''ttl'', HNum NegZero)]" and ?c = "HObject [(''ttl'', HNum (Fin 0))]"
  have c1: "json_clone [?o] (HRef 0) = Inr (HRef 1, [?o, ?c])"
    by (simp add: json_clone_def JSON_stringify_def)
  have c2: "json_clone [?o, ?c] (HRef 0) = Inr (HRef 2, [?o, ?c, ?c])"
    by (simp add: json_clone_def JSON_stringify_def)
  have c3: "json_clone [?o, ?c, ?c] (HRef 1) = Inr (HRef 3, [?o, ?c, ?c, ?c])"
    by (simp add: json_clone_def JSON_stringify_def)
  have s0: "snapshot [?o] [] (HRef 0) = Some (JObj [(''ttl'', JNum NegZero)])" by simp
  have s3: "snapshot [?o, ?c, ?c, ?c] [] (HRef 3) = Some (JObj [(''ttl'', JNum (Fin 0))])" by simp
  have b: "beginTransaction RND_T 0 (HRef 0) [?o] [] =
       (Inr \<lparr>bg_transactionId = ''txn_00112233445566778899aabb'', bg_status = PENDING, bg_backup = HRef 1\<rparr>,
        [?o, ?c, ?c],
        [(''txn_00112233445566778899aabb'', \<lparr>tx_operationData = HRef 2, tx_backup = HRef 1, tx_status = PENDING,
                        tx_timestamp = 0, tx_completedAt = None\<rparr>)])"
    by (simp add: beginTransaction_def c1 c2 id_RND_T Let_def)
  have r: "rollbackTransaction 1 (JStr ''txn_00112233445566778899aabb'') [?o, ?c, ?c]
        [(''txn_00112233445566778899aabb'', \<lparr>tx_operationData = HRef 2, tx_backup = HRef 1, tx_status = PENDING,
                        tx_timestamp = 0, tx_completedAt = None\<rparr>)] =
       (Inr \<lparr>rb_status = Some ROLLED_BACK, rb_backup = HRef 3, rb_error = None\<rparr>,
        [?o, ?c, ?c, ?c],
        [(''txn_00112233445566778899aabb'', \<lparr>tx_operationData = HRef 2, tx_backup = HRef 1, tx_status = ROLLED_BACK,
                        tx_timestamp = 0, tx_completedAt = Some 1\<rparr>)])"
    using c3 by (simp add: rollbackTransaction_def trim_txn_id)
  from s0 b r s3 show ?thesis by simp
qed

section \<open>Payloads that cannot be copied\<close>

lemma snapshot_child:
  assumes "snapshot h stk (HRef a) = Some t" and "edge h a b"
  shows "\<exists>t'. snapshot h (a # stk) (HRef b) = Some t'"
proof -
  from assms(1) have a: "a \<notin> set stk" "a < length h" by (auto split: if_splits)
  show ?thesis
  proof (cases "h ! a")
    case (HObject ps)
    with assms(1) a obtain ts where
      ts: "those (map (\<lambda>p. map_option (Pair (fst p)) (snapshot h (a # stk) (snd p))) ps) = Some ts"
      by auto
    from assms(2) a HObject obtain p where p: "p \<in> set ps" and b: "snd p = HRef b"
      by (auto simp: edge_def children_def)
    from those_map_SomeD [OF ts p] b show ?thesis by auto
  next
    case (HArray vs)
    with assms(1) a obtain ts where
      ts: "those (map (snapshot h (a # stk)) vs) = Some ts"
      by auto
    from assms(2) a HArray have "HRef b \<in> set vs"
      by (auto simp: edge_def children_def)
    from those_map_SomeD [OF ts this] show ?thesis .
  qed
qed

lemma snapshot_reach:
  assumes "(edge h)\<^sup>+\<^sup>+ a b" and "snapshot h stk (HRef a) = Some t"
  shows "\<exists>stk' t'. a \<in> set stk' \<and> snapshot h stk' (HRef b) = Some t'"
  using assms
proof (induction rule: tranclp_induct)
  case (base b)
  from snapshot_child [OF base(2,1)] show ?case by (intro exI [of _ "a # stk"]) simp
next
  case (step b c)
  from step.IH [OF step.prems] obtain stk' t' where
    a: "a \<in> set stk'" and s: "snapshot h stk' (HRef b) = Some t'" by blast
  from snapshot_child [OF s step.hyps(2)] a show ?case
    by (intro exI [of _ "b # stk'"]) simp
qed

lemma snapshot_no_cycle:
  assumes "snapshot h stk (HRef c) = Some t"
  shows "\<not> (edge h)\<^sup>+\<^sup>+ c c"
proof
  assume "(edge h)\<^sup>+\<^sup>+ c c"
  from snapshot_reach [OF this assms] obtain stk' t' where
    "c \<in> set stk'" and "snapshot h stk' (HRef c) = Some t'" by blast
  then show False by simp
qed

lemma cyclic_snapshot: "cyclic h v \<Longrightarrow> snapshot h [] v = None"
proof (rule ccontr)
  assume cyc: "cyclic h v" and "snapshot h [] v \<noteq> None"
  then obtain t where t: "snapshot h [] v = Some t" by auto
  from cyc obtain a c where v: "v = HRef a" and r: "(edge h)\<^sup>*\<^sup>* a c"
    and c: "(edge h)\<^sup>+\<^sup>+ c c"
    by (auto simp: cyclic_def)
  from r have "a = c \<or> (edge h)\<^sup>+\<^sup>+ a c" by (auto dest: rtranclpD)
  then show False
  proof
    assume "a = c"
    with t v c snapshot_no_cycle show False by blast
  next
    assume "(edge h)\<^sup>+\<^sup>+ a c"
    from snapshot_reach [OF this] t v obtain stk' t' where
      "snapshot h stk' (HRef c) = Some t'" by blast
    with c snapshot_no_cycle show False by blast
  qed
qed

lemma json_clone_cyclic: "cyclic h v \<Longrightarrow> json_clone h v = Inl TypeError"
  by (simp add: json_clone_def JSON_stringify_def cyclic_snapshot)

lemma beginTransaction_uncopyable:
  assumes "json_clone h P = Inl e"
  shows "\<exists>e'. beginTransaction rnd now P h tbl = (Inl e', h, tbl)"
  using assms by (simp add: beginTransaction_def Let_def)

text \<open>
  Claim C4. For every payload that cannot be deep-copied, that is, one that contains a
  reference cycle or, in general, one whose JSON round trip raises, \<open>beginTransaction\<close>
  raises and leaves the heap and the transaction table exactly as they were, so that
  \<open>getActiveTransactions\<close> and \<open>getTransactionStats\<close> return what they returned
  before the call.
\<close>

theorem beginTransaction_uncopyable_no_record:
  assumes "cyclic h P \<or> (\<exists>e. json_clone h P = Inl e)"
  shows "\<exists>e h' tbl'.
           beginTransaction rnd now P h tbl = (Inl e, h', tbl')
           \<and> h' = h \<and> tbl' = tbl
           \<and> getActiveTransactions clock h' tbl' = getActiveTransactions clock h tbl
           \<and> getTransactionStats tbl' = getTransactionStats tbl"
proof -
  from assms obtain e where "json_clone h P = Inl e"
    using json_clone_cyclic by blast
  from beginTransaction_uncopyable [OF this] show ?thesis by auto
qed

text \<open>
  Claim C4 at a payload that refers to itself, \<open>p.self = p\<close>.
\<close>

theorem beginTransaction_uncopyable_no_record_witness:
  "\<exists>e. beginTransaction RND_T 5 (HRef 0) [HObject [(''name'', HStr ''x''), (''self'', HRef 0)]]
          [(''txn_01'', \<lparr>tx_operationData = HNull, tx_backup = HNull, tx_status = COMMITTED,
                          tx_timestamp = 0, tx_completedAt = Some 1\<rparr>)] =
        (Inl e, [HObject [(''name'', HStr ''x''), (''self'', HRef 0)]],
         [(''txn_01'', \<lparr>tx_operationData = HNull, tx_backup = HNull, tx_status = COMMITTED,
                          tx_timestamp = 0, tx_completedAt = Some 1\<rparr>)])"
proof -
  let ?h = "[HObject [(''name'', HStr ''x''), (''self'', HRef 0)]]"
  have "edge ?h 0 0" by (simp add: edge_def children_def)
  then have "(edge ?h)\<^sup>+\<^sup>+ 0 0" by (rule tranclp.r_into_trancl)
  then have "cyclic ?h (HRef 0)" unfolding cyclic_def by blast
  then have "cyclic ?h (HRef 0) \<or> (\<exists>e. json_clone ?h (HRef 0) = Inl e)" ..
  from beginTransaction_uncopyable_no_record [OF this, of "RND_T" 5]
  show ?thesis by blast
qed

section \<open>The transaction state machine\<close>

lemma commit_shape:
  "snd (commitTransaction now tid tbl) = tbl
   \<or> (\<exists>k r. map_of tbl k = Some r \<and> tx_status r = PENDING
          \<and> snd (commitTransaction now tid tbl) =
              AList.update k (r\<lparr>tx_status := COMMITTED, tx_completedAt := Some now\<rparr>) tbl)"
proof (cases tid)
  case (JStr s)
  show ?thesis
  proof (cases "map_of tbl (trim s)")
    case None
    with JStr show ?thesis by (simp add: commitTransaction_def)
  next
    case (Some r)
    show ?thesis
    proof (cases "s \<noteq> [] \<and> tx_status r = PENDING")
      case True
      with JStr Some have "snd (commitTransaction now tid tbl) =
          AList.update (trim s) (r\<lparr>tx_status := COMMITTED, tx_completedAt := Some now\<rparr>) tbl"
        by (simp add: commitTransaction_def)
      with Some True show ?thesis by blast
    next
      case False
      with JStr Some show ?thesis by (auto simp: commitTransaction_def)
    qed
  qed
qed (simp_all add: commitTransaction_def)

lemma rollback_shape:
  "snd (snd (rollbackTransaction now tid h tbl)) = tbl
   \<or> (\<exists>k r. map_of tbl k = Some r \<and> tx_status r = PENDING
          \<and> snd (snd (rollbackTransaction now tid h tbl)) =
              AList.update k (r\<lparr>tx_status := ROLLED_BACK, tx_completedAt := Some now\<rparr>) tbl)"
proof (cases tid)
  case (JStr s)
  show ?thesis
  proof (cases "map_of tbl (trim s)")
    case None
    with JStr show ?thesis by (simp add: rollbackTransaction_def)
  next
    case (Some r)
    show ?thesis
    proof (cases "s \<noteq> [] \<and> tx_status r = PENDING")
      case True
      show ?thesis
      proof (cases "json_clone h (tx_backup r)")
        case (Inl e)
        with JStr Some True show ?thesis by (simp add: rollbackTransaction_def)
      next
        case (Inr c)
        with JStr Some True have "snd (snd (rollbackTransaction now tid h tbl)) =
            AList.update (trim s) (r\<lparr>tx_status := ROLLED_BACK, tx_completedAt := Some now\<rparr>) tbl"
          by (simp add: rollbackTransaction_def split_beta)
        with Some True show ?thesis by blast
      qed
    next
      case False
      with JStr Some show ?thesis by (auto simp: rollbackTransaction_def)
    qed
  qed
qed (simp_all add: rollbackTransaction_def)

lemma commit_step:
  assumes "map_of tbl k = Some r"
  shows "\<exists>r'. map_of (snd (commitTransaction now tid tbl)) k = Some r'
           \<and> (r' = r \<or> (tx_status r = PENDING
                \<and> r' = r\<lparr>tx_status := COMMITTED, tx_completedAt := Some now\<rparr>))"
  using assms commit_shape [of now tid tbl] by (auto simp: update_conv')

lemma rollback_step:
  assumes "map_of tbl k = Some r"
  shows "\<exists>r'. map_of (snd (snd (rollbackTransaction now tid h tbl))) k = Some r'
           \<and> (r' = r \<or> (tx_status r = PENDING
                \<and> r' = r\<lparr>tx_status := ROLLED_BACK, tx_completedAt := Some now\<rparr>))"
  using assms rollback_shape [of now tid h tbl] by (auto simp: update_conv')

lemma run_calls_final:
  assumes "map_of tbl k = Some r"
  shows "\<exists>r'. map_of (snd (run_calls cs h tbl)) k = Some r'
           \<and> (tx_status r \<noteq> PENDING \<longrightarrow> r' = r)
           \<and> (tx_status r' = tx_status r \<or> tx_status r = PENDING)"
  using assms
proof (induction cs h tbl arbitrary: r rule: run_calls.induct)
  case (1 h transactions)
  then show ?case by simp
next
  case (2 now tid cs h transactions)
  from commit_step [OF "2.prems", of now tid] obtain r1 where
    r1: "map_of (snd (commitTransaction now tid transactions)) k = Some r1"
    and st: "r1 = r \<or> (tx_status r = PENDING
                \<and> r1 = r\<lparr>tx_status := COMMITTED, tx_completedAt := Some now\<rparr>)"
    by blast
  from "2.IH" [OF r1] st show ?case by auto
next
  case (3 now tid cs h transactions)
  from rollback_step [OF "3.prems", of now tid h] obtain r1 where
    r1: "map_of (snd (snd (rollbackTransaction now tid h transactions))) k = Some r1"
    and st: "r1 = r \<or> (tx_status r = PENDING
                \<and> r1 = r\<lparr>tx_status := ROLLED_BACK, tx_completedAt := Some now\<rparr>)"
    by blast
  from "3.IH" [OF refl prod.collapse prod.collapse r1] st show ?case
    by (auto simp: split_beta)
qed

lemma conflict_names_state:
  "(\<exists>pre suf. commit_conflict st = pre @ state_name st @ suf)
   \<and> (\<exists>pre. rollback_conflict st = pre @ state_name st)"
  unfolding commit_conflict_def rollback_conflict_def
  by (metis append.assoc)

text \<open>
  Claim C3. For every record of the transaction table: a call of \<open>commitTransaction\<close>
  leaves it as it was or, if it was pending, makes it committed and stamps
  \<open>completedAt\<close>; a call of \<open>rollbackTransaction\<close> leaves it as it was or, if it was
  pending, makes it rolled back and stamps \<open>completedAt\<close>. After any run of commit and
  rollback calls a record that was not pending is still the same record, so each move
  happens at most once. A commit or a rollback that names a record that is not pending
  returns the state-conflict error, whose text ends with (rollback) or contains
  (commit) the name of the current state, and leaves the heap and the table unchanged.
\<close>

theorem transaction_state_machine:
  assumes "map_of tbl k = Some r"
  shows "(\<exists>r'. map_of (snd (commitTransaction now tid tbl)) k = Some r'
            \<and> (r' = r \<or> (tx_status r = PENDING
                 \<and> r' = r\<lparr>tx_status := COMMITTED, tx_completedAt := Some now\<rparr>)))
       \<and> (\<exists>r'. map_of (snd (snd (rollbackTransaction now tid h tbl))) k = Some r'
            \<and> (r' = r \<or> (tx_status r = PENDING
                 \<and> r' = r\<lparr>tx_status := ROLLED_BACK, tx_completedAt := Some now\<rparr>)))
       \<and> (\<exists>r'. map_of (snd (run_calls cs h tbl)) k = Some r'
            \<and> (tx_status r \<noteq> PENDING \<longrightarrow> r' = r)
            \<and> (tx_status r' = tx_status r \<or> tx_status r = PENDING))
       \<and> (tx_status r \<noteq> PENDING \<and> s \<noteq> [] \<and> trim s = k \<longrightarrow>
            commitTransaction now (JStr s) tbl =
              (Inr \<lparr>cm_status = None, cm_error = Some (commit_conflict (tx_status r))\<rparr>, tbl)
            \<and> rollbackTransaction now (JStr s) h tbl =
              (Inr \<lparr>rb_status = None, rb_backup = HNull,
                    rb_error = Some (rollback_conflict (tx_status r))\<rparr>, h, tbl)
            \<and> (\<exists>pre suf. commit_conflict (tx_status r) = pre @ state_name (tx_status r) @ suf)
            \<and> (\<exists>pre. rollback_conflict (tx_status r) = pre @ state_name (tx_status r)))"
proof (intro conjI impI)
  show "\<exists>r'. map_of (snd (commitTransaction now tid tbl)) k = Some r'
            \<and> (r' = r \<or> (tx_status r = PENDING
                 \<and> r' = r\<lparr>tx_status := COMMITTED, tx_completedAt := Some now\<rparr>))"
    by (rule commit_step [OF assms])
  show "\<exists>r'. map_of (snd (snd (rollbackTransaction now tid h tbl))) k = Some r'
            \<and> (r' = r \<or> (tx_status r = PENDING
                 \<and> r' = r\<lparr>tx_status := ROLLED_BACK, tx_completedAt := Some now\<rparr>))"
    by (rule rollback_step [OF assms])
  show "\<exists>r'. map_of (snd (run_calls cs h tbl)) k = Some r'
            \<and> (tx_status r \<noteq> PENDING \<longrightarrow> r' = r)
            \<and> (tx_status r' = tx_status r \<or> tx_status r = PENDING)"
    by (rule run_calls_final [OF assms])
next
  assume c: "tx_status r \<noteq> PENDING \<and> s \<noteq> [] \<and> trim s = k"
  with assms show "commitTransaction now (JStr s) tbl =
              (Inr \<lparr>cm_status = None, cm_error = Some (commit_conflict (tx_status r))\<rparr>, tbl)"
    by (auto simp: commitTransaction_def)
  from c assms show "rollbackTransaction now (JStr s) h tbl =
              (Inr \<lparr>rb_status = None, rb_backup = HNull,
                    rb_error = Some (rollback_conflict (tx_status r))\<rparr>, h, tbl)"
    by (auto simp: rollbackTransaction_def)
  show "\<exists>pre suf. commit_conflict (tx_status r) = pre @ state_name (tx_status r) @ suf"
    using conflict_names_state by blast
  show "\<exists>pre. rollback_conflict (tx_status r) = pre @ state_name (tx_status r)"
    using conflict_names_state by blast
qed

text \<open>
  Claim C3 at a committed transaction: double commit, rollback after commit, and a run
  of both.
\<close>

theorem transaction_state_machine_witness:
  "commitTransaction 5 (JStr ''txn_00112233445566778899aabb'')
     [(''txn_00112233445566778899aabb'', \<lparr>tx_operationData = HRef 2, tx_backup = HRef 1, tx_status = COMMITTED,
                     tx_timestamp = 0, tx_completedAt = Some 3\<rparr>)] =
     (Inr \<lparr>cm_status = None, cm_error = Some (commit_conflict COMMITTED)\<rparr>,
      [(''txn_00112233445566778899aabb'', \<lparr>tx_operationData = HRef 2, tx_backup = HRef 1, tx_status = COMMITTED,
                      tx_timestamp = 0, tx_completedAt = Some 3\<rparr>)])
   \<and> rollbackTransaction 5 (JStr ''txn_00112233445566778899aabb'') []
     [(''txn_00112233445566778899aabb'', \<lparr>tx_operationData = HRef 2, tx_backup = HRef 1, tx_status = COMMITTED,
                     tx_timestamp = 0, tx_completedAt = Some 3\<rparr>)] =
     (Inr \<lparr>rb_status = None, rb_backup = HNull,
           rb_error = Some (rollback_conflict COMMITTED)\<rparr>, [],
      [(''txn_00112233445566778899aabb'', \<lparr>tx_operationData = HRef 2, tx_backup = HRef 1, tx_status = COMMITTED,
                      tx_timestamp = 0, tx_completedAt = Some 3\<rparr>)])
   \<and> map_of (snd (run_calls [Rollback 6 (JStr ''txn_00112233445566778899aabb''), Commit 7 (JStr ''txn_00112233445566778899aabb'')] []
        [(''txn_00112233445566778899aabb'', \<lparr>tx_operationData = HRef 2, tx_backup = HRef 1, tx_status = COMMITTED,
                        tx_timestamp = 0, tx_completedAt = Some 3\<rparr>)])) ''txn_00112233445566778899aabb'' =
       Some \<lparr>tx_operationData = HRef 2, tx_backup = HRef 1, tx_status = COMMITTED,
             tx_timestamp = 0, tx_completedAt = Some 3\<rparr>"
proof -
  let ?r = "\<lparr>tx_operationData = HRef 2, tx_backup = HRef 1, tx_status = COMMITTED,
             tx_timestamp = 0, tx_completedAt = Some 3\<rparr>"
  have m: "map_of [(''txn_00112233445566778899aabb'', ?r)] ''txn_00112233445566778899aabb'' = Some ?r" by simp
  have c: "tx_status ?r \<noteq> PENDING \<and> ''txn_00112233445566778899aabb'' \<noteq> [] \<and> trim ''txn_00112233445566778899aabb'' = ''txn_00112233445566778899aabb''"
    by (simp add: trim_def is_ws_def)
  from transaction_state_machine [OF m, of 5 "JStr ''txn_00112233445566778899aabb''" "[]"
      "[Rollback 6 (JStr ''txn_00112233445566778899aabb''), Commit 7 (JStr ''txn_00112233445566778899aabb'')]" "''txn_00112233445566778899aabb''"] c
  show ?thesis by auto
qed


section \<open>Which entry points raise\<close>

lemma string_guard:
  "truthy v \<and> typeof v = ''string'' \<Longrightarrow> \<exists>s. v = JStr s \<and> s \<noteq> [] \<and> js_trim v = Inr (trim s)"
  by (cases v) simp_all

lemma acquireLock_returns: "\<exists>r. fst (acquireLock rnd n1 n2 R T locks) = Inr r"
proof (cases "truthy R \<and> typeof R = ''string''")
  case True
  from string_guard [OF this] obtain s where "R = JStr s" "s \<noteq> []" by blast
  then show ?thesis
    by (auto simp: acquireLock_def Let_def split: jsval.splits option.splits)
next
  case False
  then show ?thesis by (auto simp: acquireLock_def Let_def)
qed

lemma releaseLock_returns: "\<exists>r. fst (releaseLock R locks) = Inr r"
proof (cases "truthy R \<and> typeof R = ''string''")
  case True
  from string_guard [OF this] obtain s where "R = JStr s" "s \<noteq> []" by blast
  then show ?thesis by (auto simp: releaseLock_def split: option.splits)
next
  case False
  then show ?thesis by (auto simp: releaseLock_def)
qed

lemma isLocked_returns: "\<exists>r. fst (isLocked now R locks) = Inr r"
proof (cases "truthy R \<and> typeof R = ''string''")
  case True
  from string_guard [OF this] obtain s where "R = JStr s" "s \<noteq> []" by blast
  then show ?thesis by (auto simp: isLocked_def Let_def split: option.splits)
next
  case False
  then show ?thesis by (auto simp: isLocked_def)
qed

lemma commitTransaction_returns: "\<exists>r. fst (commitTransaction now tid tbl) = Inr r"
proof (cases "truthy tid \<and> typeof tid = ''string''")
  case True
  from string_guard [OF this] obtain s where "tid = JStr s" "s \<noteq> []" by blast
  then show ?thesis by (auto simp: commitTransaction_def split: option.splits)
next
  case False
  then show ?thesis by (auto simp: commitTransaction_def)
qed

lemma rollbackTransaction_returns:
  assumes "\<And>s txn. tid = JStr s \<Longrightarrow> map_of tbl (trim s) = Some txn \<Longrightarrow> tx_status txn = PENDING
             \<Longrightarrow> \<exists>c. json_clone h (tx_backup txn) = Inr c"
  shows "\<exists>r. fst (rollbackTransaction now tid h tbl) = Inr r"
proof (cases "truthy tid \<and> typeof tid = ''string''")
  case True
  from string_guard [OF this] obtain s where s: "tid = JStr s" "s \<noteq> []" by blast
  show ?thesis
  proof (cases "map_of tbl (trim s)")
    case None
    with s show ?thesis by (simp add: rollbackTransaction_def)
  next
    case (Some txn)
    show ?thesis
    proof (cases "tx_status txn = PENDING")
      case True
      from assms [OF s(1) Some True] obtain c where "json_clone h (tx_backup txn) = Inr c" ..
      with s Some True show ?thesis by (simp add: rollbackTransaction_def split_beta)
    next
      case False
      with s Some show ?thesis by (simp add: rollbackTransaction_def)
    qed
  qed
next
  case False
  then show ?thesis by (auto simp: rollbackTransaction_def)
qed

lemma getOperationStatus_returns: "\<exists>r. fst (getOperationStatus n1 n2 n3 oid ops) = Inr r"
proof (cases "truthy oid \<and> typeof oid = ''string''")
  case True
  from string_guard [OF this] obtain s where "oid = JStr s" "s \<noteq> []" by blast
  then show ?thesis by (auto simp: getOperationStatus_def Let_def split: option.splits)
next
  case False
  then show ?thesis by (auto simp: getOperationStatus_def)
qed

lemma failOperation_returns: "\<exists>r. fst (failOperation now oid msg ops) = Inr r"
proof (cases "truthy oid \<and> typeof oid = ''string''")
  case True
  from string_guard [OF this] obtain s where "oid = JStr s" "s \<noteq> []" by blast
  then show ?thesis by (auto simp: failOperation_def split: option.splits)
next
  case False
  then show ?thesis by (auto simp: failOperation_def)
qed

lemma get_prop_returns: "v \<noteq> JUndefined \<Longrightarrow> v \<noteq> JNull \<Longrightarrow> \<exists>x. get_prop v k = Inr x"
  by (cases v) simp_all

lemma updateOperationProgress_returns:
  assumes "statusData \<noteq> JNull"
  shows "\<exists>r. fst (updateOperationProgress now oid progress statusData ops) = Inr r"
proof (cases "truthy oid \<and> typeof oid = ''string''")
  case True
  from string_guard [OF this] obtain s where s: "oid = JStr s" "s \<noteq> []" by blast
  let ?sd = "if statusData = JUndefined then JObj [] else statusData"
  from assms have "?sd \<noteq> JUndefined" "?sd \<noteq> JNull" by auto
  from get_prop_returns [OF this] obtain c res where
    c: "get_prop ?sd ''completedSteps'' = Inr c" and res: "get_prop ?sd ''result'' = Inr res"
    by blast
  show ?thesis
  proof (cases progress)
    case (JNum p)
    show ?thesis
    proof (cases "map_of ops (trim s)")
      case None
      with s JNum show ?thesis by (simp add: updateOperationProgress_def Let_def)
    next
      case (Some operation0)
      with s JNum c res show ?thesis by (simp add: updateOperationProgress_def Let_def)
    qed
  qed (simp_all add: updateOperationProgress_def Let_def s)
next
  case False
  then show ?thesis by (auto simp: updateOperationProgress_def Let_def)
qed

lemma object_guard: "htruthy P \<and> htypeof P = ''object'' \<Longrightarrow> \<exists>a. P = HRef a"
  by (cases P) simp_all

lemma beginTransaction_returns_iff:
  "(\<exists>r. fst (beginTransaction rnd now P h tbl) = Inr r) =
     (htruthy P \<and> htypeof P = ''object'' \<and> (\<exists>c. json_clone h P = Inr c))"
proof (cases "htruthy P \<and> htypeof P = ''object''")
  case False
  then show ?thesis by (auto simp: beginTransaction_def)
next
  case True
  from object_guard [OF this] obtain a where P: "P = HRef a" ..
  show ?thesis
  proof (cases "snapshot h [] (HRef a)")
    case None
    then show ?thesis by (simp add: P beginTransaction_def json_clone_def JSON_stringify_def)
  next
    case (Some t)
    from snapshot_ref_shape [OF Some] obtain j where j: "to_json t = Some j" by auto
    from beginTransaction_plain [OF Some j, of rnd now tbl] json_clone_plain [OF Some j]
    show ?thesis by (simp add: P)
  qed
qed

lemma and_then_Inr [simp]: "and_then (Inr x) f = f x"
  by (simp add: and_then_def)

lemma and_then_Inl [simp]: "and_then (Inl e) f = Inl e"
  by (simp add: and_then_def)

lemma truthy_defined: "truthy v \<Longrightarrow> v \<noteq> JUndefined \<and> v \<noteq> JNull"
  by (cases v) simp_all

lemma get_prop_truthy: "truthy v \<Longrightarrow> \<exists>x. get_prop v k = Inr x"
  using truthy_defined [of v] get_prop_returns [of v k] by blast

lemma error_type_named_UNKNOWN: "error_type_named ''UNKNOWN'' = Some UNKNOWN"
  by (simp add: error_type_named_def ERROR_TYPES_def)

lemma retry_config_value_truthy: "truthy (retry_config_value t)"
  by (simp add: retry_config_value_def)

lemma to_number_returns: "no_conversion_raises B \<Longrightarrow> \<exists>n. to_number B v = Inr n"
  by (cases v) (simp_all add: no_conversion_raises_def)

lemma to_property_key_returns: "no_conversion_raises B \<Longrightarrow> \<exists>k. to_property_key B v = Inr k"
  by (cases v) (simp_all add: no_conversion_raises_def)

lemma ERROR_TYPES_at_returns: "no_conversion_raises B \<Longrightarrow> \<exists>x. ERROR_TYPES_at B v = Inr x"
  using to_property_key_returns [of B v] by (auto simp: ERROR_TYPES_at_def)

lemma RETRY_CONFIG_at_returns: "no_conversion_raises B \<Longrightarrow> \<exists>x. RETRY_CONFIG_at B v = Inr x"
  using to_property_key_returns [of B v] by (auto simp: RETRY_CONFIG_at_def)

lemma RETRY_CONFIG_at_UNKNOWN:
  "RETRY_CONFIG_at B (JStr (type_name UNKNOWN)) = Inr (retry_config_value UNKNOWN)"
  by (simp add: RETRY_CONFIG_at_def error_type_named_UNKNOWN)

lemma createMappedError_any_returns:
  assumes "no_conversion_raises B"
  shows "\<exists>r. createMappedError_any B now errorType originalMessage = Inr r"
proof -
  from ERROR_TYPES_at_returns [OF assms] obtain known where
    known: "ERROR_TYPES_at B errorType = Inr known" by blast
  define errorType1 where
    "errorType1 = (if \<not> truthy known then JStr (type_name UNKNOWN) else errorType)"
  from RETRY_CONFIG_at_returns [OF assms] obtain configured where
    configured: "RETRY_CONFIG_at B errorType1 = Inr configured" by blast
  define retryConfig where
    "retryConfig = (if truthy configured then configured else retry_config_value UNKNOWN)"
  have "truthy retryConfig"
    by (simp add: retryConfig_def retry_config_value_truthy)
  from get_prop_truthy [OF this] obtain d s m b where
    props: "get_prop retryConfig ''description'' = Inr d" "get_prop retryConfig ''shouldRetry'' = Inr s"
    "get_prop retryConfig ''maxRetries'' = Inr m" "get_prop retryConfig ''backoffMs'' = Inr b"
    by metis
  have cfg: "(if truthy configured then Inr configured else RETRY_CONFIG_at B (JStr (type_name UNKNOWN)))
          = (Inr retryConfig :: exn + jsval)"
    using RETRY_CONFIG_at_UNKNOWN [of B] by (simp add: retryConfig_def)
  show ?thesis
    unfolding createMappedError_any_def known and_then_Inr Let_def errorType1_def [symmetric]
      configured cfg props
    by simp
qed

lemma error_code_and_message_returns:
  assumes "no_conversion_raises B" and "truthy whmError"
  shows "\<exists>c m. error_code_and_message B whmError = Inr (c, m)"
proof -
  from assms obtain t where "bi_stringify B whmError = Inr t"
    by (auto simp: no_conversion_raises_def)
  with assms(2) show ?thesis
    by (cases whmError) (auto simp: error_code_and_message_def)
qed

lemma typeof_string: "typeof v = ''string'' \<Longrightarrow> \<exists>s. v = JStr s"
  by (cases v) simp_all

lemma classify_message_returns:
  assumes "no_conversion_raises B"
  shows "\<exists>r. classify_message B now (JStr s) = Inr r"
proof (cases "find (\<lambda>(pattern, errorType). js_includes (to_lower s) pattern) ERROR_PATTERN_MAP")
  case None
  then show ?thesis
    by (simp add: classify_message_def createMappedError_any_returns [OF assms])
next
  case (Some pt)
  then show ?thesis
    by (cases pt) (simp add: classify_message_def createMappedError_any_returns [OF assms])
qed

lemma mapWhmError_returns:
  assumes "no_conversion_raises B" and "message_is_text B whmError"
  shows "\<exists>r. mapWhmError B now whmError = Inr r"
proof (cases "truthy whmError")
  case False
  then show ?thesis by (simp add: mapWhmError_def createMappedError_any_returns [OF assms(1)])
next
  case True
  from error_code_and_message_returns [OF assms(1) this] obtain c m where
    cm: "error_code_and_message B whmError = Inr (c, m)" by blast
  from ERROR_TYPES_at_returns [OF assms(1)] obtain known where
    known: "ERROR_TYPES_at B c = Inr known" by blast
  show ?thesis
  proof (cases "truthy c \<and> truthy known")
    case True
    with \<open>truthy whmError\<close> cm known show ?thesis
      by (simp add: mapWhmError_def createMappedError_any_returns [OF assms(1)])
  next
    case False
    with assms(2) \<open>truthy whmError\<close> cm known have "typeof m = ''string''"
      by (auto simp: message_is_text_def)
    from typeof_string [OF this] obtain s where s: "m = JStr s" ..
    from classify_message_returns [OF assms(1), of now s] \<open>truthy whmError\<close> cm known False s
    show ?thesis
      by (auto simp: mapWhmError_def)
  qed
qed

lemma isRecoverable_any_returns:
  assumes "no_conversion_raises B"
  shows "\<exists>r. isRecoverable_any B mappedError = Inr r"
proof (cases "truthy mappedError")
  case False
  then show ?thesis by (auto simp: isRecoverable_any_def)
next
  case True
  from get_prop_truthy [OF this] obtain retry where r: "get_prop mappedError ''retry'' = Inr retry"
    by blast
  show ?thesis
  proof (cases "truthy retry")
    case False
    with True r show ?thesis by (auto simp: isRecoverable_any_def)
  next
    case retry: True
    from get_prop_truthy [OF this] obtain s m where
      sm: "get_prop retry ''shouldRetry'' = Inr s" "get_prop retry ''maxRetries'' = Inr m"
      by metis
    from to_number_returns [OF assms] obtain n where "to_number B m = Inr n" by blast
    with True r retry sm show ?thesis by (auto simp: isRecoverable_any_def)
  qed
qed

lemma getRetryBackoff_any_returns:
  assumes "no_conversion_raises B"
  shows "\<exists>r. getRetryBackoff_any B mappedError attemptNumber = Inr r"
proof (cases "truthy mappedError")
  case False
  then show ?thesis by (simp add: getRetryBackoff_any_def)
next
  case True
  from get_prop_truthy [OF this] obtain retry where r: "get_prop mappedError ''retry'' = Inr retry"
    by blast
  show ?thesis
  proof (cases "truthy retry")
    case False
    with True r show ?thesis by (simp add: getRetryBackoff_any_def)
  next
    case retry: True
    from get_prop_truthy [OF this] obtain b where b: "get_prop retry ''backoffMs'' = Inr b"
      by metis
    from to_number_returns [OF assms] obtain a where
      a: "to_number B (if attemptNumber = JUndefined then JNum (Fin 0) else attemptNumber) = Inr a"
      by blast
    from to_number_returns [OF assms] obtain c where
      c: "to_number B (if truthy b then b else JNum (Fin 1000)) = Inr c"
      by blast
    from True r retry b a c show ?thesis by (simp add: getRetryBackoff_any_def Let_def)
  qed
qed

lemma getRetryConfig_returns:
  "no_conversion_raises B \<Longrightarrow> \<exists>r. getRetryConfig B errorType = Inr r"
  using RETRY_CONFIG_at_returns [of B errorType] by (auto simp: getRetryConfig_def)

lemma cleanupOldTransactions_returns:
  "no_conversion_raises B \<Longrightarrow> \<exists>r. fst (cleanupOldTransactions B now maxAgeHours tbl) = Inr r"
  using to_number_returns [of B "if maxAgeHours = JUndefined then JNum (Fin 24) else maxAgeHours"]
  by (auto simp: cleanupOldTransactions_def Let_def)

lemma cleanupOldOperations_returns:
  "no_conversion_raises B \<Longrightarrow> \<exists>r. fst (cleanupOldOperations B now maxAgeMinutes ops others cbs) = Inr r"
  using to_number_returns [of B "if maxAgeMinutes = JUndefined then JNum (Fin 60) else maxAgeMinutes"]
  by (auto simp: cleanupOldOperations_def Let_def)

lemma startAsyncOperation_returns:
  "\<exists>r. fst (startAsyncOperation rnd now operationId type domains ops others) = Inr r"
proof (cases "truthy type \<and> typeof type = ''string''")
  case False
  then show ?thesis by (auto simp: startAsyncOperation_def Let_def)
next
  case True
  from string_guard [OF this] obtain s where s: "type = JStr s" "s \<noteq> []" by blast
  show ?thesis
  proof (cases domains)
    case (JArr ds)
    with s show ?thesis
      by (auto simp: startAsyncOperation_def Let_def split: jsval.splits)
  qed (simp_all add: startAsyncOperation_def Let_def s)
qed

lemma onOperationProgress_returns:
  "\<exists>r. fst (onOperationProgress operationId callback cbs) = Inr r"
proof (cases "truthy operationId \<and> typeof operationId = ''string''")
  case False
  then show ?thesis by (auto simp: onOperationProgress_def)
next
  case True
  from string_guard [OF this] obtain s where "operationId = JStr s" "s \<noteq> []" by blast
  then show ?thesis by (cases callback) (auto simp: onOperationProgress_def)
qed

lemma notify_returns:
  "list_all (quiet_observer B) fs \<Longrightarrow> notify B fs event = Inr ()"
proof (induction fs)
  case Nil
  then show ?case by simp
next
  case (Cons f fs)
  then have q: "quiet_observer B f" and rest: "notify B fs event = Inr ()" by simp_all
  show ?case
  proof (cases "bi_call B f event")
    case None
    with rest show ?thesis by simp
  next
    case (Some error)
    with q have "error \<noteq> JUndefined" "error \<noteq> JNull"
      by (auto simp: quiet_observer_def)
    from get_prop_returns [OF this] obtain m where "get_prop error ''message'' = Inr m" by blast
    with Some rest show ?thesis by simp
  qed
qed

lemma updateOperationProgress_notifying_table:
  "snd (updateOperationProgress_notifying B cbs now oid progress statusData ops) =
     snd (updateOperationProgress now oid progress statusData ops)"
  by (auto simp: updateOperationProgress_notifying_def split: prod.splits sum.splits jsval.splits option.splits)

lemma updateOperationProgress_notifying_returns:
  assumes "statusData \<noteq> JNull" and "list_all (quiet_observer B) (observers_of cbs oid)"
  shows "\<exists>r. fst (updateOperationProgress_notifying B cbs now oid progress statusData ops) = Inr r"
proof -
  from updateOperationProgress_returns [OF assms(1), of now oid progress ops]
  obtain r ops1 where u: "updateOperationProgress now oid progress statusData ops = (Inr r, ops1)"
    by (cases "updateOperationProgress now oid progress statusData ops") auto
  show ?thesis
  proof (cases "updated r")
    case False
    with u show ?thesis by (simp add: updateOperationProgress_notifying_def)
  next
    case True
    show ?thesis
    proof (cases oid)
      case (JStr s)
      show ?thesis
      proof (cases "map_of cbs (trim s)")
        case None
        with u True JStr show ?thesis
          by (auto simp: updateOperationProgress_notifying_def split: jsval.splits option.splits)
      next
        case (Some fs)
        with assms(2) JStr have "list_all (quiet_observer B) fs"
          by (simp add: observers_of_def)
        from notify_returns [OF this] u True JStr Some show ?thesis
          by (auto simp: updateOperationProgress_notifying_def split: jsval.splits option.splits)
      qed
    qed (use u True in \<open>simp_all add: updateOperationProgress_notifying_def\<close>)
  qed
qed

lemma hget_prop_returns: "v \<noteq> HUndefined \<Longrightarrow> v \<noteq> HNull \<Longrightarrow> \<exists>x. hget_prop h v k = Inr x"
  by (cases v) (auto split: hobj.splits)

lemma stored_payloads_lookup:
  "stored_payloads tbl \<Longrightarrow> map_of tbl k = Some txn
     \<Longrightarrow> tx_operationData txn \<noteq> HUndefined \<and> tx_operationData txn \<noteq> HNull"
  by (auto simp: stored_payloads_def list_all_iff dest!: map_of_SomeD)

lemma getTransactionStatus_returns:
  assumes "stored_payloads tbl"
  shows "\<exists>r. getTransactionStatus tid h tbl = Inr r"
proof (cases "truthy tid \<and> typeof tid = ''string''")
  case False
  then show ?thesis by (auto simp: getTransactionStatus_def)
next
  case True
  from string_guard [OF this] obtain s where s: "tid = JStr s" "s \<noteq> []" by blast
  show ?thesis
  proof (cases "map_of tbl (trim s)")
    case None
    with s show ?thesis by (simp add: getTransactionStatus_def)
  next
    case (Some txn)
    from stored_payloads_lookup [OF assms Some] hget_prop_returns
    obtain ty where "hget_prop h (tx_operationData txn) ''type'' = Inr ty" by blast
    with s Some show ?thesis by (simp add: getTransactionStatus_def)
  qed
qed

lemma active_from_returns:
  "stored_payloads tbl \<Longrightarrow> \<exists>r. active_from clock i h tbl = Inr r"
proof (induction tbl arbitrary: i)
  case Nil
  then show ?case by simp
next
  case (Cons e tbl)
  then have ok: "tx_operationData (snd e) \<noteq> HUndefined" "tx_operationData (snd e) \<noteq> HNull"
    and rest: "stored_payloads tbl"
    by (auto simp: stored_payloads_def split_beta)
  from hget_prop_returns [OF ok] obtain ty where
    ty: "hget_prop h (tx_operationData (snd e)) ''type'' = Inr ty" by blast
  from Cons.IH [OF rest] obtain r1 r2 where
    "active_from clock (Suc i) h tbl = Inr r1" "active_from clock i h tbl = Inr r2" by blast
  with ty show ?case by simp
qed

lemma stored_payloads_update:
  "stored_payloads tbl \<Longrightarrow> tx_operationData txn \<noteq> HUndefined \<Longrightarrow> tx_operationData txn \<noteq> HNull
     \<Longrightarrow> stored_payloads (AList.update k txn tbl)"
  by (induction tbl) (auto simp: stored_payloads_def)

lemma stored_payloads_delete:
  "stored_payloads tbl \<Longrightarrow> stored_payloads (AList.delete k tbl)"
  by (induction tbl) (auto simp: stored_payloads_def)

lemma stored_payloads_deletes:
  "stored_payloads tbl \<Longrightarrow> stored_payloads (foldr AList.delete ks tbl)"
  by (induction ks) (simp_all add: stored_payloads_delete)

lemma stored_payloads_cleanup:
  "stored_payloads tbl \<Longrightarrow> stored_payloads (snd (cleanupOldTransactions B now maxAgeHours tbl))"
  by (simp add: cleanupOldTransactions_def Let_def stored_payloads_deletes split: sum.splits)

lemma stored_payloads_commit:
  assumes "stored_payloads tbl"
  shows "stored_payloads (snd (commitTransaction now tid tbl))"
  using commit_shape [of now tid tbl]
proof
  assume "snd (commitTransaction now tid tbl) = tbl"
  with assms show ?thesis by simp
next
  assume "\<exists>k r. map_of tbl k = Some r \<and> tx_status r = PENDING
          \<and> snd (commitTransaction now tid tbl) =
              AList.update k (r\<lparr>tx_status := COMMITTED, tx_completedAt := Some now\<rparr>) tbl"
  then obtain k r where r: "map_of tbl k = Some r"
    and post: "snd (commitTransaction now tid tbl) =
              AList.update k (r\<lparr>tx_status := COMMITTED, tx_completedAt := Some now\<rparr>) tbl"
    by blast
  from stored_payloads_lookup [OF assms r] assms show ?thesis
    unfolding post by (intro stored_payloads_update) simp_all
qed

lemma stored_payloads_rollback:
  assumes "stored_payloads tbl"
  shows "stored_payloads (snd (snd (rollbackTransaction now tid h tbl)))"
  using rollback_shape [of now tid h tbl]
proof
  assume "snd (snd (rollbackTransaction now tid h tbl)) = tbl"
  with assms show ?thesis by simp
next
  assume "\<exists>k r. map_of tbl k = Some r \<and> tx_status r = PENDING
          \<and> snd (snd (rollbackTransaction now tid h tbl)) =
              AList.update k (r\<lparr>tx_status := ROLLED_BACK, tx_completedAt := Some now\<rparr>) tbl"
  then obtain k r where r: "map_of tbl k = Some r"
    and post: "snd (snd (rollbackTransaction now tid h tbl)) =
              AList.update k (r\<lparr>tx_status := ROLLED_BACK, tx_completedAt := Some now\<rparr>) tbl"
    by blast
  from stored_payloads_lookup [OF assms r] assms show ?thesis
    unfolding post by (intro stored_payloads_update) simp_all
qed

lemma json_clone_ref:
  assumes "json_clone h (HRef a) = Inr (v, h1)"
  shows "\<exists>b. v = HRef b"
proof -
  from assms obtain t j where t: "snapshot h [] (HRef a) = Some t" and j: "to_json t = Some j"
    and v: "(v, h1) = JSON_parse j h"
    by (auto simp: json_clone_def JSON_stringify_def split: option.splits)
  from snapshot_ref_shape [OF t] j
  have "(\<exists>ps. to_json (JObj ps) = Some j) \<or> (\<exists>vs. to_json (JArr vs) = Some j)" by auto
  from parse_ref [of _ j _ h] this obtain b where "fst (JSON_parse j h) = HRef b" by blast
  with v show ?thesis by (metis fst_conv)
qed

lemma stored_payloads_begin:
  assumes "stored_payloads tbl"
  shows "stored_payloads (snd (snd (beginTransaction rnd now P h tbl)))"
proof (cases "htruthy P \<and> htypeof P = ''object''")
  case False
  with assms show ?thesis by (auto simp: beginTransaction_def)
next
  case True
  from object_guard [OF this] obtain a where P: "P = HRef a" ..
  show ?thesis
  proof (cases "json_clone h P")
    case (Inl e)
    with assms True show ?thesis by (simp add: beginTransaction_def Let_def)
  next
    case (Inr c)
    obtain backup h1 where c: "c = (backup, h1)" by (cases c)
    show ?thesis
    proof (cases "json_clone h1 P")
      case (Inl e)
      with assms True Inr c show ?thesis by (simp add: beginTransaction_def Let_def)
    next
      case copy: (Inr d)
      obtain dataCopy h2 where d: "d = (dataCopy, h2)" by (cases d)
      from copy d P json_clone_ref obtain b where "dataCopy = HRef b" by blast
      with assms True Inr c copy d show ?thesis
        by (simp add: beginTransaction_def Let_def stored_payloads_update)
    qed
  qed
qed

lemma map_sum_returns [simp]: "(\<exists>y. map_sum id f r = Inr y) = (\<exists>x. r = Inr x)"
  by (cases r) simp_all

lemma beginTransaction_refused:
  "refused (BeginTransaction rnd now P) w = Some e \<Longrightarrow>
     beginTransaction rnd now P (w_heap w) (w_transactions w) = (Inl e, w_heap w, w_transactions w)"
  by (auto simp: beginTransaction_def copyable_def Let_def split: if_splits sum.splits)

lemma beginTransaction_accepted:
  "refused (BeginTransaction rnd now P) w = None \<Longrightarrow>
     \<exists>r. fst (beginTransaction rnd now P (w_heap w) (w_transactions w)) = Inr r"
  using beginTransaction_returns_iff [of rnd now P "w_heap w" "w_transactions w"]
  by (auto simp: copyable_def split: if_splits sum.splits)

lemma updateOperationProgress_notifying_quiet:
  assumes "list_all (quiet_observer B) (observers_of cbs oid)"
  shows "updateOperationProgress_notifying B cbs now oid progress statusData ops =
           updateOperationProgress now oid progress statusData ops"
proof (cases "updateOperationProgress now oid progress statusData ops")
  case (Pair res ops1)
  show ?thesis
  proof (cases res)
    case (Inl e)
    with Pair show ?thesis by (simp add: updateOperationProgress_notifying_def)
  next
    case (Inr r)
    show ?thesis
    proof (cases oid)
      case (JStr s)
      show ?thesis
      proof (cases "map_of cbs (trim s)")
        case None
        with Pair Inr JStr show ?thesis
          by (auto simp: updateOperationProgress_notifying_def split: jsval.splits option.splits)
      next
        case (Some fs)
        with assms JStr have "list_all (quiet_observer B) fs"
          by (simp add: observers_of_def)
        from notify_returns [OF this] Pair Inr JStr Some show ?thesis
          by (auto simp: updateOperationProgress_notifying_def split: jsval.splits option.splits)
      qed
    qed (use Pair Inr in \<open>simp_all add: updateOperationProgress_notifying_def\<close>)
  qed
qed

lemma perform_stored_payloads:
  assumes "stored_payloads (w_transactions w)"
  shows "stored_payloads (w_transactions (snd (perform B c w)))"
proof (cases c)
  case (BeginTransaction rnd now P)
  with stored_payloads_begin [OF assms, of rnd now P "w_heap w"] show ?thesis
    by (simp add: split_beta)
next
  case (CommitTransaction now tid)
  with stored_payloads_commit [OF assms, of now tid] show ?thesis by (simp add: split_beta)
next
  case (RollbackTransaction now tid)
  with stored_payloads_rollback [OF assms, of now tid "w_heap w"] show ?thesis
    by (simp add: split_beta)
next
  case (CleanupOldTransactions now maxAgeHours)
  with stored_payloads_cleanup [OF assms, of B now maxAgeHours] show ?thesis
    by (simp add: split_beta)
next
  case ClearAllTransactions
  then show ?thesis by (simp add: clearAllTransactions_def stored_payloads_def)
qed (use assms in \<open>simp_all add: split_beta\<close>)

lemma stored_payloads_reachable:
  "w_transactions w = [] \<Longrightarrow> stored_payloads (w_transactions (perform_all B cs w))"
proof -
  have "stored_payloads (w_transactions w) \<Longrightarrow> stored_payloads (w_transactions (perform_all B cs w))"
    for w
    by (induction cs arbitrary: w) (simp_all add: perform_stored_payloads)
  then show "w_transactions w = [] \<Longrightarrow> stored_payloads (w_transactions (perform_all B cs w))"
    by (simp add: stored_payloads_def)
qed




text \<open>
  The calls that the amended claim C9 leaves out do raise: an observer that throws
  \<open>null\<close> makes \<open>updateOperationProgress\<close> raise a TypeError after the record was
  updated; so does \<open>statusData = null\<close>, after the progress was written;
  \<open>mapWhmError\<close> raises on the message 404; \<open>rollbackTransaction\<close> raises when the
  stored backup, which the caller holds, has been made to refer to itself;
  \<open>cleanupOldTransactions\<close> and \<open>getRetryConfig\<close> pass on what the conversion of
  their argument throws.
\<close>

lemma escaping_exceptions:
  "perform (B\<lparr>bi_call := \<lambda>f event. Some JNull\<rparr>)
     (UpdateOperationProgress 5 (JStr ''op1'') (JNum (Fin 50)) JUndefined) example_world =
     (Inl TypeError,
      example_world\<lparr>w_operations :=
        [(''op1'', sample_operation\<lparr>op_status := IN_PROGRESS, op_progress := Fin 50\<rparr>)]\<rparr>)"
  "perform B (UpdateOperationProgress 5 (JStr ''op1'') (JNum (Fin 50)) JNull) example_world =
     (Inl TypeError,
      example_world\<lparr>w_operations := [(''op1'', sample_operation\<lparr>op_progress := Fin 50\<rparr>)]\<rparr>)"
  "perform B (MapWhmError 7 (JObj [(''message'', JNum (Fin 404))])) example_world =
     (Inl TypeError, example_world)"
  "perform B (RollbackTransaction 9 (JStr ''txn_00112233445566778899aabb''))
     (example_world\<lparr>w_heap := (w_heap example_world)[1 := HObject [(''self'', HRef 1)]]\<rparr>) =
     (Inl TypeError,
      example_world\<lparr>w_heap := (w_heap example_world)[1 := HObject [(''self'', HRef 1)]]\<rparr>)"
  "perform (B\<lparr>bi_object_to_number := \<lambda>v. Inl (Thrown (JStr ''no number''))\<rparr>)
     (CleanupOldTransactions 9 (JObj [(''valueOf'', JFun 0)])) example_world =
     (Inl (Thrown (JStr ''no number'')), example_world)"
  "perform (B\<lparr>bi_object_to_string := \<lambda>v. Inl (Thrown (JStr ''no key''))\<rparr>)
     (GetRetryConfig (JObj [(''toString'', JFun 0)])) example_world =
     (Inl (Thrown (JStr ''no key'')), example_world)"
proof -
  have tr: "trim ''op1'' = ''op1''" by (simp add: trim_def is_ws_def)
  show "perform (B\<lparr>bi_call := \<lambda>f event. Some JNull\<rparr>)
     (UpdateOperationProgress 5 (JStr ''op1'') (JNum (Fin 50)) JUndefined) example_world =
     (Inl TypeError,
      example_world\<lparr>w_operations :=
        [(''op1'', sample_operation\<lparr>op_status := IN_PROGRESS, op_progress := Fin 50\<rparr>)]\<rparr>)"
    by (simp add: example_world_def updateOperationProgress_notifying_def
        updateOperationProgress_def sample_operation_def Let_def num_gt_def tr
        set_completed_steps_def move_to_in_progress_def)
  show "perform B (UpdateOperationProgress 5 (JStr ''op1'') (JNum (Fin 50)) JNull) example_world =
     (Inl TypeError,
      example_world\<lparr>w_operations := [(''op1'', sample_operation\<lparr>op_progress := Fin 50\<rparr>)]\<rparr>)"
    by (simp add: example_world_def updateOperationProgress_notifying_def
        updateOperationProgress_def sample_operation_def Let_def num_gt_def tr)
  show "perform B (MapWhmError 7 (JObj [(''message'', JNum (Fin 404))])) example_world =
     (Inl TypeError, example_world)"
    by (simp add: mapWhmError_def classify_message_def error_code_and_message_def)
  show "perform (B\<lparr>bi_object_to_number := \<lambda>v. Inl (Thrown (JStr ''no number''))\<rparr>)
     (CleanupOldTransactions 9 (JObj [(''valueOf'', JFun 0)])) example_world =
     (Inl (Thrown (JStr ''no number'')), example_world)"
    by (simp add: cleanupOldTransactions_def)
  show "perform (B\<lparr>bi_object_to_string := \<lambda>v. Inl (Thrown (JStr ''no key''))\<rparr>)
     (GetRetryConfig (JObj [(''toString'', JFun 0)])) example_world =
     (Inl (Thrown (JStr ''no key'')), example_world)"
    by (simp add: getRetryConfig_def RETRY_CONFIG_at_def)
  have c: "json_clone ((w_heap example_world)[1 := HObject [(''self'', HRef 1)]]) (HRef 1) = Inl TypeError"
    by (simp add: example_world_def json_clone_def JSON_stringify_def)
  show "perform B (RollbackTransaction 9 (JStr ''txn_00112233445566778899aabb''))
     (example_world\<lparr>w_heap := (w_heap example_world)[1 := HObject [(''self'', HRef 1)]]\<rparr>) =
     (Inl TypeError,
      example_world\<lparr>w_heap := (w_heap example_world)[1 := HObject [(''self'', HRef 1)]]\<rparr>)"
    using c by (simp add: rollbackTransaction_def trim_txn_id example_world_def)
qed


section \<open>The error classifier on its own mapped errors\<close>

text \<open>
  On the names of the kinds and on string messages the classifier on arbitrary values
  returns the mapped errors of \<open>createMappedError\<close>, as objects; on these objects and
  on whole attempt numbers \<open>isRecoverable_any\<close> and \<open>getRetryBackoff_any\<close> are
  \<open>isRecoverable\<close> and \<open>getRetryBackoff\<close>, the latter when the product and the power
  of the language are exact on the whole numbers involved. The examples are cases of
  the repository's tests.
\<close>

lemma error_type_named_type_name: "error_type_named (type_name t) = Some t"
  by (cases t) (simp_all add: error_type_named_def ERROR_TYPES_def)

lemma calculateSeverity_any_typed:
  "calculateSeverity_any (JStr (type_name t)) = severity_name (calculateSeverity t)"
  by (simp add: calculateSeverity_any_def error_type_named_type_name)

lemma type_name_nonempty: "type_name t \<noteq> []"
  by (cases t) simp_all

lemma createMappedError_any_typed:
  "createMappedError_any B now (JStr (type_name t)) (JStr msg) =
     Inr (mapped_error_value (createMappedError now t msg))"
proof -
  have own: "ERROR_TYPES_at B (JStr (type_name t)) = Inr (JStr (type_name t))"
    "RETRY_CONFIG_at B (JStr (type_name t)) = Inr (retry_config_value t)"
    by (simp_all add: ERROR_TYPES_at_def RETRY_CONFIG_at_def error_type_named_type_name)
  have props:
    "get_prop (retry_config_value t) ''description'' = Inr (JStr (description t))"
    "get_prop (retry_config_value t) ''shouldRetry'' = Inr (JBool (cfg_shouldRetry (RETRY_CONFIG t)))"
    "get_prop (retry_config_value t) ''maxRetries'' =
       Inr (JNum (Fin (of_nat (cfg_maxRetries (RETRY_CONFIG t)))))"
    "get_prop (retry_config_value t) ''backoffMs'' =
       Inr (case cfg_backoffMs (RETRY_CONFIG t) of
              Some b \<Rightarrow> JNum (Fin (of_nat b)) | None \<Rightarrow> JUndefined)"
    by (cases t; simp add: retry_config_value_def)+
  show ?thesis
    by (cases "cfg_backoffMs (RETRY_CONFIG t)")
       (simp_all add: createMappedError_any_def createMappedError_def mapped_error_value_def
          own props type_name_nonempty retry_config_value_truthy calculateSeverity_any_typed Let_def)
qed

lemma isRecoverable_any_typed:
  "isRecoverable_any B (mapped_error_value m) = Inr (isRecoverable (Some m))"
  by (auto simp: isRecoverable_any_def isRecoverable_def mapped_error_value_def num_gt_def)

lemma getRetryBackoff_any_typed:
  assumes "\<And>x y. bi_times B (Fin x) (Fin y) = Fin (x * y)"
    and "\<And>k. k \<le> 3 \<Longrightarrow> bi_pow B (Fin 2) (Fin (of_nat k)) = Fin (2 ^ k)"
  shows "getRetryBackoff_any B (mapped_error_value m) (JNum (Fin (of_nat n))) =
           Inr (Fin (of_nat (getRetryBackoff (Some m) n)))"
proof -
  have m: "math_min (Fin (of_nat n)) (Fin 3) = Fin (of_nat (min n 3))"
    by (auto simp: math_min_def min_def)
  have p: "bi_pow B (Fin 2) (Fin (of_nat (min n 3))) = Fin (2 ^ min n 3)"
    by (rule assms(2)) simp
  show ?thesis
    by (simp add: getRetryBackoff_any_def getRetryBackoff_def mapped_error_value_def Let_def
        m p assms(1))
qed

lemma mapWhmError_string:
  assumes "s \<noteq> []"
  shows "mapWhmError B now (JStr s) =
           Inr (mapped_error_value (createMappedError now
                  (case find (\<lambda>(pattern, errorType). js_includes (to_lower s) pattern)
                          ERROR_PATTERN_MAP of
                     Some (pattern, errorType) \<Rightarrow> errorType
                   | None \<Rightarrow> UNKNOWN) s))"
  using assms createMappedError_any_typed [of B now UNKNOWN s]
  by (simp add: mapWhmError_def classify_message_def error_code_and_message_def
      createMappedError_any_typed split: option.splits)

lemma mapWhmError_examples:
  "mapWhmError B 7 (JStr ''permission denied: timeout'') =
     Inr (mapped_error_value (createMappedError 7 EPERM ''permission denied: timeout''))"
  "mapWhmError B 7 (JStr ''TIMEOUT'') = Inr (mapped_error_value (createMappedError 7 ETIMEDOUT ''TIMEOUT''))"
  "mapWhmError B 7 (JError (JStr ''test'') [(''code'', JStr ''EEXIST'')]) =
     Inr (mapped_error_value (createMappedError 7 EEXIST ''test''))"
  "mapWhmError B 7 (JObj [(''errno'', JStr ''EBUSY''), (''message'', JStr ''busy'')]) =
     Inr (mapped_error_value (createMappedError 7 EBUSY ''busy''))"
  "mapWhmError B 7 JNull =
     Inr (mapped_error_value (createMappedError 7 UNKNOWN ''Erro vazio ou nulo''))"
proof -
  have l1: "to_lower ''permission denied: timeout'' = ''permission denied: timeout''"
    and l2: "to_lower ''TIMEOUT'' = ''timeout''"
    by code_simp+
  show "mapWhmError B 7 (JStr ''permission denied: timeout'') =
     Inr (mapped_error_value (createMappedError 7 EPERM ''permission denied: timeout''))"
    by (simp add: mapWhmError_string l1 ERROR_PATTERN_MAP_def)
  show "mapWhmError B 7 (JStr ''TIMEOUT'') = Inr (mapped_error_value (createMappedError 7 ETIMEDOUT ''TIMEOUT''))"
    by (simp add: mapWhmError_string l2 ERROR_PATTERN_MAP_def)
  have own: "ERROR_TYPES_at B (JStr ''EEXIST'') = Inr (JStr ''EEXIST'')"
    "ERROR_TYPES_at B (JStr ''EBUSY'') = Inr (JStr ''EBUSY'')"
    by (simp_all add: ERROR_TYPES_at_def error_type_named_def ERROR_TYPES_def)
  show "mapWhmError B 7 (JError (JStr ''test'') [(''code'', JStr ''EEXIST'')]) =
     Inr (mapped_error_value (createMappedError 7 EEXIST ''test''))"
    using createMappedError_any_typed [of B 7 EEXIST "''test''"]
    by (simp add: mapWhmError_def error_code_and_message_def own)
  show "mapWhmError B 7 (JObj [(''errno'', JStr ''EBUSY''), (''message'', JStr ''busy'')]) =
     Inr (mapped_error_value (createMappedError 7 EBUSY ''busy''))"
    using createMappedError_any_typed [of B 7 EBUSY "''busy''"]
    by (simp add: mapWhmError_def error_code_and_message_def own)
  show "mapWhmError B 7 JNull =
     Inr (mapped_error_value (createMappedError 7 UNKNOWN ''Erro vazio ou nulo''))"
    using createMappedError_any_typed [of B 7 UNKNOWN "''Erro vazio ou nulo''"]
    by (simp add: mapWhmError_def MSG_EMPTY_ERROR_def)
qed

end
